(* ===== verification/Prelude.thy ===== *)
theory Prelude
  imports Main
begin

text \<open>
  What every component of the model shares: the result and action types that stand for
  \<open>Result\<close> and for \<open>async fn\<close>s that change the database, the composition of actions (the
  \<open>?\<close> operator), a small invariant calculus for actions, and tables with a primary key.

  An action maps the state to a result and the new state. An error does not undo the
  statements that ran before it: no function of the program opens a transaction.
\<close>

named_theorems action_simps \<open>unfolding rules for composed actions\<close>
named_theorems keeps_intros \<open>invariants of composed actions\<close>
named_theorems table_simps \<open>lookups in keyed tables\<close>

section \<open>Results and actions\<close>

type_synonym ('s, 'e, 'a) action = "'s \<Rightarrow> ('e + 'a) \<times> 's"

definition ok :: "'a \<Rightarrow> ('s, 'e, 'a) action" where
  "ok a = (\<lambda>s. (Inr a, s))"

definition fail :: "'e \<Rightarrow> ('s, 'e, 'a) action" where
  "fail e = (\<lambda>s. (Inl e, s))"

definition lift_result :: "'e + 'a \<Rightarrow> ('s, 'e, 'a) action" where
  "lift_result r = (\<lambda>s. (r, s))"

definition and_then :: "('s, 'e, 'a) action \<Rightarrow> ('a \<Rightarrow> ('s, 'e, 'b) action) \<Rightarrow> ('s, 'e, 'b) action" where
  "and_then m f = (\<lambda>s. case m s of (Inl e, s') \<Rightarrow> (Inl e, s') | (Inr a, s') \<Rightarrow> f a s')"

definition map_err :: "('e \<Rightarrow> 'f) \<Rightarrow> ('s, 'e, 'a) action \<Rightarrow> ('s, 'f, 'a) action" where
  "map_err g m = (\<lambda>s. case m s of (Inl e, s') \<Rightarrow> (Inl (g e), s') | (Inr a, s') \<Rightarrow> (Inr a, s'))"

text \<open>A \<open>for\<close> loop whose body ends in \<open>?\<close>: it stops at the first error.\<close>

fun for_each :: "('x \<Rightarrow> ('s, 'e, unit) action) \<Rightarrow> 'x list \<Rightarrow> ('s, 'e, unit) action" where
  "for_each f [] = ok ()"
| "for_each f (x # xs) = and_then (f x) (\<lambda>_. for_each f xs)"

lemma and_then_apply [action_simps]:
  "and_then m f s = (case m s of (Inl e, s') \<Rightarrow> (Inl e, s') | (Inr a, s') \<Rightarrow> f a s')"
  by (simp add: and_then_def)

lemma map_err_apply [action_simps]:
  "map_err g m s = (case m s of (Inl e, s') \<Rightarrow> (Inl (g e), s') | (Inr a, s') \<Rightarrow> (Inr a, s'))"
  by (simp add: map_err_def)

lemma ok_apply [simp]: "ok a s = (Inr a, s)"
  by (simp add: ok_def)

lemma fail_apply [simp]: "fail e s = (Inl e, s)"
  by (simp add: fail_def)

lemma lift_result_apply [simp]: "lift_result r s = (r, s)"
  by (simp add: lift_result_def)

text \<open>Inversion: what a successful composition says about its parts.\<close>

lemma and_then_InrE:
  assumes "and_then m f s = (Inr b, s')"
  obtains a t where "m s = (Inr a, t)" and "f a t = (Inr b, s')"
  using assms by (auto simp: and_then_def split: prod.splits sum.splits)

lemma map_err_Inr_iff [simp]: "map_err g m s = (Inr a, s') \<longleftrightarrow> m s = (Inr a, s')"
  by (auto simp: map_err_def split: prod.splits sum.splits)

lemma for_each_append:
  "for_each f (xs @ ys) = and_then (for_each f xs) (\<lambda>_. for_each f ys)"
  by (induction xs) (auto simp: and_then_def fun_eq_iff split: prod.splits sum.splits)

subsection \<open>Invariants of actions\<close>

text \<open>
  \<open>keeps P m\<close>: whatever the result, also an error halfway, the state afterwards satisfies
  \<open>P\<close> if the state before did.
\<close>

definition keeps :: "('s \<Rightarrow> bool) \<Rightarrow> ('s, 'e, 'a) action \<Rightarrow> bool" where
  "keeps P m \<longleftrightarrow> (\<forall>s. P s \<longrightarrow> P (snd (m s)))"

lemma keepsI: "(\<And>s. P s \<Longrightarrow> P (snd (m s))) \<Longrightarrow> keeps P m"
  by (simp add: keeps_def)

lemma keepsD: "keeps P m \<Longrightarrow> P s \<Longrightarrow> P (snd (m s))"
  by (simp add: keeps_def)

lemma keeps_result: "keeps P m \<Longrightarrow> P s \<Longrightarrow> m s = (r, s') \<Longrightarrow> P s'"
  by (auto dest: keepsD [of P m s])

lemma keeps_ok [keeps_intros]: "keeps P (ok a)"
  by (simp add: keeps_def)

lemma keeps_fail [keeps_intros]: "keeps P (fail e)"
  by (simp add: keeps_def)

lemma keeps_lift_result [keeps_intros]: "keeps P (lift_result r)"
  by (simp add: keeps_def)

lemma keeps_and_then [keeps_intros]:
  "keeps P m \<Longrightarrow> (\<And>a. keeps P (f a)) \<Longrightarrow> keeps P (and_then m f)"
  by (fastforce simp: keeps_def and_then_def split: prod.splits sum.splits)

lemma keeps_map_err [keeps_intros]: "keeps P m \<Longrightarrow> keeps P (map_err g m)"
  by (fastforce simp: keeps_def map_err_def split: prod.splits sum.splits)

lemma keeps_for_each [keeps_intros]: "(\<And>x. x \<in> set xs \<Longrightarrow> keeps P (f x)) \<Longrightarrow> keeps P (for_each f xs)"
  by (induction xs) (auto intro!: keeps_intros)

lemma keeps_if [keeps_intros]:
  "(b \<Longrightarrow> keeps P m) \<Longrightarrow> (\<not> b \<Longrightarrow> keeps P n) \<Longrightarrow> keeps P (if b then m else n)"
  by simp

lemma keeps_case_option [keeps_intros]:
  "(x = None \<Longrightarrow> keeps P m) \<Longrightarrow> (\<And>a. x = Some a \<Longrightarrow> keeps P (f a)) \<Longrightarrow>
    keeps P (case x of None \<Rightarrow> m | Some a \<Rightarrow> f a)"
  by (cases x) auto

section \<open>Tables with a primary key\<close>

text \<open>
  A table is the list of its rows in insertion order. \<open>key\<close> reads a row's primary key. An
  \<open>UPDATE ... WHERE key = k\<close> changes every row with that key, an
  \<open>INSERT ... ON CONFLICT (key) DO UPDATE\<close> merges into the row that has the key or appends.
\<close>

definition tbl_find :: "('r \<Rightarrow> 'k) \<Rightarrow> 'r list \<Rightarrow> 'k \<Rightarrow> 'r option" where
  "tbl_find key t k = find (\<lambda>r. key r = k) t"

definition tbl_update :: "('r \<Rightarrow> 'k) \<Rightarrow> 'k \<Rightarrow> ('r \<Rightarrow> 'r) \<Rightarrow> 'r list \<Rightarrow> 'r list" where
  "tbl_update key k f t = map (\<lambda>r. if key r = k then f r else r) t"

definition tbl_upsert :: "('r \<Rightarrow> 'k) \<Rightarrow> 'r \<Rightarrow> ('r \<Rightarrow> 'r) \<Rightarrow> 'r list \<Rightarrow> 'r list" where
  "tbl_upsert key new merge t =
     (if key new \<in> key ` set t then tbl_update key (key new) merge t else t @ [new])"

abbreviation tbl_ok :: "('r \<Rightarrow> 'k) \<Rightarrow> 'r list \<Rightarrow> bool" where
  "tbl_ok key t \<equiv> distinct (map key t)"

lemma find_append: "find P (xs @ ys) = (case find P xs of None \<Rightarrow> find P ys | Some x \<Rightarrow> Some x)"
  by (induction xs) auto

lemma tbl_find_Nil [table_simps]: "tbl_find key [] k = None"
  by (simp add: tbl_find_def)

lemma tbl_find_None [table_simps]: "tbl_find key t k = None \<longleftrightarrow> k \<notin> key ` set t"
  by (auto simp: tbl_find_def find_None_iff)

lemma tbl_find_SomeD: "tbl_find key t k = Some r \<Longrightarrow> r \<in> set t \<and> key r = k"
  by (auto simp: tbl_find_def find_Some_iff)

lemma tbl_find_eqI: "tbl_ok key t \<Longrightarrow> r \<in> set t \<Longrightarrow> tbl_find key t (key r) = Some r"
  by (induction t) (auto simp: tbl_find_def)

lemma tbl_find_update [table_simps]:
  assumes "\<And>r. key r = k \<Longrightarrow> key (f r) = k"
  shows "tbl_find key (tbl_update key k f t) j =
    (if j = k then map_option f (tbl_find key t k) else tbl_find key t j)"
  using assms by (induction t) (auto simp: tbl_find_def tbl_update_def)

lemma tbl_keys_update:
  assumes "\<And>r. key r = k \<Longrightarrow> key (f r) = k"
  shows "map key (tbl_update key k f t) = map key t"
  using assms by (induction t) (auto simp: tbl_update_def)

lemma tbl_find_upsert [table_simps]:
  assumes "\<And>r. key r = key new \<Longrightarrow> key (merge r) = key new"
  shows "tbl_find key (tbl_upsert key new merge t) j =
    (if j = key new
     then Some (case tbl_find key t (key new) of None \<Rightarrow> new | Some r \<Rightarrow> merge r)
     else tbl_find key t j)"
proof (cases "key new \<in> key ` set t")
  case True
  then obtain r where "tbl_find key t (key new) = Some r"
    by (cases "tbl_find key t (key new)") (auto simp: tbl_find_None)
  with True assms show ?thesis
    by (simp add: tbl_upsert_def tbl_find_update)
next
  case False
  then have "tbl_find key t (key new) = None"
    by (simp add: tbl_find_None)
  with False show ?thesis
    by (auto simp: tbl_upsert_def tbl_find_def find_append split: option.splits)
qed

lemma tbl_ok_update:
  assumes "\<And>r. key r = k \<Longrightarrow> key (f r) = k" and "tbl_ok key t"
  shows "tbl_ok key (tbl_update key k f t)"
  using assms by (simp add: tbl_keys_update)

lemma tbl_ok_upsert:
  assumes "\<And>r. key r = key new \<Longrightarrow> key (merge r) = key new" and "tbl_ok key t"
  shows "tbl_ok key (tbl_upsert key new merge t)"
  using assms by (auto simp: tbl_upsert_def tbl_keys_update)

text \<open>
  An \<open>UPDATE\<close> whose \<open>SET\<close> expressions can fail: one failing row fails the statement.
\<close>

fun tbl_try_update ::
  "('r \<Rightarrow> 'k) \<Rightarrow> 'k \<Rightarrow> ('r \<Rightarrow> 'e + 'r) \<Rightarrow> 'r list \<Rightarrow> 'e + 'r list" where
  "tbl_try_update key k f [] = Inr []"
| "tbl_try_update key k f (r # rs) =
    (case (if key r = k then f r else Inr r) of
       Inl e \<Rightarrow> Inl e
     | Inr r' \<Rightarrow>
        (case tbl_try_update key k f rs of
           Inl e \<Rightarrow> Inl e
         | Inr rs' \<Rightarrow> Inr (r' # rs')))"

lemma tbl_try_update_Cons_Inr:
  "tbl_try_update key k f (r # rs) = Inr t' \<longleftrightarrow>
    (\<exists>r' rs'. (if key r = k then f r else Inr r) = Inr r'
      \<and> tbl_try_update key k f rs = Inr rs' \<and> t' = r' # rs')"
  by (auto simp del: if_split split: sum.splits)

lemma tbl_try_update_keys:
  assumes keys: "\<And>r r'. key r = k \<Longrightarrow> f r = Inr r' \<Longrightarrow> key r' = k"
  shows "tbl_try_update key k f t = Inr t' \<Longrightarrow> map key t' = map key t"
proof (induction t arbitrary: t')
  case (Cons r rs)
  then obtain r' rs' where r': "(if key r = k then f r else Inr r) = Inr r'"
    and rs': "tbl_try_update key k f rs = Inr rs'" and t': "t' = r' # rs'"
    unfolding tbl_try_update_Cons_Inr by blast
  from r' have "key r' = key r"
    by (cases "key r = k") (simp_all add: keys [of r r'])
  with Cons.IH [OF rs'] t' show ?case by simp
qed simp

lemma tbl_try_update_find:
  assumes keys: "\<And>r r'. key r = k \<Longrightarrow> f r = Inr r' \<Longrightarrow> key r' = k"
  shows "tbl_try_update key k f t = Inr t' \<Longrightarrow>
    (j \<noteq> k \<longrightarrow> tbl_find key t' j = tbl_find key t j)
    \<and> (case tbl_find key t k of
         None \<Rightarrow> tbl_find key t' k = None
       | Some r \<Rightarrow> (\<exists>r'. f r = Inr r' \<and> tbl_find key t' k = Some r'))"
proof (induction t arbitrary: t')
  case (Cons r rs)
  then obtain r' rs' where r': "(if key r = k then f r else Inr r) = Inr r'"
    and rs': "tbl_try_update key k f rs = Inr rs'" and t': "t' = r' # rs'"
    unfolding tbl_try_update_Cons_Inr by blast
  have key: "key r' = key r"
    using r' by (cases "key r = k") (simp_all add: keys [of r r'])
  show ?case
    using Cons.IH [OF rs'] r' key
    by (cases "key r = k") (simp_all add: t' tbl_find_def split: option.splits)
qed (simp add: tbl_find_def)

text \<open>On success the table holds \<open>g\<close> of the row, for any pure \<open>g\<close> the expressions compute.\<close>

lemma tbl_find_try_update:
  assumes "tbl_try_update key k f t = Inr t'"
    and pure: "\<And>r r'. f r = Inr r' \<Longrightarrow> r' = g r" and keys: "\<And>r. key (g r) = key r"
  shows "tbl_find key t' j =
    (if j = k then map_option g (tbl_find key t k) else tbl_find key t j)"
proof -
  have stable: "\<And>r r'. key r = k \<Longrightarrow> f r = Inr r' \<Longrightarrow> key r' = k"
    using pure keys by metis
  have "(j \<noteq> k \<longrightarrow> tbl_find key t' j = tbl_find key t j)
    \<and> (case tbl_find key t k of
         None \<Rightarrow> tbl_find key t' k = None
       | Some r \<Rightarrow> (\<exists>r'. f r = Inr r' \<and> tbl_find key t' k = Some r'))"
    by (rule tbl_try_update_find [OF _ assms(1)]) (erule (1) stable)
  then show ?thesis by (auto dest: pure split: option.splits)
qed

lemma tbl_try_update_total:
  "tbl_try_update key k (\<lambda>r. Inr (f r)) t = Inr (tbl_update key k f t)"
  by (induction t) (auto simp: tbl_update_def)

lemma tbl_try_update_absent: "k \<notin> key ` set t \<Longrightarrow> tbl_try_update key k f t = Inr t"
  by (induction t) auto

end
