(* ===== verification/Rust_Text.thy ===== *)
theory Rust_Text
  imports Rust_Int
begin

text \<open>
  Strings of the program are their UTF-8 bytes, \<open>string\<close> in HOL. This theory models what the
  code uses of \<open>str\<close> and \<open>format!\<close>: \<open>strip_prefix\<close>, \<open>trim\<close> (Unicode white space, as the
  UTF-8 sequences of its code points), zero-padded decimals and \<open>str::parse::<u64>\<close>, with
  the lemma that parsing inverts rendering.
\<close>

section \<open>Prefixes\<close>

fun strip_prefix :: "string \<Rightarrow> string \<Rightarrow> string option" where
  "strip_prefix [] s = Some s"
| "strip_prefix (p # ps) [] = None"
| "strip_prefix (p # ps) (c # cs) = (if p = c then strip_prefix ps cs else None)"

lemma strip_prefix_append [simp]: "strip_prefix p (p @ s) = Some s"
  by (induction p) auto

lemma strip_prefix_Some: "strip_prefix p s = Some t \<longleftrightarrow> s = p @ t"
  by (induction p s rule: strip_prefix.induct) auto

lemma strip_prefix_None: "strip_prefix p s = None \<longleftrightarrow> (\<forall>t. s \<noteq> p @ t)"
  by (metis not_Some_eq strip_prefix_Some)

section \<open>White space\<close>

text \<open>The code points with the Unicode property \<open>White_Space\<close>, in UTF-8.\<close>

definition white_space :: "string list" where
  "white_space =
    map (map char_of)
     ([[9], [10], [11], [12], [13], [32], [194, 133], [194, 160], [225, 154, 128],
       [226, 128, 128], [226, 128, 129], [226, 128, 130], [226, 128, 131], [226, 128, 132],
       [226, 128, 133], [226, 128, 134], [226, 128, 135], [226, 128, 136], [226, 128, 137],
       [226, 128, 138], [226, 128, 168], [226, 128, 169], [226, 128, 175], [226, 129, 159],
       [227, 128, 128]] :: nat list list)"

text \<open>The same as literals, for evaluation.\<close>

lemma white_space_code [code]:
  "white_space =
   [[CHR 0x09], [CHR 0x0A], [CHR 0x0B], [CHR 0x0C], [CHR 0x0D], [CHR 0x20],
    [CHR 0xC2, CHR 0x85], [CHR 0xC2, CHR 0xA0], [CHR 0xE1, CHR 0x9A, CHR 0x80],
    [CHR 0xE2, CHR 0x80, CHR 0x80], [CHR 0xE2, CHR 0x80, CHR 0x81],
    [CHR 0xE2, CHR 0x80, CHR 0x82], [CHR 0xE2, CHR 0x80, CHR 0x83],
    [CHR 0xE2, CHR 0x80, CHR 0x84], [CHR 0xE2, CHR 0x80, CHR 0x85],
    [CHR 0xE2, CHR 0x80, CHR 0x86], [CHR 0xE2, CHR 0x80, CHR 0x87],
    [CHR 0xE2, CHR 0x80, CHR 0x88], [CHR 0xE2, CHR 0x80, CHR 0x89],
    [CHR 0xE2, CHR 0x80, CHR 0x8A], [CHR 0xE2, CHR 0x80, CHR 0xA8],
    [CHR 0xE2, CHR 0x80, CHR 0xA9], [CHR 0xE2, CHR 0x80, CHR 0xAF],
    [CHR 0xE2, CHR 0x81, CHR 0x9F], [CHR 0xE3, CHR 0x80, CHR 0x80]]"
  by (simp add: white_space_def char_of_def bit_iff_odd)

fun first_stripped :: "string list \<Rightarrow> string \<Rightarrow> string option" where
  "first_stripped [] s = None"
| "first_stripped (w # ws) s =
    (case strip_prefix w s of Some t \<Rightarrow> Some t | None \<Rightarrow> first_stripped ws s)"

lemma first_stripped_shorter:
  "first_stripped ws s = Some t \<Longrightarrow> [] \<notin> set ws \<Longrightarrow> length t < length s"
  by (induction ws) (auto simp: strip_prefix_Some split: option.splits)

text \<open>The fuel is the length of the string: every step removes at least one byte.\<close>

fun trim_fuel :: "nat \<Rightarrow> string list \<Rightarrow> string \<Rightarrow> string" where
  "trim_fuel 0 ws s = s"
| "trim_fuel (Suc n) ws s =
    (case first_stripped ws s of Some t \<Rightarrow> trim_fuel n ws t | None \<Rightarrow> s)"

lemma trim_fuel_fixed:
  "[] \<notin> set ws \<Longrightarrow> length s \<le> n \<Longrightarrow> first_stripped ws (trim_fuel n ws s) = None"
proof (induction n arbitrary: s)
  case 0
  then show ?case
    using first_stripped_shorter by (cases "first_stripped ws s") fastforce+
next
  case (Suc n)
  then show ?case
    by (cases "first_stripped ws s") (auto dest: first_stripped_shorter)
qed

definition trim_start :: "string \<Rightarrow> string" where
  "trim_start s = trim_fuel (length s) white_space s"

definition trim_end :: "string \<Rightarrow> string" where
  "trim_end s = rev (trim_fuel (length s) (map rev white_space) (rev s))"

definition trim :: "string \<Rightarrow> string" where
  "trim s = trim_end (trim_start s)"

lemma white_space_nonempty: "[] \<notin> set white_space"
  by (auto simp: white_space_def)

lemma trim_start_fixed: "first_stripped white_space (trim_start s) = None"
  unfolding trim_start_def by (rule trim_fuel_fixed [OF white_space_nonempty order_refl])

section \<open>Decimals\<close>

definition digit_char :: "nat \<Rightarrow> char" where
  "digit_char d = char_of (48 + d)"

definition char_digit :: "char \<Rightarrow> nat option" where
  "char_digit c =
    (let n = of_char c :: nat in if 48 \<le> n \<and> n \<le> 57 then Some (n - 48) else None)"

lemma char_digit_char [simp]: "d < 10 \<Longrightarrow> char_digit (digit_char d) = Some d"
  by (simp add: char_digit_def digit_char_def)

fun decimal :: "nat \<Rightarrow> string" where
  "decimal n = (if n < 10 then [digit_char n] else decimal (n div 10) @ [digit_char (n mod 10)])"

declare decimal.simps [simp del]

text \<open>The value of a digit string, from an accumulator; \<open>None\<close> for any other character.\<close>

fun digits_value :: "nat \<Rightarrow> string \<Rightarrow> nat option" where
  "digits_value acc [] = Some acc"
| "digits_value acc (c # cs) =
    (case char_digit c of None \<Rightarrow> None | Some d \<Rightarrow> digits_value (10 * acc + d) cs)"

lemma digits_value_append:
  "digits_value acc (xs @ ys) =
    (case digits_value acc xs of None \<Rightarrow> None | Some a \<Rightarrow> digits_value a ys)"
  by (induction xs arbitrary: acc) (auto split: option.splits)

lemma digits_value_decimal: "digits_value 0 (decimal n) = Some n"
proof (induction n rule: decimal.induct)
  case (1 n)
  show ?case
  proof (cases "n < 10")
    case True
    then show ?thesis by (simp add: decimal.simps [of n])
  next
    case False
    with 1 have "digits_value 0 (decimal (n div 10)) = Some (n div 10)" by simp
    with False show ?thesis
      by (simp add: decimal.simps [of n] digits_value_append)
  qed
qed

lemma decimal_not_Nil [simp]: "decimal n \<noteq> []"
  by (subst decimal.simps) simp

lemma decimal_digits: "c \<in> set (decimal n) \<Longrightarrow> \<exists>d < 10. c = digit_char d"
proof (induction n rule: decimal.induct)
  case (1 n)
  show ?case
  proof (cases "n < 10")
    case True
    with 1(2) show ?thesis by (auto simp: decimal.simps [of n])
  next
    case False
    with 1 show ?thesis
      by (auto simp: decimal.simps [of n] intro: exI [of _ "n mod 10"])
  qed
qed

lemma decimal_length_le: "0 < k \<Longrightarrow> n < 10 ^ k \<Longrightarrow> length (decimal n) \<le> k"
proof (induction n arbitrary: k rule: decimal.induct)
  case (1 n)
  show ?case
  proof (cases "n < 10")
    case True
    with 1(2) show ?thesis by (simp add: decimal.simps [of n])
  next
    case False
    with 1(3) obtain j where k: "k = Suc j" and j: "0 < j"
      by (cases k; cases "k - 1") auto
    with 1(3) have "n div 10 < 10 ^ j" by (simp add: less_mult_imp_div_less mult.commute)
    with False 1(1) j have "length (decimal (n div 10)) \<le> j" by simp
    with False k show ?thesis by (simp add: decimal.simps [of n])
  qed
qed

text \<open>\<open>format!("{n:012}")\<close>: padded on the left with zeros to twelve characters.\<close>

definition zero_padded :: "nat \<Rightarrow> nat \<Rightarrow> string" where
  "zero_padded w n = replicate (w - length (decimal n)) (digit_char 0) @ decimal n"

lemma digits_value_zeros: "digits_value 0 (replicate k (digit_char 0) @ s) = digits_value 0 s"
  by (induction k) auto

lemma digits_value_padded: "digits_value 0 (zero_padded w n) = Some n"
  by (simp add: zero_padded_def digits_value_zeros digits_value_decimal)

lemma zero_padded_length: "n < 10 ^ w \<Longrightarrow> 0 < w \<Longrightarrow> length (zero_padded w n) = w"
  using decimal_length_le [of w n] by (simp add: zero_padded_def)

lemma zero_padded_inj: "zero_padded w m = zero_padded w n \<Longrightarrow> m = n"
  by (metis digits_value_padded option.inject)

text \<open>
  \<open>str::parse::<u64>\<close>: an optional \<open>+\<close>, then at least one digit, with a value of 64 bits. A
  lone sign is an error; a \<open>-\<close> is not a digit.
\<close>

definition parse_u64 :: "string \<Rightarrow> nat option" where
  "parse_u64 s =
    (case s of
       [] \<Rightarrow> None
     | c # cs \<Rightarrow>
        if (c = CHR ''+'' \<or> c = CHR ''-'') \<and> cs = [] then None
        else (case digits_value 0 (if c = CHR ''+'' then cs else s) of
                None \<Rightarrow> None
              | Some n \<Rightarrow> if n < u64_bound then Some n else None))"

lemma parse_u64_code [code]:
  "parse_u64 s =
    (case s of
       [] \<Rightarrow> None
     | c # cs \<Rightarrow>
        if (c = CHR ''+'' \<or> c = CHR ''-'') \<and> cs = [] then None
        else (case digits_value 0 (if c = CHR ''+'' then cs else s) of
                None \<Rightarrow> None
              | Some n \<Rightarrow> if int n < 18446744073709551616 then Some n else None))"
  by (simp add: parse_u64_def u64_bound_def of_nat_less_iff [of _ 18446744073709551616, symmetric]
      del: of_nat_less_iff split: list.split option.split)

lemma digit_char_not_sign: "d < 10 \<Longrightarrow> digit_char d \<noteq> CHR ''+'' \<and> digit_char d \<noteq> CHR ''-''"
proof -
  assume d: "d < 10"
  have "char_digit (CHR ''+'') = None" and "char_digit (CHR ''-'') = None"
    by (simp_all add: char_digit_def)
  with d show ?thesis by (metis char_digit_char option.distinct(1))
qed

lemma zero_padded_cases:
  obtains c cs where "zero_padded w n = c # cs" "c \<noteq> CHR ''+''" "c \<noteq> CHR ''-''"
proof -
  obtain c cs where s: "zero_padded w n = c # cs"
    by (cases "zero_padded w n") (auto simp: zero_padded_def)
  then have "c \<in> set (zero_padded w n)" by simp
  then obtain d where "d < 10" "c = digit_char d"
    using decimal_digits unfolding zero_padded_def by force
  with s that digit_char_not_sign show thesis by blast
qed

lemma parse_u64_padded: "n < u64_bound \<Longrightarrow> parse_u64 (zero_padded w n) = Some n"
proof -
  assume n: "n < u64_bound"
  obtain c cs where s: "zero_padded w n = c # cs" "c \<noteq> CHR ''+''" "c \<noteq> CHR ''-''"
    by (rule zero_padded_cases)
  have "digits_value 0 (c # cs) = Some n"
    using digits_value_padded [of w n] by (simp add: s(1))
  with n s show ?thesis by (simp add: parse_u64_def)
qed

lemma parse_u64_bound: "parse_u64 s = Some n \<Longrightarrow> n < u64_bound"
  by (auto simp: parse_u64_def split: list.splits if_splits option.splits)

end
