(* ===== verification/Json_Value.thy ===== *)
theory Json_Value
  imports Rust_Text "HOL-Library.List_Lexorder" "HOL-Library.Char_ord"
begin

text \<open>
  \<open>serde_json::Value\<close> with its six kinds, the accessors the decoders call, the ordered object
  map the program builds with \<open>Map::insert\<close> (a \<open>BTreeMap\<close>: the \<open>preserve_order\<close> feature is
  off in Cargo.lock), and the \<open>||\<close> operator of PostgreSQL's \<open>jsonb\<close>.

  A number is an integer (\<open>PosInt\<close>, \<open>NegInt\<close>) or a float. No code reads a float: every integer
  accessor answers \<open>None\<close> on it, so it is kept as its text.
\<close>

datatype json =
    JNull
  | JBool bool
  | JInt int
  | JFloat string
  | JStr string
  | JArr "json list"
  | JObj "(string \<times> json) list"

section \<open>Accessors\<close>

fun as_array :: "json \<Rightarrow> json list option" where
  "as_array (JArr xs) = Some xs"
| "as_array _ = None"

fun as_str :: "json \<Rightarrow> string option" where
  "as_str (JStr s) = Some s"
| "as_str _ = None"

fun as_bool :: "json \<Rightarrow> bool option" where
  "as_bool (JBool b) = Some b"
| "as_bool _ = None"

fun as_u64 :: "json \<Rightarrow> nat option" where
  "as_u64 (JInt n) = (if 0 \<le> n \<and> n < int u64_bound then Some (nat n) else None)"
| "as_u64 _ = None"

fun as_i64 :: "json \<Rightarrow> int option" where
  "as_i64 (JInt n) = (if in_i64 n then Some n else None)"
| "as_i64 _ = None"

text \<open>The bound as an \<open>int\<close> numeral, for evaluation.\<close>

lemma as_u64_code [code]:
  "as_u64 v =
    (case v of JInt n \<Rightarrow> if 0 \<le> n \<and> n < 18446744073709551616 then Some (nat n) else None
     | _ \<Rightarrow> None)"
  by (cases v) (simp_all add: u64_bound_def)

text \<open>\<open>Value::get\<close> with a string key, and \<open>slice::get\<close>.\<close>

fun get_key :: "json \<Rightarrow> string \<Rightarrow> json option" where
  "get_key (JObj kvs) k = map_of kvs k"
| "get_key _ k = None"

definition get_nth :: "'a list \<Rightarrow> nat \<Rightarrow> 'a option" where
  "get_nth xs i = (if i < length xs then Some (xs ! i) else None)"

lemma as_i64_Some: "as_i64 v = Some n \<longleftrightarrow> v = JInt n \<and> in_i64 n"
  by (cases v) auto

lemma as_u64_Some: "as_u64 v = Some n \<longleftrightarrow> v = JInt (int n) \<and> n < u64_bound"
  by (cases v) auto

lemma as_str_Some: "as_str v = Some s \<longleftrightarrow> v = JStr s"
  by (cases v) auto

lemma as_bool_Some: "as_bool v = Some b \<longleftrightarrow> v = JBool b"
  by (cases v) auto

section \<open>Ordered maps\<close>

text \<open>A \<open>BTreeMap\<close>: its entries in increasing key order; inserting replaces an equal key.\<close>

fun bt_insert :: "'k::linorder \<Rightarrow> 'v \<Rightarrow> ('k \<times> 'v) list \<Rightarrow> ('k \<times> 'v) list" where
  "bt_insert k v [] = [(k, v)]"
| "bt_insert k v ((j, w) # rest) =
    (if j < k then (j, w) # bt_insert k v rest
     else if j = k then (k, v) # rest
     else (k, v) # (j, w) # rest)"

abbreviation bt_sorted :: "('k::linorder \<times> 'v) list \<Rightarrow> bool" where
  "bt_sorted kvs \<equiv> sorted_wrt (<) (map fst kvs)"

lemma bt_insert_keys: "fst ` set (bt_insert k v kvs) = insert k (fst ` set kvs)"
  by (induction k v kvs rule: bt_insert.induct) auto

lemma bt_insert_sorted: "bt_sorted kvs \<Longrightarrow> bt_sorted (bt_insert k v kvs)"
proof (induction k v kvs rule: bt_insert.induct)
  case (2 k v j w rest)
  then show ?case using bt_insert_keys [of k v rest] by auto
qed simp

lemma bt_insert_lookup: "map_of (bt_insert k v kvs) = (map_of kvs)(k \<mapsto> v)"
  by (induction k v kvs rule: bt_insert.induct) auto

lemma bt_insert_set:
  "bt_sorted kvs \<Longrightarrow> set (bt_insert k v kvs) = insert (k, v) {p \<in> set kvs. fst p \<noteq> k}"
proof (induction k v kvs rule: bt_insert.induct)
  case (2 k v j w rest)
  then have "\<And>p. p \<in> set rest \<Longrightarrow> j < fst p" by simp
  with 2 show ?case by (auto dest: less_trans)
qed simp

section \<open>The concatenation of jsonb values\<close>

definition wrap_array :: "json \<Rightarrow> json list" where
  "wrap_array v = (case v of JArr xs \<Rightarrow> xs | _ \<Rightarrow> [v])"

text \<open>
  \<open>a || b\<close>: two objects merge, the right one winning; otherwise what is not an array counts as a
  one-element array and the arrays are concatenated.
\<close>

fun jsonb_concat :: "json \<Rightarrow> json \<Rightarrow> json" where
  "jsonb_concat (JObj a) (JObj b) = JObj (fold (\<lambda>(k, v). bt_insert k v) b a)"
| "jsonb_concat a b = JArr (wrap_array a @ wrap_array b)"

lemma jsonb_concat_array: "jsonb_concat (JArr xs) v = JArr (xs @ wrap_array v)"
  by (cases v) (auto simp: wrap_array_def)

end
