(* ===== verification/Event_Model.thy ===== *)
theory Event_Model
  imports Json_Value
begin

text \<open>
  \<open>src/indexer/model.rs\<close>: the decoded contract event and the ingestion cursor. \<open>is_after\<close> is
  translated comparison by comparison; \<open>Cursor\<close> is then made an instance of \<open>linorder\<close> by it,
  so that the library's sorting and maximum lemmas apply to positions.
\<close>

record chain_event =
  contract_id :: string
  contract_name :: string
  event_name :: string
  ledger_sequence :: int
  operation_index :: int
  event_index :: int
  topics :: json
  data :: json

datatype cursor = Cursor (cur_ledger: int) (cur_operation: int) (cur_event: int)

definition START :: cursor where
  "START = Cursor 0 (- 1) (- 1)"

definition is_after :: "cursor \<Rightarrow> cursor \<Rightarrow> bool" where
  "is_after self other \<longleftrightarrow>
    cur_ledger self > cur_ledger other
    \<or> (cur_ledger self = cur_ledger other
       \<and> (cur_operation self > cur_operation other
          \<or> (cur_operation self = cur_operation other
             \<and> cur_event self > cur_event other)))"

text \<open>The position of an event, built field by field wherever the code compares events.\<close>

definition event_pos :: "chain_event \<Rightarrow> cursor" where
  "event_pos e = Cursor (ledger_sequence e) (operation_index e) (event_index e)"

lemma event_pos_sel [simp]:
  "cur_ledger (event_pos e) = ledger_sequence e"
  "cur_operation (event_pos e) = operation_index e"
  "cur_event (event_pos e) = event_index e"
  by (simp_all add: event_pos_def)

lemma cursor_eq_iff:
  "a = b \<longleftrightarrow>
    cur_ledger a = cur_ledger b \<and> cur_operation a = cur_operation b \<and> cur_event a = cur_event b"
  by (cases a; cases b) simp

instantiation cursor :: linorder
begin

definition less_cursor :: "cursor \<Rightarrow> cursor \<Rightarrow> bool" where
  "less_cursor a b \<longleftrightarrow> is_after b a"

definition less_eq_cursor :: "cursor \<Rightarrow> cursor \<Rightarrow> bool" where
  "less_eq_cursor a b \<longleftrightarrow> a = b \<or> is_after b a"

instance
  by standard (auto simp: less_cursor_def less_eq_cursor_def is_after_def cursor_eq_iff)

end

lemma is_after_less [simp]: "is_after a b \<longleftrightarrow> b < a"
  by (simp add: less_cursor_def)

lemma cursor_less_iff:
  "(a :: cursor) < b \<longleftrightarrow>
    cur_ledger a < cur_ledger b
    \<or> (cur_ledger a = cur_ledger b
       \<and> (cur_operation a < cur_operation b
          \<or> (cur_operation a = cur_operation b \<and> cur_event a < cur_event b)))"
  unfolding less_cursor_def is_after_def by auto

lemma cursor_less_ledger: "cur_ledger a < cur_ledger b \<Longrightarrow> a < b"
  by (simp add: cursor_less_iff)

lemma cursor_le_ledger: "a \<le> b \<Longrightarrow> cur_ledger a \<le> cur_ledger b"
  by (auto simp: le_less cursor_less_iff)

text \<open>A list of events in strictly increasing order of position.\<close>

abbreviation ordered_events :: "chain_event list \<Rightarrow> bool" where
  "ordered_events evs \<equiv> sorted_wrt (<) (map event_pos evs)"

lemma ordered_events_append:
  "ordered_events (xs @ ys) \<longleftrightarrow>
    ordered_events xs \<and> ordered_events ys
    \<and> (\<forall>x \<in> set xs. \<forall>y \<in> set ys. event_pos x < event_pos y)"
  by (auto simp: sorted_wrt_append)

lemma ordered_events_filter: "ordered_events evs \<Longrightarrow> ordered_events (filter P evs)"
  by (induction evs) auto

lemma ordered_events_last:
  "ordered_events evs \<Longrightarrow> e \<in> set evs \<Longrightarrow> event_pos e \<le> event_pos (last evs)"
  by (induction evs) (auto simp: less_imp_le)

text \<open>The indexer's position columns: \<open>BIGINT\<close>, \<open>INT\<close>, \<open>INT\<close>.\<close>

definition event_in_range :: "chain_event \<Rightarrow> bool" where
  "event_in_range e \<longleftrightarrow>
    in_i64 (ledger_sequence e) \<and> in_i32 (operation_index e) \<and> in_i32 (event_index e)"

end
