(* ===== verification/Ids.thy ===== *)
theory Ids
  imports Rust_Text
begin

text \<open>
  \<open>src/ids.rs\<close>: contract-issued \<open>u64\<close> counters rendered as \<open>prefix:000000000042\<close> and parsed
  back. The lemmas give the round trip and the injectivity that makes the rendering a usable
  primary key of the projection tables.
\<close>

definition counter_id :: "string \<Rightarrow> nat \<Rightarrow> string" where
  "counter_id prefix counter = prefix @ '':'' @ zero_padded 12 counter"

definition parse_counter_id :: "string \<Rightarrow> string \<Rightarrow> nat option" where
  "parse_counter_id input prefix =
    (case strip_prefix (prefix @ '':'') input of
       None \<Rightarrow> None
     | Some bare \<Rightarrow> parse_u64 bare)"

text \<open>\<open>src/farmers/ids.rs\<close>: \<open>Uuid::now_v7\<close> as a text, from the clock and the random source it reads.\<close>

definition uuid7 :: "('clock \<Rightarrow> 'random \<Rightarrow> string) \<Rightarrow> 'clock \<Rightarrow> 'random \<Rightarrow> string" where
  "uuid7 now_v7 clock random = now_v7 clock random"

text \<open>A document is addressed by the hash of its content.\<close>

definition document_id :: "string \<Rightarrow> string" where
  "document_id content_hash = ''va:doc:'' @ content_hash"

lemma document_id_inj: "document_id a = document_id b \<Longrightarrow> a = b"
  by (simp add: document_id_def)

lemma counter_id_inj: "counter_id p m = counter_id p n \<Longrightarrow> m = n"
  by (auto simp: counter_id_def dest: zero_padded_inj)

lemma counter_id_eq_iff [simp]: "counter_id p m = counter_id p n \<longleftrightarrow> m = n"
  by (auto dest: counter_id_inj)

lemma parse_counter_id_bound: "parse_counter_id s p = Some n \<Longrightarrow> n < u64_bound"
  by (auto simp: parse_counter_id_def dest: parse_u64_bound split: option.splits)

lemma parse_counter_id_counter: "n < u64_bound \<Longrightarrow> parse_counter_id (counter_id p n) p = Some n"
  using strip_prefix_append [of "p @ '':''" "zero_padded 12 n"]
  by (simp add: parse_counter_id_def counter_id_def parse_u64_padded)

end
