(* ===== verification/Decoders.thy ===== *)
theory Decoders
  imports Event_Model Ids "HOL-Library.Monad_Syntax"
begin

text \<open>
  \<open>src/indexer/projections.rs\<close>, first part: the decoded events and the functions that read them
  from the JSON payload of a raw event. \<open>do\<close> in the option monad is the \<open>?\<close> of the source.
  The UUID parser of the \<open>uuid\<close> crate is the parameter \<open>uuid\<close>: the canonical text of what it
  parses.
\<close>

definition VERIFICATION_PREFIX :: string where
  "VERIFICATION_PREFIX = ''va:verification''"

definition ESCROW_PREFIX :: string where
  "ESCROW_PREFIX = ''va:escrow''"

definition FINANCING_PREFIX :: string where
  "FINANCING_PREFIX = ''va:financing''"

section \<open>Decoded events\<close>

record VerificationCreated =
  vc_verification_id :: nat
  vc_batch_hex :: string
  vc_subject :: string
  vc_proof_hash :: string
  vc_issuer :: string
  vc_issued_ledger :: int

record VerificationRevoked =
  vr_verification_id :: nat
  vr_revoked_ledger :: int

record EscrowCreated =
  ec_escrow_id :: nat
  ec_depositor :: string
  ec_beneficiary :: string
  ec_amount :: int
  ec_condition_kind :: int
  ec_condition_releaser :: "string option"
  ec_condition_timeout_ledger :: "int option"
  ec_booking_ref_hex :: string
  ec_created_ledger :: int
  ec_updated_ledger :: int

record EscrowDeposited =
  ed_escrow_id :: nat
  ed_amount :: int
  ed_updated_ledger :: int

record EscrowReleased =
  er_escrow_id :: nat
  er_released_amount :: int
  er_updated_ledger :: int

record EscrowRefunded =
  ef_escrow_id :: nat
  ef_updated_ledger :: int

record FinancingCreated =
  fc_financing_id :: nat
  fc_funder :: string
  fc_beneficiary :: string
  fc_total_amount :: int
  fc_drawn_amount :: int
  fc_milestone_count :: int
  fc_milestones :: json
  fc_drawn_ledger :: "int option"
  fc_repaid_amount :: int
  fc_defaulted :: bool
  fc_defaulted_ledger :: "int option"

record FinancingDeposited =
  fd_financing_id :: nat
  fd_amount :: int
  fd_updated_ledger :: int

record FinancingReleased =
  fr_financing_id :: nat
  fr_released_amount :: int
  fr_updated_ledger :: int

record FinancingRefunded =
  ff_financing_id :: nat
  ff_refunded_amount :: int
  ff_defaulted :: bool
  ff_defaulted_ledger :: "int option"

section \<open>Reading the payload\<close>

definition arr :: "json \<Rightarrow> json list option" where
  "arr d = as_array d"

definition get_str :: "json \<Rightarrow> nat \<Rightarrow> string option" where
  "get_str d i = do { xs \<leftarrow> arr d; v \<leftarrow> get_nth xs i; as_str v }"

definition get_u64 :: "json \<Rightarrow> nat \<Rightarrow> nat option" where
  "get_u64 d i = do { xs \<leftarrow> arr d; v \<leftarrow> get_nth xs i; as_u64 v }"

definition get_i64 :: "json \<Rightarrow> nat \<Rightarrow> int option" where
  "get_i64 d i = do { xs \<leftarrow> arr d; v \<leftarrow> get_nth xs i; as_i64 v }"

definition get_i32 :: "json \<Rightarrow> nat \<Rightarrow> int option" where
  "get_i32 d i = map_option as_i32 (do { xs \<leftarrow> arr d; v \<leftarrow> get_nth xs i; as_i64 v })"

definition get_bool :: "json \<Rightarrow> nat \<Rightarrow> bool option" where
  "get_bool d i = do { xs \<leftarrow> arr d; v \<leftarrow> get_nth xs i; as_bool v }"

definition render_uuid7_ref :: "(string \<Rightarrow> string option) \<Rightarrow> string \<Rightarrow> string \<Rightarrow> string" where
  "render_uuid7_ref uuid kind hex =
    ''va:'' @ kind @ '':'' @ (case uuid hex of Some u \<Rightarrow> u | None \<Rightarrow> hex)"

lemmas payload_defs = arr_def get_str_def get_u64_def get_i64_def get_i32_def get_bool_def get_nth_def

section \<open>Decoders\<close>

definition decode_verification_created :: "chain_event \<Rightarrow> VerificationCreated option" where
  "decode_verification_created event = do {
     let d = data event;
     verification_id \<leftarrow> get_u64 d 0;
     batch_hex \<leftarrow> get_str d 1;
     subject \<leftarrow> get_str d 2;
     proof_hash \<leftarrow> get_str d 3;
     issuer \<leftarrow> get_str d 4;
     issued_ledger \<leftarrow> get_i64 d 5;
     Some \<lparr> vc_verification_id = verification_id, vc_batch_hex = batch_hex, vc_subject = subject,
       vc_proof_hash = proof_hash, vc_issuer = issuer, vc_issued_ledger = issued_ledger \<rparr> }"

definition decode_verification_revoked :: "chain_event \<Rightarrow> VerificationRevoked option" where
  "decode_verification_revoked event = do {
     let d = data event;
     verification_id \<leftarrow> get_u64 d 0;
     revoked_ledger \<leftarrow> get_i64 d 3;
     Some \<lparr> vr_verification_id = verification_id, vr_revoked_ledger = revoked_ledger \<rparr> }"

definition decode_escrow_created :: "chain_event \<Rightarrow> EscrowCreated option" where
  "decode_escrow_created event = do {
     let d = data event;
     escrow_id \<leftarrow> get_u64 d 0;
     depositor \<leftarrow> get_str d 1;
     beneficiary \<leftarrow> get_str d 2;
     amount \<leftarrow> get_i64 d 3;
     condition_kind \<leftarrow> get_i32 d 4;
     let condition_releaser = get_str d 5;
     let condition_timeout_ledger = get_i64 d 6;
     booking_ref_hex \<leftarrow> get_str d 7;
     created_ledger \<leftarrow> get_i64 d 8;
     updated_ledger \<leftarrow> get_i64 d 9;
     Some \<lparr> ec_escrow_id = escrow_id, ec_depositor = depositor, ec_beneficiary = beneficiary,
       ec_amount = amount, ec_condition_kind = condition_kind,
       ec_condition_releaser = condition_releaser,
       ec_condition_timeout_ledger = condition_timeout_ledger,
       ec_booking_ref_hex = booking_ref_hex, ec_created_ledger = created_ledger,
       ec_updated_ledger = updated_ledger \<rparr> }"

definition decode_escrow_deposited :: "chain_event \<Rightarrow> EscrowDeposited option" where
  "decode_escrow_deposited event = do {
     let d = data event;
     escrow_id \<leftarrow> get_u64 d 0;
     amount \<leftarrow> get_i64 d 2;
     updated_ledger \<leftarrow> get_i64 d 3;
     Some \<lparr> ed_escrow_id = escrow_id, ed_amount = amount, ed_updated_ledger = updated_ledger \<rparr> }"

definition decode_escrow_released :: "chain_event \<Rightarrow> EscrowReleased option" where
  "decode_escrow_released event = do {
     let d = data event;
     escrow_id \<leftarrow> get_u64 d 0;
     released_amount \<leftarrow> get_i64 d 2;
     updated_ledger \<leftarrow> get_i64 d 3;
     Some \<lparr> er_escrow_id = escrow_id, er_released_amount = released_amount,
       er_updated_ledger = updated_ledger \<rparr> }"

definition decode_escrow_refunded :: "chain_event \<Rightarrow> EscrowRefunded option" where
  "decode_escrow_refunded event = do {
     let d = data event;
     escrow_id \<leftarrow> get_u64 d 0;
     updated_ledger \<leftarrow> get_i64 d 3;
     Some \<lparr> ef_escrow_id = escrow_id, ef_updated_ledger = updated_ledger \<rparr> }"

definition decode_financing_created :: "chain_event \<Rightarrow> FinancingCreated option" where
  "decode_financing_created event = do {
     let d = data event;
     financing_id \<leftarrow> get_u64 d 0;
     funder \<leftarrow> get_str d 1;
     beneficiary \<leftarrow> get_str d 2;
     total_amount \<leftarrow> get_i64 d 3;
     drawn_amount \<leftarrow> get_i64 d 4;
     milestone_count \<leftarrow> get_i32 d 5;
     xs \<leftarrow> arr d;
     milestones \<leftarrow> get_nth xs 6;
     let drawn_ledger = get_i64 d 7;
     repaid_amount \<leftarrow> get_i64 d 8;
     defaulted \<leftarrow> get_bool d 9;
     let defaulted_ledger = get_i64 d 10;
     Some \<lparr> fc_financing_id = financing_id, fc_funder = funder, fc_beneficiary = beneficiary,
       fc_total_amount = total_amount, fc_drawn_amount = drawn_amount,
       fc_milestone_count = milestone_count, fc_milestones = milestones,
       fc_drawn_ledger = drawn_ledger, fc_repaid_amount = repaid_amount,
       fc_defaulted = defaulted, fc_defaulted_ledger = defaulted_ledger \<rparr> }"

definition decode_financing_deposited :: "chain_event \<Rightarrow> FinancingDeposited option" where
  "decode_financing_deposited event = do {
     let d = data event;
     financing_id \<leftarrow> get_u64 d 0;
     amount \<leftarrow> get_i64 d 1;
     updated_ledger \<leftarrow> get_i64 d 2;
     Some \<lparr> fd_financing_id = financing_id, fd_amount = amount, fd_updated_ledger = updated_ledger \<rparr> }"

definition decode_financing_released :: "chain_event \<Rightarrow> FinancingReleased option" where
  "decode_financing_released event = do {
     let d = data event;
     financing_id \<leftarrow> get_u64 d 0;
     released_amount \<leftarrow> get_i64 d 1;
     updated_ledger \<leftarrow> get_i64 d 2;
     Some \<lparr> fr_financing_id = financing_id, fr_released_amount = released_amount,
       fr_updated_ledger = updated_ledger \<rparr> }"

definition decode_financing_refunded :: "chain_event \<Rightarrow> FinancingRefunded option" where
  "decode_financing_refunded event = do {
     let d = data event;
     financing_id \<leftarrow> get_u64 d 0;
     refunded_amount \<leftarrow> get_i64 d 1;
     defaulted \<leftarrow> get_bool d 2;
     let defaulted_ledger = get_i64 d 3;
     Some \<lparr> ff_financing_id = financing_id, ff_refunded_amount = refunded_amount,
       ff_defaulted = defaulted, ff_defaulted_ledger = defaulted_ledger \<rparr> }"

lemmas decoder_defs =
  decode_verification_created_def decode_verification_revoked_def
  decode_escrow_created_def decode_escrow_deposited_def decode_escrow_released_def
  decode_escrow_refunded_def decode_financing_created_def decode_financing_deposited_def
  decode_financing_released_def decode_financing_refunded_def

section \<open>Ranges of what is decoded\<close>

lemma get_u64_bound: "get_u64 d i = Some n \<Longrightarrow> n < u64_bound"
  by (auto simp: get_u64_def as_u64_Some Option.bind_eq_Some_conv)

lemma get_i64_range: "get_i64 d i = Some n \<Longrightarrow> in_i64 n"
  by (auto simp: get_i64_def as_i64_Some Option.bind_eq_Some_conv)

lemma get_i32_range: "get_i32 d i = Some n \<Longrightarrow> in_i32 n"
  by (auto simp: get_i32_def as_i32_range Option.bind_eq_Some_conv)

text \<open>An amount that was rendered as text, because it does not fit in \<open>i64\<close>, is not decoded.\<close>

lemma get_i64_text: "get_nth xs i = Some (JStr s) \<Longrightarrow> get_i64 (JArr xs) i = None"
  by (simp add: get_i64_def arr_def)

lemma uuid_ref_prefix: "\<exists>rest. render_uuid7_ref uuid kind hex = ''va:'' @ kind @ '':'' @ rest"
  by (simp add: render_uuid7_ref_def)

end
