(* ===== verification/App_Error.thy ===== *)
theory App_Error
  imports Prelude
begin

text \<open>
  \<open>src/error.rs\<close>: the errors of the database driver as far as the code distinguishes them, the
  application's error type, and its mapping to HTTP status codes.

  \<open>Io\<close> stands for every transport failure of a statement; \<open>UniqueViolation\<close> and
  \<open>NumericOutOfRange\<close> are the PostgreSQL errors the statements of this program can
  raise (\<open>InvalidRowCount\<close>: a negative \<open>LIMIT\<close> or \<open>OFFSET\<close>).
\<close>

datatype sqlx_error =
    RowNotFound
  | Io
  | Protocol string
  | UniqueViolation string
  | NumericOutOfRange
  | InvalidRowCount

datatype app_error =
    Database sqlx_error
  | NotFound string
  | BadRequest string
  | Unauthorized string
  | Conflict string
  | InternalError string

text \<open>How an operation that can also panic ends without a value.\<close>

datatype failure = Panic | Failed app_error

fun from_sqlx :: "sqlx_error \<Rightarrow> app_error" where
  "from_sqlx RowNotFound = NotFound ''resource not found''"
| "from_sqlx other = Database other"

text \<open>The response: the status code and the text under \<open>error\<close>; \<open>text_of\<close> renders a driver error.\<close>

fun into_response :: "(sqlx_error \<Rightarrow> string) \<Rightarrow> app_error \<Rightarrow> nat \<times> string" where
  "into_response text_of (Database err) = (500, text_of err)"
| "into_response text_of (NotFound message) = (404, message)"
| "into_response text_of (BadRequest message) = (400, message)"
| "into_response text_of (Unauthorized message) = (401, message)"
| "into_response text_of (Conflict message) = (409, message)"
| "into_response text_of (InternalError message) = (500, message)"

definition status_of :: "app_error \<Rightarrow> nat" where
  "status_of e = fst (into_response (\<lambda>_. []) e)"

lemma status_of_simps [simp]:
  "status_of (Database s) = 500"
  "status_of (NotFound m) = 404"
  "status_of (BadRequest m) = 400"
  "status_of (Unauthorized m) = 401"
  "status_of (Conflict m) = 409"
  "status_of (InternalError m) = 500"
  by (simp_all add: status_of_def)

end
