(* ===== verification/Database.thy ===== *)
theory Database
  imports Event_Model App_Error
begin

text \<open>
  The PostgreSQL state the program works on (migrations/0002, 0004, 0005 and 0006) and the two
  ways it runs a statement. The columns \<open>updated_at\<close>, \<open>ingested_at\<close> and the serial \<open>id\<close>s are
  written by defaults only and read by no code, so they are left out; \<open>documents\<close> and
  \<open>schema_meta\<close> are used by no code.

  Statements autocommit. \<open>budget\<close> is the number of further statements before the connection
  is lost (\<open>None\<close>: never), and \<open>ack_lost\<close> says whether the failing statement still took effect
  on the server: every theorem about an operation thus covers a crash at every point of it.
\<close>

section \<open>Rows\<close>

record farmer_row =
  fa_address :: string
  fa_id :: string
  fa_metadata :: json
  fa_metadata_hash :: string
  fa_registered :: bool
  fa_created_ledger :: "int option"
  fa_updated_ledger :: "int option"
  fa_verification_markers :: json
  fa_created_at :: int

record verification_row =
  ver_id :: string
  ver_contract_id :: string
  ver_batch_id :: string
  ver_subject :: string
  ver_proof_hash :: string
  ver_issuer :: string
  ver_issued_ledger :: int
  ver_revoked :: bool
  ver_revoked_ledger :: "int option"

record escrow_row =
  esc_id :: string
  esc_contract_id :: string
  esc_depositor :: string
  esc_beneficiary :: string
  esc_amount :: int
  esc_released_amount :: int
  esc_booking_ref :: "string option"
  esc_condition_kind :: int
  esc_condition_releaser :: "string option"
  esc_condition_timeout_ledger :: "int option"
  esc_created_ledger :: int
  esc_updated_ledger :: int
  esc_status :: string

record financing_row =
  fin_id :: string
  fin_contract_id :: string
  fin_funder :: string
  fin_beneficiary :: string
  fin_total_amount :: int
  fin_drawn_amount :: int
  fin_milestone_count :: int
  fin_milestones :: json
  fin_drawn_ledger :: "int option"
  fin_repaid_amount :: int
  fin_defaulted :: bool
  fin_defaulted_ledger :: "int option"
  fin_updated_ledger :: "int option"
  fin_status :: string

record challenge_row =
  ch_nonce :: string
  ch_domain :: string
  ch_address :: string
  ch_issued_at :: int
  ch_expires_at :: int
  ch_used :: bool

record session_row =
  se_token_hash :: string
  se_address :: string
  se_roles :: "string list"
  se_expires_at :: int

record pg =
  budget :: "nat option"
  ack_lost :: bool
  pg_now :: int
  farmers :: "farmer_row list"
  indexed_events :: "chain_event list"
  indexer_cursors :: "(string \<times> cursor) list"
  verification_projection :: "verification_row list"
  escrow_projection :: "escrow_row list"
  financing_projection :: "financing_row list"
  auth_challenges :: "challenge_row list"
  auth_sessions :: "session_row list"

definition empty_pg :: pg where
  "empty_pg =
    \<lparr> budget = None, ack_lost = False, pg_now = 0, farmers = [], indexed_events = [],
      indexer_cursors = [], verification_projection = [], escrow_projection = [],
      financing_projection = [], auth_challenges = [], auth_sessions = [] \<rparr>"

section \<open>Statements\<close>

type_synonym 'a statement = "(pg, sqlx_error, 'a) action"

text \<open>The server before the next statement; \<open>None\<close> when the connection is gone.\<close>

definition tick :: "pg \<Rightarrow> pg option" where
  "tick db =
    (case budget db of
       None \<Rightarrow> Some db
     | Some 0 \<Rightarrow> None
     | Some (Suc n) \<Rightarrow> Some (db\<lparr>budget := Some n\<rparr>))"

text \<open>\<open>execute\<close>: a statement that writes; an error of the statement itself leaves the tables.\<close>

definition execute :: "(pg \<Rightarrow> sqlx_error + pg) \<Rightarrow> unit statement" where
  "execute f db =
    (case tick db of
       None \<Rightarrow> (Inl Io, if ack_lost db then (case f db of Inl _ \<Rightarrow> db | Inr db' \<Rightarrow> db') else db)
     | Some db0 \<Rightarrow> (case f db0 of Inl e \<Rightarrow> (Inl e, db0) | Inr db' \<Rightarrow> (Inr (), db')))"

text \<open>\<open>query\<close>: a \<open>SELECT\<close>.\<close>

definition query :: "(pg \<Rightarrow> 'a) \<Rightarrow> 'a statement" where
  "query g db = (case tick db of None \<Rightarrow> (Inl Io, db) | Some db0 \<Rightarrow> (Inr (g db0), db0))"

text \<open>The sum of two \<open>BIGINT\<close>s, an error of the statement out of range.\<close>

definition bigint :: "int \<Rightarrow> sqlx_error + int" where
  "bigint x = (if in_i64 x then Inr x else Inl NumericOutOfRange)"

lemma tick_healthy [simp]: "budget db = None \<Longrightarrow> tick db = Some db"
  by (simp add: tick_def)

lemma tick_Some: "tick db = Some db0 \<Longrightarrow> \<exists>b. db0 = db\<lparr>budget := b\<rparr>"
  by (auto simp: tick_def split: option.splits nat.splits intro: exI [of _ None])

lemma tick_budget_update: "tick db = Some db0 \<Longrightarrow> db0\<lparr>budget := b\<rparr> = db\<lparr>budget := b\<rparr>"
  by (auto simp: tick_def split: option.splits nat.splits)

lemma execute_healthy [simp]:
  "budget db = None \<Longrightarrow>
    execute f db = (case f db of Inl e \<Rightarrow> (Inl e, db) | Inr db' \<Rightarrow> (Inr (), db'))"
  by (simp add: execute_def)

lemma query_healthy [simp]: "budget db = None \<Longrightarrow> query g db = (Inr (g db), db)"
  by (simp add: query_def)

lemma execute_InrE:
  assumes "execute f db = (Inr u, db')"
  obtains db0 where "tick db = Some db0" and "f db0 = Inr db'"
  using assms by (auto simp: execute_def split: option.splits sum.splits)

lemma query_InrE:
  assumes "query g db = (Inr a, db')"
  obtains "tick db = Some db'" and "a = g db'"
  using assms by (auto simp: query_def split: option.splits)

text \<open>The three things that can happen to a statement that always succeeds on the server.\<close>

lemma execute_write_cases:
  obtains (finished) b where "execute (\<lambda>db. Inr (g db)) db = (Inr (), g (db\<lparr>budget := b\<rparr>))"
  | (refused) "execute (\<lambda>db. Inr (g db)) db = (Inl Io, db)"
  | (unacknowledged) "execute (\<lambda>db. Inr (g db)) db = (Inl Io, g db)"
proof (cases "tick db")
  case None
  then show thesis using refused unacknowledged by (cases "ack_lost db") (auto simp: execute_def)
next
  case (Some db0)
  then obtain b where "db0 = db\<lparr>budget := b\<rparr>" by (auto dest: tick_Some)
  with Some show thesis using finished by (simp add: execute_def)
qed

text \<open>An invariant that does not look at the fault fields is kept if the statement keeps it.\<close>

definition fault_blind :: "(pg \<Rightarrow> bool) \<Rightarrow> bool" where
  "fault_blind P \<longleftrightarrow> (\<forall>db b. P (db\<lparr>budget := b\<rparr>) \<longleftrightarrow> P db)"

lemma fault_blindD: "fault_blind P \<Longrightarrow> tick db = Some db0 \<Longrightarrow> P db0 \<longleftrightarrow> P db"
  by (auto simp: fault_blind_def dest: tick_Some)

lemma keeps_execute [keeps_intros]:
  assumes blind: "fault_blind P" and step: "\<And>db db'. P db \<Longrightarrow> f db = Inr db' \<Longrightarrow> P db'"
  shows "keeps P (execute f)"
proof (rule keepsI)
  fix db assume P: "P db"
  show "P (snd (execute f db))"
  proof (cases "tick db")
    case None
    with P step show ?thesis by (auto simp: execute_def split: sum.splits)
  next
    case (Some db0)
    with P blind have "P db0" by (simp add: fault_blindD)
    with Some step show ?thesis by (auto simp: execute_def split: sum.splits)
  qed
qed

lemma keeps_query [keeps_intros]:
  assumes "fault_blind P"
  shows "keeps P (query g)"
  using assms by (auto simp: query_def fault_blindD intro!: keepsI split: option.splits)

end
