(* ===== verification/Event_Store.thy ===== *)
theory Event_Store
  imports Database
begin

text \<open>
  \<open>src/indexer/store.rs\<close>: the append-only raw event store, the resume cursors, the re-org rewind
  and the query for finalized events. The lemmas give each operation's effect, also when the
  connection is lost inside it, and the uniqueness of the natural key.
\<close>

section \<open>Operations\<close>

text \<open>
  \<open>UNIQUE (contract_id, ledger_sequence, operation_index, event_index)\<close> with
  \<open>ON CONFLICT DO NOTHING\<close>.
\<close>

definition natural_key :: "chain_event \<Rightarrow> string \<times> cursor" where
  "natural_key e =
    (contract_id e, Cursor (ledger_sequence e) (operation_index e) (event_index e))"

definition insert_event :: "chain_event \<Rightarrow> chain_event list \<Rightarrow> chain_event list" where
  "insert_event e t = (if natural_key e \<in> natural_key ` set t then t else t @ [e])"

definition insert_statement :: "chain_event \<Rightarrow> unit statement" where
  "insert_statement event =
    execute (\<lambda>db. Inr (db\<lparr>indexed_events := insert_event event (indexed_events db)\<rparr>))"

definition append_events :: "chain_event list \<Rightarrow> unit statement" where
  "append_events events = for_each insert_statement events"

definition get_cursor :: "string \<Rightarrow> cursor statement" where
  "get_cursor cid =
    and_then (query (\<lambda>db. tbl_find fst (indexer_cursors db) cid)) (\<lambda>row.
    ok (case row of Some (_, c) \<Rightarrow> c | None \<Rightarrow> START))"

definition set_cursor :: "string \<Rightarrow> cursor \<Rightarrow> unit statement" where
  "set_cursor cid c =
    execute (\<lambda>db. Inr (db\<lparr>indexer_cursors :=
      tbl_upsert fst (cid, c) (\<lambda>row. (fst row, c)) (indexer_cursors db)\<rparr>))"

definition rewind :: "string \<Rightarrow> int \<Rightarrow> unit statement" where
  "rewind cid from_ledger =
    and_then (execute (\<lambda>db. Inr (db\<lparr>indexed_events :=
      filter (\<lambda>e. \<not> (contract_id e = cid \<and> ledger_sequence e \<ge> from_ledger))
        (indexed_events db)\<rparr>)))
    (\<lambda>_. execute (\<lambda>db. Inr (db\<lparr>indexer_cursors :=
      filter (\<lambda>row. fst row \<noteq> cid) (indexer_cursors db)\<rparr>)))"

definition finalized_events :: "string \<Rightarrow> int \<Rightarrow> chain_event list statement" where
  "finalized_events cid finality_floor =
    query (\<lambda>db. sort_key event_pos
      (filter (\<lambda>e. contract_id e = cid \<and> ledger_sequence e \<le> finality_floor)
        (indexed_events db)))"

section \<open>Abstract views\<close>

definition stored :: "pg \<Rightarrow> string \<Rightarrow> chain_event list" where
  "stored db cid = filter (\<lambda>e. contract_id e = cid) (indexed_events db)"

definition cursor_of :: "pg \<Rightarrow> string \<Rightarrow> cursor" where
  "cursor_of db cid =
    (case tbl_find fst (indexer_cursors db) cid of Some (_, c) \<Rightarrow> c | None \<Rightarrow> START)"

definition finalized :: "pg \<Rightarrow> string \<Rightarrow> int \<Rightarrow> chain_event list" where
  "finalized db cid fl =
    sort_key event_pos (filter (\<lambda>e. ledger_sequence e \<le> fl) (stored db cid))"

definition store_ok :: "pg \<Rightarrow> bool" where
  "store_ok db \<longleftrightarrow> tbl_ok natural_key (indexed_events db)"

lemma natural_key_pos: "natural_key e = (contract_id e, event_pos e)"
  by (simp add: natural_key_def event_pos_def)

lemma stored_budget [simp]: "stored (db\<lparr>budget := b\<rparr>) cid = stored db cid"
  by (simp add: stored_def)

lemma cursor_of_budget [simp]: "cursor_of (db\<lparr>budget := b\<rparr>) cid = cursor_of db cid"
  by (simp add: cursor_of_def)

lemma store_ok_budget [simp]: "store_ok (db\<lparr>budget := b\<rparr>) = store_ok db"
  by (simp add: store_ok_def)

lemma store_ok_stored:
  "store_ok db \<Longrightarrow> e \<in> set (stored db cid) \<Longrightarrow> e' \<in> set (stored db cid) \<Longrightarrow>
    event_pos e = event_pos e' \<Longrightarrow> e = e'"
  by (auto simp: store_ok_def stored_def natural_key_pos distinct_map inj_on_def)

section \<open>Lemmas about the raw rows\<close>

lemma insert_event_ok: "tbl_ok natural_key t \<Longrightarrow> tbl_ok natural_key (insert_event e t)"
  by (auto simp: insert_event_def)

lemma insert_event_mono: "set t \<subseteq> set (insert_event e t)"
  by (auto simp: insert_event_def)

lemma insert_event_sub: "set (insert_event e t) \<subseteq> insert e (set t)"
  by (auto simp: insert_event_def)

lemma insert_event_key: "natural_key e \<in> natural_key ` set (insert_event e t)"
  by (auto simp: insert_event_def)

abbreviation insert_events :: "chain_event list \<Rightarrow> chain_event list \<Rightarrow> chain_event list" where
  "insert_events evs t \<equiv> fold insert_event evs t"

lemma insert_events_ok: "tbl_ok natural_key t \<Longrightarrow> tbl_ok natural_key (insert_events evs t)"
  by (induction evs arbitrary: t) (auto simp: insert_event_ok)

lemma insert_events_mono: "set t \<subseteq> set (insert_events evs t)"
  by (induction evs arbitrary: t) (use insert_event_mono in fastforce)+

lemma insert_events_sub: "set (insert_events evs t) \<subseteq> set evs \<union> set t"
  by (induction evs arbitrary: t) (use insert_event_sub in fastforce)+

lemma insert_events_keys:
  "natural_key ` set evs \<subseteq> natural_key ` set (insert_events evs t)"
proof (induction evs arbitrary: t)
  case (Cons e evs)
  then show ?case
    using insert_event_key [of e t] insert_events_mono [of "insert_event e t" evs] by auto
qed simp

text \<open>Rows that are all new are appended in their order.\<close>

lemma insert_events_new:
  "distinct (map natural_key evs) \<Longrightarrow> natural_key ` set evs \<inter> natural_key ` set t = {} \<Longrightarrow>
    insert_events evs t = t @ evs"
proof (induction evs arbitrary: t)
  case (Cons e evs)
  then have "insert_event e t = t @ [e]" by (auto simp: insert_event_def)
  with Cons show ?case by auto
qed simp

lemma insert_events_absent_id:
  "natural_key ` set evs \<subseteq> natural_key ` set t \<Longrightarrow> insert_events evs t = t"
  by (induction evs) (auto simp: insert_event_def)

section \<open>Effects\<close>

lemma append_events_healthy:
  "budget db = None \<Longrightarrow>
    append_events evs db =
      (Inr (), db\<lparr>indexed_events := insert_events evs (indexed_events db)\<rparr>)"
  unfolding append_events_def
  by (induction evs arbitrary: db) (auto simp: action_simps insert_statement_def)

text \<open>Whatever happens, a prefix of the batch has been inserted; all of it on success.\<close>

lemma append_events_effect:
  "\<exists>k b. snd (append_events evs db) =
      db\<lparr>budget := b, indexed_events := insert_events (take k evs) (indexed_events db)\<rparr>
    \<and> (fst (append_events evs db) = Inr () \<longrightarrow> k = length evs)"
  unfolding append_events_def
proof (induction evs arbitrary: db)
  case Nil
  show ?case by (auto intro: exI [of _ "budget db"])
next
  case (Cons e evs)
  let ?ins = "\<lambda>db. db\<lparr>indexed_events := insert_event e (indexed_events db)\<rparr>"
  show ?case
  proof (cases rule: execute_write_cases [of ?ins db])
    case (finished b)
    from Cons [of "?ins (db\<lparr>budget := b\<rparr>)"] obtain k b' where
      "snd (for_each insert_statement evs (?ins (db\<lparr>budget := b\<rparr>))) =
        db\<lparr>budget := b', indexed_events :=
          insert_events (take k evs) (insert_event e (indexed_events db))\<rparr>"
      "fst (for_each insert_statement evs (?ins (db\<lparr>budget := b\<rparr>))) = Inr () \<longrightarrow>
        k = length evs"
      by auto
    with finished show ?thesis
      by (intro exI [of _ "Suc k"] exI [of _ b'])
        (simp add: action_simps insert_statement_def [of e])
  next
    case refused
    then show ?thesis
      by (intro exI [of _ 0] exI [of _ "budget db"]) (simp add: action_simps insert_statement_def)
  next
    case unacknowledged
    then show ?thesis
      by (intro exI [of _ 1] exI [of _ "budget db"]) (simp add: action_simps insert_statement_def)
  qed
qed

lemma get_cursor_effect:
  "\<exists>b. snd (get_cursor cid db) = db\<lparr>budget := b\<rparr>
    \<and> (\<forall>c. fst (get_cursor cid db) = Inr c \<longrightarrow> c = cursor_of db cid)"
  by (auto simp: get_cursor_def action_simps query_def cursor_of_def split: option.splits
      dest: tick_Some intro: exI [of _ "budget db"])

lemma get_cursor_healthy [simp]:
  "budget db = None \<Longrightarrow> get_cursor cid db = (Inr (cursor_of db cid), db)"
  by (simp add: get_cursor_def action_simps cursor_of_def)

definition with_cursor :: "string \<Rightarrow> cursor \<Rightarrow> pg \<Rightarrow> pg" where
  "with_cursor cid c db = db\<lparr>indexer_cursors :=
      tbl_upsert fst (cid, c) (\<lambda>row. (fst row, c)) (indexer_cursors db)\<rparr>"

lemma cursor_of_with_cursor [simp]:
  "cursor_of (with_cursor cid c db) cid' = (if cid' = cid then c else cursor_of db cid')"
  by (auto simp: cursor_of_def with_cursor_def tbl_find_upsert split: option.splits prod.splits)

lemma stored_with_cursor [simp]: "stored (with_cursor cid c db) cid' = stored db cid'"
  by (simp add: stored_def with_cursor_def)

lemma with_cursor_sel [simp]:
  "indexed_events (with_cursor cid c db) = indexed_events db"
  "budget (with_cursor cid c db) = budget db"
  "farmers (with_cursor cid c db) = farmers db"
  "verification_projection (with_cursor cid c db) = verification_projection db"
  "escrow_projection (with_cursor cid c db) = escrow_projection db"
  "financing_projection (with_cursor cid c db) = financing_projection db"
  by (simp_all add: with_cursor_def)

lemma set_cursor_effect:
  "\<exists>b. snd (set_cursor cid c db) = db\<lparr>budget := b\<rparr>
    \<or> snd (set_cursor cid c db) = with_cursor cid c (db\<lparr>budget := b\<rparr>)"
proof (cases rule: execute_write_cases [of "with_cursor cid c" db])
  case refused
  then show ?thesis
    by (intro exI [of _ "budget db"]) (simp add: set_cursor_def with_cursor_def)
next
  case unacknowledged
  then show ?thesis
    by (intro exI [of _ "budget db"]) (simp add: set_cursor_def with_cursor_def)
qed (auto simp: set_cursor_def with_cursor_def)

lemma set_cursor_healthy [simp]:
  "budget db = None \<Longrightarrow> set_cursor cid c db = (Inr (), with_cursor cid c db)"
  by (simp add: set_cursor_def with_cursor_def)

lemma finalized_events_healthy [simp]:
  "budget db = None \<Longrightarrow> finalized_events cid fl db = (Inr (finalized db cid fl), db)"
  by (simp add: finalized_events_def finalized_def stored_def conj_commute)

lemma rewind_healthy:
  "budget db = None \<Longrightarrow>
    rewind cid l db = (Inr (),
      db\<lparr>indexed_events :=
          filter (\<lambda>e. \<not> (contract_id e = cid \<and> ledger_sequence e \<ge> l)) (indexed_events db),
        indexer_cursors := filter (\<lambda>row. fst row \<noteq> cid) (indexer_cursors db)\<rparr>)"
  by (simp add: rewind_def action_simps)

lemma tbl_find_filter_out: "tbl_find fst (filter (\<lambda>row. fst row \<noteq> k) t) j =
    (if j = k then None else tbl_find fst t j)"
  by (induction t) (auto simp: tbl_find_def)

lemma finalized_ordered: "store_ok db \<Longrightarrow> ordered_events (finalized db cid fl)"
proof -
  assume ok: "store_ok db"
  have "inj_on event_pos (set (stored db cid))"
    by (rule inj_onI) (metis ok store_ok_stored)
  moreover have "distinct (stored db cid)"
    using ok by (simp add: store_ok_def stored_def distinct_map)
  ultimately have "distinct (map event_pos (finalized db cid fl))"
    by (auto simp: finalized_def distinct_map distinct_sort intro: inj_on_subset)
  moreover have "sorted (map event_pos (finalized db cid fl))"
    by (simp add: finalized_def)
  ultimately show ?thesis by (simp add: strict_sorted_iff)
qed

lemma set_finalized:
  "set (finalized db cid fl) = {e \<in> set (stored db cid). ledger_sequence e \<le> fl}"
  by (auto simp: finalized_def)

end
