(* ===== verification/Farmer_Model.thy ===== *)
theory Farmer_Model
  imports Database
begin

text \<open>
  \<open>src/farmers/model.rs\<close>: the farmer types and the identifier forms. Whether a string is a
  Stellar ed25519 public key in strkey form is decided by the \<open>stellar_strkey\<close> crate: the
  parameter \<open>is_public_key\<close>.
\<close>

definition FARMER_ID_PREFIX :: string where
  "FARMER_ID_PREFIX = ''va:farmer:''"

record farmer_metadata =
  name :: string
  region :: "string option"
  district :: "string option"
  bio :: "string option"
  profile_image_hash :: "string option"

record verification_marker =
  marker_kind :: string
  marker_issuer :: string
  marker_issued_ledger :: int

record farmer =
  f_address :: string
  f_id :: string
  f_registered :: bool
  f_created_ledger :: "int option"
  f_updated_ledger :: "int option"
  f_metadata :: farmer_metadata
  f_metadata_hash :: string
  f_verification_markers :: "verification_marker list"

record register_farmer_request =
  req_address :: string
  req_metadata :: farmer_metadata
  req_metadata_hash :: "string option"

definition farmer_id :: "string \<Rightarrow> string" where
  "farmer_id address = FARMER_ID_PREFIX @ address"

definition parse_farmer_identifier ::
  "(string \<Rightarrow> bool) \<Rightarrow> string \<Rightarrow> app_error + string" where
  "parse_farmer_identifier is_public_key input =
    (let address = (case strip_prefix FARMER_ID_PREFIX input of Some a \<Rightarrow> a | None \<Rightarrow> input) in
     if is_public_key address then Inr address
     else Inl (BadRequest (''invalid farmer address: '' @ input)))"

lemma farmer_id_inj [simp]: "farmer_id a = farmer_id b \<longleftrightarrow> a = b"
  by (simp add: farmer_id_def)

lemma parse_farmer_identifier_Inr:
  "parse_farmer_identifier is_pk input = Inr a \<Longrightarrow>
    is_pk a \<and> (input = a \<or> input = farmer_id a)"
  by (auto simp: parse_farmer_identifier_def farmer_id_def strip_prefix_Some Let_def
      split: option.splits if_splits)

lemma parse_farmer_identifier_id: "is_pk a \<Longrightarrow> parse_farmer_identifier is_pk (farmer_id a) = Inr a"
  by (simp add: parse_farmer_identifier_def farmer_id_def)

lemma parse_farmer_identifier_error:
  "parse_farmer_identifier is_pk input = Inl e \<Longrightarrow> status_of e = 400"
  by (auto simp: parse_farmer_identifier_def Let_def split: option.splits if_splits)

end
