(* ===== verification/Projections.thy ===== *)
theory Projections
  imports Decoders Event_Store Farmer_Model
begin

text \<open>
  \<open>src/indexer/projections.rs\<close>, second part: the SQL statements that fold events into the
  projection tables and \<open>apply_event\<close>, which dispatches a raw event to its builder. Every
  statement is written as a function on one row (\<open>..._row\<close> for the row inserted,
  \<open>..._conflict\<close> for \<open>ON CONFLICT DO UPDATE\<close>, \<open>..._set\<close> for \<open>UPDATE ... SET\<close>) that the table
  operation applies to the row with the event's id. Sums of \<open>BIGINT\<close> columns fail out of range.
\<close>

section \<open>Verification\<close>

definition new_verification_row ::
  "(string \<Rightarrow> string option) \<Rightarrow> string \<Rightarrow> VerificationCreated \<Rightarrow> verification_row" where
  "new_verification_row uuid cid e =
    \<lparr> ver_id = counter_id VERIFICATION_PREFIX (vc_verification_id e),
      ver_contract_id = cid,
      ver_batch_id = render_uuid7_ref uuid ''batch'' (vc_batch_hex e),
      ver_subject = vc_subject e,
      ver_proof_hash = vc_proof_hash e,
      ver_issuer = vc_issuer e,
      ver_issued_ledger = vc_issued_ledger e,
      ver_revoked = False,
      ver_revoked_ledger = None \<rparr>"

definition verification_conflict :: "verification_row \<Rightarrow> verification_row \<Rightarrow> verification_row" where
  "verification_conflict excluded r =
    r\<lparr> ver_contract_id := ver_contract_id excluded,
       ver_batch_id := ver_batch_id excluded,
       ver_subject := ver_subject excluded,
       ver_proof_hash := ver_proof_hash excluded,
       ver_issuer := ver_issuer excluded,
       ver_issued_ledger := ver_issued_ledger excluded \<rparr>"

definition upsert_verification ::
  "(string \<Rightarrow> string option) \<Rightarrow> string \<Rightarrow> VerificationCreated \<Rightarrow> unit statement" where
  "upsert_verification uuid cid e =
    (let new = new_verification_row uuid cid e in
     execute (\<lambda>db. Inr (db\<lparr>verification_projection :=
       tbl_upsert ver_id new (verification_conflict new) (verification_projection db)\<rparr>)))"

definition revoke_set :: "VerificationRevoked \<Rightarrow> verification_row \<Rightarrow> verification_row" where
  "revoke_set e r = r\<lparr> ver_revoked := True, ver_revoked_ledger := Some (vr_revoked_ledger e) \<rparr>"

definition revoke_verification :: "VerificationRevoked \<Rightarrow> unit statement" where
  "revoke_verification e =
    (let row_id = counter_id VERIFICATION_PREFIX (vr_verification_id e) in
     execute (\<lambda>db. Inr (db\<lparr>verification_projection :=
       tbl_update ver_id row_id (revoke_set e) (verification_projection db)\<rparr>)))"

section \<open>Escrow\<close>

definition new_escrow_row ::
  "(string \<Rightarrow> string option) \<Rightarrow> string \<Rightarrow> EscrowCreated \<Rightarrow> escrow_row" where
  "new_escrow_row uuid cid e =
    \<lparr> esc_id = counter_id ESCROW_PREFIX (ec_escrow_id e),
      esc_contract_id = cid,
      esc_depositor = ec_depositor e,
      esc_beneficiary = ec_beneficiary e,
      esc_amount = ec_amount e,
      esc_released_amount = 0,
      esc_booking_ref = Some (render_uuid7_ref uuid ''booking'' (ec_booking_ref_hex e)),
      esc_condition_kind = ec_condition_kind e,
      esc_condition_releaser = ec_condition_releaser e,
      esc_condition_timeout_ledger = ec_condition_timeout_ledger e,
      esc_created_ledger = ec_created_ledger e,
      esc_updated_ledger = ec_updated_ledger e,
      esc_status = ''open'' \<rparr>"

definition escrow_conflict :: "escrow_row \<Rightarrow> escrow_row \<Rightarrow> escrow_row" where
  "escrow_conflict excluded r =
    r\<lparr> esc_contract_id := esc_contract_id excluded,
       esc_depositor := esc_depositor excluded,
       esc_beneficiary := esc_beneficiary excluded,
       esc_amount := esc_amount excluded,
       esc_booking_ref := esc_booking_ref excluded,
       esc_condition_kind := esc_condition_kind excluded,
       esc_condition_releaser := esc_condition_releaser excluded,
       esc_condition_timeout_ledger := esc_condition_timeout_ledger excluded,
       esc_created_ledger := esc_created_ledger excluded,
       esc_updated_ledger := esc_updated_ledger excluded \<rparr>"

definition upsert_escrow ::
  "(string \<Rightarrow> string option) \<Rightarrow> string \<Rightarrow> EscrowCreated \<Rightarrow> unit statement" where
  "upsert_escrow uuid cid e =
    (let new = new_escrow_row uuid cid e in
     execute (\<lambda>db. Inr (db\<lparr>escrow_projection :=
       tbl_upsert esc_id new (escrow_conflict new) (escrow_projection db)\<rparr>)))"

definition escrow_deposit_set :: "EscrowDeposited \<Rightarrow> escrow_row \<Rightarrow> sqlx_error + escrow_row" where
  "escrow_deposit_set e r =
    (case bigint (esc_amount r + ed_amount e) of
       Inl err \<Rightarrow> Inl err
     | Inr amount \<Rightarrow> Inr (r\<lparr> esc_amount := amount, esc_updated_ledger := ed_updated_ledger e \<rparr>))"

definition escrow_release_set :: "EscrowReleased \<Rightarrow> escrow_row \<Rightarrow> sqlx_error + escrow_row" where
  "escrow_release_set e r =
    (case bigint (esc_released_amount r + er_released_amount e) of
       Inl err \<Rightarrow> Inl err
     | Inr released \<Rightarrow>
        Inr (r\<lparr> esc_released_amount := released,
                esc_updated_ledger := er_updated_ledger e,
                esc_status := (if released \<ge> esc_amount r then ''released'' else ''open'') \<rparr>))"

definition escrow_refund_set :: "EscrowRefunded \<Rightarrow> escrow_row \<Rightarrow> sqlx_error + escrow_row" where
  "escrow_refund_set e r =
    Inr (r\<lparr> esc_status := ''refunded'',
            esc_released_amount := esc_amount r,
            esc_updated_ledger := ef_updated_ledger e \<rparr>)"

definition update_escrow ::
  "string \<Rightarrow> (escrow_row \<Rightarrow> sqlx_error + escrow_row) \<Rightarrow> unit statement" where
  "update_escrow row_id f =
    execute (\<lambda>db. case tbl_try_update esc_id row_id f (escrow_projection db) of
        Inl err \<Rightarrow> Inl err
      | Inr t \<Rightarrow> Inr (db\<lparr>escrow_projection := t\<rparr>))"

definition add_escrow_deposit :: "EscrowDeposited \<Rightarrow> unit statement" where
  "add_escrow_deposit e =
    (let row_id = counter_id ESCROW_PREFIX (ed_escrow_id e) in update_escrow row_id (escrow_deposit_set e))"

definition release_escrow :: "EscrowReleased \<Rightarrow> unit statement" where
  "release_escrow e =
    (let row_id = counter_id ESCROW_PREFIX (er_escrow_id e) in update_escrow row_id (escrow_release_set e))"

definition refund_escrow :: "EscrowRefunded \<Rightarrow> unit statement" where
  "refund_escrow e =
    (let row_id = counter_id ESCROW_PREFIX (ef_escrow_id e) in update_escrow row_id (escrow_refund_set e))"

section \<open>Financing\<close>

definition new_financing_row :: "string \<Rightarrow> FinancingCreated \<Rightarrow> financing_row" where
  "new_financing_row cid e =
    \<lparr> fin_id = counter_id FINANCING_PREFIX (fc_financing_id e),
      fin_contract_id = cid,
      fin_funder = fc_funder e,
      fin_beneficiary = fc_beneficiary e,
      fin_total_amount = fc_total_amount e,
      fin_drawn_amount = fc_drawn_amount e,
      fin_milestone_count = fc_milestone_count e,
      fin_milestones = fc_milestones e,
      fin_drawn_ledger = fc_drawn_ledger e,
      fin_repaid_amount = fc_repaid_amount e,
      fin_defaulted = fc_defaulted e,
      fin_defaulted_ledger = fc_defaulted_ledger e,
      fin_updated_ledger = fc_drawn_ledger e,
      fin_status = (if fc_defaulted e then ''defaulted'' else ''active'') \<rparr>"

definition financing_conflict :: "financing_row \<Rightarrow> financing_row \<Rightarrow> financing_row" where
  "financing_conflict excluded r =
    r\<lparr> fin_contract_id := fin_contract_id excluded,
       fin_funder := fin_funder excluded,
       fin_beneficiary := fin_beneficiary excluded,
       fin_total_amount := fin_total_amount excluded,
       fin_drawn_amount := fin_drawn_amount excluded,
       fin_milestone_count := fin_milestone_count excluded,
       fin_milestones := fin_milestones excluded,
       fin_drawn_ledger := fin_drawn_ledger excluded,
       fin_repaid_amount := fin_repaid_amount excluded,
       fin_defaulted := fin_defaulted excluded,
       fin_defaulted_ledger := fin_defaulted_ledger excluded,
       fin_updated_ledger := fin_updated_ledger excluded \<rparr>"

definition upsert_financing :: "string \<Rightarrow> FinancingCreated \<Rightarrow> unit statement" where
  "upsert_financing cid e =
    (let new = new_financing_row cid e in
     execute (\<lambda>db. Inr (db\<lparr>financing_projection :=
       tbl_upsert fin_id new (financing_conflict new) (financing_projection db)\<rparr>)))"

definition financing_deposit_set ::
  "FinancingDeposited \<Rightarrow> financing_row \<Rightarrow> sqlx_error + financing_row" where
  "financing_deposit_set e r =
    (case bigint (fin_drawn_amount r + fd_amount e) of
       Inl err \<Rightarrow> Inl err
     | Inr drawn \<Rightarrow>
        Inr (r\<lparr> fin_drawn_amount := drawn, fin_updated_ledger := Some (fd_updated_ledger e) \<rparr>))"

definition financing_release_set ::
  "FinancingReleased \<Rightarrow> financing_row \<Rightarrow> sqlx_error + financing_row" where
  "financing_release_set e r =
    (case bigint (fin_drawn_amount r + fr_released_amount e) of
       Inl err \<Rightarrow> Inl err
     | Inr drawn \<Rightarrow>
        Inr (r\<lparr> fin_drawn_amount := drawn,
                fin_drawn_ledger := Some (fr_updated_ledger e),
                fin_updated_ledger := Some (fr_updated_ledger e) \<rparr>))"

definition financing_refund_set ::
  "FinancingRefunded \<Rightarrow> financing_row \<Rightarrow> sqlx_error + financing_row" where
  "financing_refund_set e r =
    (case bigint (fin_drawn_amount r - ff_refunded_amount e) of
       Inl err \<Rightarrow> Inl err
     | Inr remaining \<Rightarrow>
        Inr (r\<lparr> fin_status := (if ff_defaulted e then ''defaulted'' else ''refunded''),
                fin_defaulted := ff_defaulted e,
                fin_defaulted_ledger :=
                  (case ff_defaulted_ledger e of Some l \<Rightarrow> Some l | None \<Rightarrow> fin_defaulted_ledger r),
                fin_drawn_amount := max remaining 0 \<rparr>))"

definition update_financing ::
  "string \<Rightarrow> (financing_row \<Rightarrow> sqlx_error + financing_row) \<Rightarrow> unit statement" where
  "update_financing row_id f =
    execute (\<lambda>db. case tbl_try_update fin_id row_id f (financing_projection db) of
        Inl err \<Rightarrow> Inl err
      | Inr t \<Rightarrow> Inr (db\<lparr>financing_projection := t\<rparr>))"

definition add_financing_deposit :: "FinancingDeposited \<Rightarrow> unit statement" where
  "add_financing_deposit e =
    (let row_id = counter_id FINANCING_PREFIX (fd_financing_id e) in
     update_financing row_id (financing_deposit_set e))"

definition release_financing :: "FinancingReleased \<Rightarrow> unit statement" where
  "release_financing e =
    (let row_id = counter_id FINANCING_PREFIX (fr_financing_id e) in
     update_financing row_id (financing_release_set e))"

definition refund_financing :: "FinancingRefunded \<Rightarrow> unit statement" where
  "refund_financing e =
    (let row_id = counter_id FINANCING_PREFIX (ff_financing_id e) in
     update_financing row_id (financing_refund_set e))"

section \<open>Identity\<close>

text \<open>
  The identity builders write the on-chain columns of \<open>farmers\<close>. \<open>COALESCE\<close> keeps a column when
  the event has no value; the marker column is never bound to \<open>NULL\<close> (\<open>unwrap_or_else\<close>), so the
  \<open>CASE\<close> of the upsert always takes the event's markers.
\<close>

definition identity_topics :: "chain_event \<Rightarrow> string option" where
  "identity_topics event = do { xs \<leftarrow> as_array (topics event); v \<leftarrow> get_nth xs 0; as_str v }"

definition obj_i64 :: "json \<Rightarrow> string \<Rightarrow> int option" where
  "obj_i64 d key = do { v \<leftarrow> get_key d key; as_i64 v }"

definition coalesce :: "'a option \<Rightarrow> 'a option \<Rightarrow> 'a option" where
  "coalesce a b = (case a of Some x \<Rightarrow> Some x | None \<Rightarrow> b)"

definition event_markers :: "chain_event \<Rightarrow> json" where
  "event_markers event =
    (case get_key (data event) ''verification_markers'' of Some m \<Rightarrow> m | None \<Rightarrow> JArr [])"

definition identity_row :: "int \<Rightarrow> string \<Rightarrow> chain_event \<Rightarrow> farmer_row" where
  "identity_row now address event =
    \<lparr> fa_address = address,
      fa_id = farmer_id address,
      fa_metadata = JObj [],
      fa_metadata_hash = [],
      fa_registered = True,
      fa_created_ledger = obj_i64 (data event) ''created_ledger'',
      fa_updated_ledger = obj_i64 (data event) ''updated_ledger'',
      fa_verification_markers = event_markers event,
      fa_created_at = now \<rparr>"

definition identity_conflict :: "farmer_row \<Rightarrow> farmer_row \<Rightarrow> farmer_row" where
  "identity_conflict excluded r =
    r\<lparr> fa_registered := True,
       fa_created_ledger := coalesce (fa_created_ledger excluded) (fa_created_ledger r),
       fa_updated_ledger := coalesce (fa_updated_ledger excluded) (fa_updated_ledger r),
       fa_verification_markers := fa_verification_markers excluded \<rparr>"

text \<open>\<open>address\<close> is the primary key and the conflict target; \<open>id\<close> is \<open>UNIQUE\<close> as well.\<close>

definition insert_farmer_row ::
  "farmer_row \<Rightarrow> (farmer_row \<Rightarrow> farmer_row) \<Rightarrow> farmer_row list \<Rightarrow> sqlx_error + farmer_row list" where
  "insert_farmer_row new merge t =
    (if fa_address new \<notin> fa_address ` set t \<and> fa_id new \<in> fa_id ` set t
     then Inl (UniqueViolation ''farmers_id_key'')
     else Inr (tbl_upsert fa_address new merge t))"

definition upsert_identity_farmer :: "chain_event \<Rightarrow> unit statement" where
  "upsert_identity_farmer event =
    (case identity_topics event of
       None \<Rightarrow> fail (Protocol ''bad FarmerRegistered payload'')
     | Some address \<Rightarrow>
        execute (\<lambda>db.
          let new = identity_row (pg_now db) address event in
          case insert_farmer_row new (identity_conflict new) (farmers db) of
            Inl err \<Rightarrow> Inl err
          | Inr t \<Rightarrow> Inr (db\<lparr>farmers := t\<rparr>)))"

definition identity_metadata_set :: "chain_event \<Rightarrow> farmer_row \<Rightarrow> farmer_row" where
  "identity_metadata_set event r =
    r\<lparr> fa_updated_ledger :=
         coalesce (obj_i64 (data event) ''updated_ledger'') (fa_updated_ledger r) \<rparr>"

definition update_identity_metadata :: "chain_event \<Rightarrow> unit statement" where
  "update_identity_metadata event =
    (case identity_topics event of
       None \<Rightarrow> fail (Protocol ''bad FarmerMetadataUpdated payload'')
     | Some address \<Rightarrow>
        execute (\<lambda>db. Inr (db\<lparr>farmers :=
          tbl_update fa_address address (identity_metadata_set event) (farmers db)\<rparr>)))"

definition identity_marker_set :: "chain_event \<Rightarrow> farmer_row \<Rightarrow> farmer_row" where
  "identity_marker_set event r =
    r\<lparr> fa_verification_markers := jsonb_concat (fa_verification_markers r) (data event) \<rparr>"

definition append_identity_marker :: "chain_event \<Rightarrow> unit statement" where
  "append_identity_marker event =
    (case identity_topics event of
       None \<Rightarrow> fail (Protocol ''bad VerificationMarkerSet payload'')
     | Some address \<Rightarrow>
        execute (\<lambda>db. Inr (db\<lparr>farmers :=
          tbl_update fa_address address (identity_marker_set event) (farmers db)\<rparr>)))"

section \<open>Dispatch\<close>

text \<open>\<open>decode(event).ok_or(Protocol(msg))?\<close>, the builder, then \<open>Ok(true)\<close>.\<close>

definition consume :: "'a option \<Rightarrow> string \<Rightarrow> ('a \<Rightarrow> unit statement) \<Rightarrow> bool statement" where
  "consume decoded msg builder =
    (case decoded of
       None \<Rightarrow> fail (Protocol msg)
     | Some d \<Rightarrow> and_then (builder d) (\<lambda>_. ok True))"

definition apply_event :: "(string \<Rightarrow> string option) \<Rightarrow> chain_event \<Rightarrow> bool statement" where
  "apply_event uuid event =
    (let key = (contract_name event, event_name event); cid = contract_id event in
     if key = (''verification'', ''VerificationCreated'') then
       consume (decode_verification_created event) ''bad VerificationCreated payload''
         (upsert_verification uuid cid)
     else if key = (''verification'', ''VerificationRevoked'') then
       consume (decode_verification_revoked event) ''bad VerificationRevoked payload''
         revoke_verification
     else if key = (''escrow'', ''EscrowCreated'') then
       consume (decode_escrow_created event) ''bad EscrowCreated payload'' (upsert_escrow uuid cid)
     else if key = (''escrow'', ''EscrowDeposited'') then
       consume (decode_escrow_deposited event) ''bad EscrowDeposited payload'' add_escrow_deposit
     else if key = (''escrow'', ''EscrowReleased'') then
       consume (decode_escrow_released event) ''bad EscrowReleased payload'' release_escrow
     else if key = (''escrow'', ''EscrowRefunded'') then
       consume (decode_escrow_refunded event) ''bad EscrowRefunded payload'' refund_escrow
     else if key = (''identity'', ''FarmerRegistered'') then
       and_then (upsert_identity_farmer event) (\<lambda>_. ok True)
     else if key = (''identity'', ''FarmerMetadataUpdated'') then
       and_then (update_identity_metadata event) (\<lambda>_. ok True)
     else if key = (''identity'', ''VerificationMarkerSet'') then
       and_then (append_identity_marker event) (\<lambda>_. ok True)
     else if key = (''financing'', ''FinancingCreated'') then
       consume (decode_financing_created event) ''bad FinancingCreated payload''
         (upsert_financing cid)
     else if key = (''financing'', ''FinancingDeposited'') then
       consume (decode_financing_deposited event) ''bad FinancingDeposited payload''
         add_financing_deposit
     else if key = (''financing'', ''FinancingReleased'') then
       consume (decode_financing_released event) ''bad FinancingReleased payload''
         release_financing
     else if key = (''financing'', ''FinancingRefunded'') then
       consume (decode_financing_refunded event) ''bad FinancingRefunded payload''
         refund_financing
     else ok False)"

end
