(* ===== verification/Event_Source.thy ===== *)
theory Event_Source
  imports Event_Model
begin

text \<open>
  \<open>src/indexer/chain.rs\<close>: the \<open>ChainEvents\<close> trait as a locale and its in-memory provider
  \<open>StubEventSource\<close>. The trait's comment is the contract: the events of one contract, ordered
  by position, strictly after the cursor. \<open>chain_log\<close> is the ghost view the contract speaks of,
  the events of a contract the chain has emitted so far.
\<close>

datatype chain_events_error = Unavailable string | ChainInternal string

section \<open>The ChainEvents trait\<close>

locale event_source =
  fixes valid :: "'src \<Rightarrow> bool"
    and chain_log :: "'src \<Rightarrow> string \<Rightarrow> chain_event list"
    and events_after :: "'src \<Rightarrow> string \<Rightarrow> cursor \<Rightarrow> chain_events_error + chain_event list"
    and head_ledger :: "'src \<Rightarrow> chain_events_error + int"
  assumes log_ordered: "valid src \<Longrightarrow> ordered_events (chain_log src cid)"
    and log_contract: "valid src \<Longrightarrow> e \<in> set (chain_log src cid) \<Longrightarrow> contract_id e = cid"
    and pulled: "valid src \<Longrightarrow> events_after src cid cur = Inr evs \<Longrightarrow>
      evs = filter (\<lambda>e. is_after (event_pos e) cur) (chain_log src cid)"
begin

lemma pulled_iff:
  "valid src \<Longrightarrow> events_after src cid cur = Inr evs \<Longrightarrow>
    e \<in> set evs \<longleftrightarrow> e \<in> set (chain_log src cid) \<and> cur < event_pos e"
  by (auto dest: pulled)

lemma pulled_ordered:
  "valid src \<Longrightarrow> events_after src cid cur = Inr evs \<Longrightarrow> ordered_events evs"
  using log_ordered [of src cid] by (auto dest!: pulled intro: ordered_events_filter)

lemma pulled_contract:
  "valid src \<Longrightarrow> events_after src cid cur = Inr evs \<Longrightarrow> e \<in> set evs \<Longrightarrow> contract_id e = cid"
  by (auto simp: pulled_iff dest: log_contract)

lemma pulled_last_greatest:
  assumes "valid src" and "events_after src cid cur = Inr evs" and "evs \<noteq> []"
    and "e \<in> set (chain_log src cid)"
  shows "event_pos e \<le> event_pos (last evs)"
proof (cases "cur < event_pos e")
  case True
  with assms have "e \<in> set evs" by (simp add: pulled_iff)
  then show ?thesis using pulled_ordered [OF assms(1,2)] by (rule ordered_events_last [rotated])
next
  case False
  have "cur < event_pos (last evs)"
    using assms(1-3) pulled_iff [of src cid cur evs "last evs"] by simp
  with False show ?thesis by simp
qed

lemma pulled_last_after:
  "valid src \<Longrightarrow> events_after src cid cur = Inr evs \<Longrightarrow> evs \<noteq> [] \<Longrightarrow> cur < event_pos (last evs)"
  using pulled_iff [of src cid cur evs "last evs"] by simp

lemma log_position_unique:
  assumes "valid src" and "e \<in> set (chain_log src cid)" and "e' \<in> set (chain_log src cid)"
    and "event_pos e = event_pos e'"
  shows "e = e'"
proof -
  have "distinct (map event_pos (chain_log src cid))"
    using log_ordered [OF assms(1)] by (simp add: strict_sorted_iff)
  with assms(2-4) show ?thesis by (auto simp: distinct_map dest: inj_onD)
qed

end

section \<open>StubEventSource\<close>

record stub_source =
  stub_events :: "(cursor \<times> chain_event) list"
  stub_head :: int

definition stub_new :: stub_source where
  "stub_new = \<lparr> stub_events = [], stub_head = 0 \<rparr>"

definition stub_push :: "chain_event \<Rightarrow> stub_source \<Rightarrow> stub_source" where
  "stub_push event src =
    src\<lparr>stub_events :=
      bt_insert (Cursor (ledger_sequence event) (operation_index event) (event_index event)) event
        (stub_events src)\<rparr>"

definition stub_set_head :: "int \<Rightarrow> stub_source \<Rightarrow> stub_source" where
  "stub_set_head ledger src = src\<lparr>stub_head := ledger\<rparr>"

definition stub_events_after ::
  "stub_source \<Rightarrow> string \<Rightarrow> cursor \<Rightarrow> chain_events_error + chain_event list" where
  "stub_events_after src cid cur =
    Inr (filter
      (\<lambda>ev. is_after (Cursor (ledger_sequence ev) (operation_index ev) (event_index ev)) cur)
      (filter (\<lambda>ev. contract_id ev = cid) (map snd (stub_events src))))"

definition stub_head_ledger :: "stub_source \<Rightarrow> chain_events_error + int" where
  "stub_head_ledger src = Inr (stub_head src)"

text \<open>The invariant of the source: a map from positions to the events at them.\<close>

definition stub_valid :: "stub_source \<Rightarrow> bool" where
  "stub_valid src \<longleftrightarrow>
    bt_sorted (stub_events src) \<and> (\<forall>(k, e) \<in> set (stub_events src). k = event_pos e)"

definition stub_log :: "stub_source \<Rightarrow> string \<Rightarrow> chain_event list" where
  "stub_log src cid = filter (\<lambda>ev. contract_id ev = cid) (map snd (stub_events src))"

lemma stub_valid_new: "stub_valid stub_new"
  by (simp add: stub_valid_def stub_new_def)

lemma stub_valid_push: "stub_valid src \<Longrightarrow> stub_valid (stub_push event src)"
  by (auto simp: stub_valid_def stub_push_def bt_insert_sorted bt_insert_set event_pos_def)

lemma stub_valid_set_head: "stub_valid src \<Longrightarrow> stub_valid (stub_set_head h src)"
  by (simp add: stub_valid_def stub_set_head_def)

lemma stub_keys: "stub_valid src \<Longrightarrow> map fst (stub_events src) = map (event_pos \<circ> snd) (stub_events src)"
  by (auto simp: stub_valid_def)

lemma stub_log_ordered: "stub_valid src \<Longrightarrow> ordered_events (stub_log src cid)"
  unfolding stub_log_def
  by (rule ordered_events_filter) (metis stub_keys stub_valid_def map_map)

interpretation stub: event_source stub_valid stub_log stub_events_after stub_head_ledger
  by unfold_locales
    (auto simp: stub_log_ordered stub_events_after_def event_pos_def, auto simp: stub_log_def)

text \<open>What a push adds and what it replaces: only an event at the very same position.\<close>

lemma stub_push_log:
  "stub_valid src \<Longrightarrow>
    set (stub_log (stub_push event src) cid) =
      {e \<in> set (stub_log src cid). event_pos e \<noteq> event_pos event}
      \<union> (if contract_id event = cid then {event} else {})"
proof -
  assume v: "stub_valid src"
  then have sorted: "bt_sorted (stub_events src)"
    and keys: "\<And>k e. (k, e) \<in> set (stub_events src) \<Longrightarrow> k = event_pos e"
    by (auto simp: stub_valid_def)
  have pos: "Cursor (ledger_sequence event) (operation_index event) (event_index event)
      = event_pos event"
    by (simp add: event_pos_def)
  show ?thesis
    by (auto simp: stub_log_def stub_push_def pos bt_insert_set [OF sorted] image_iff Bex_def
        dest: keys split: if_splits)
qed

end
