(* ===== verification/Indexer.thy ===== *)
theory Indexer
  imports Projections Event_Source
begin

text \<open>
  \<open>src/indexer/service.rs\<close>: one ingestion pass and the polling loop. \<open>pull\<close> and \<open>head\<close> are the
  answers of the event source (the trait object) to this pass, \<open>text_of\<close> the driver's error text.
  The lemmas show what a pass does when nothing fails, and that whatever fails it touches the raw
  store and the cursors only in the way \<open>append_events\<close> and \<open>set_cursor\<close> do.
\<close>

definition TRUSTED_CUTOFF :: int where
  "TRUSTED_CUTOFF = 10"

definition internal :: "(sqlx_error \<Rightarrow> string) \<Rightarrow> 'a statement \<Rightarrow> (pg, chain_events_error, 'a) action" where
  "internal text_of m = map_err (\<lambda>e. ChainInternal (text_of e)) m"

text \<open>The loop over the finalized events; it counts the consumed ones and stops at an error.\<close>

fun apply_finalized ::
  "(sqlx_error \<Rightarrow> string) \<Rightarrow> (string \<Rightarrow> string option) \<Rightarrow> chain_event list \<Rightarrow> nat \<Rightarrow>
    (pg, chain_events_error, nat) action" where
  "apply_finalized text_of uuid [] applied = ok applied"
| "apply_finalized text_of uuid (event # rest) applied =
    and_then (internal text_of (apply_event uuid event)) (\<lambda>consumed.
    apply_finalized text_of uuid rest (if consumed then applied + 1 else applied))"

definition ingest ::
  "(sqlx_error \<Rightarrow> string) \<Rightarrow> (string \<Rightarrow> string option) \<Rightarrow>
    (string \<Rightarrow> cursor \<Rightarrow> chain_events_error + chain_event list) \<Rightarrow> chain_events_error + int \<Rightarrow>
    string \<Rightarrow> (pg, chain_events_error, nat) action" where
  "ingest text_of uuid pull head cid =
    and_then (internal text_of (get_cursor cid)) (\<lambda>cur.
    and_then (lift_result (pull cid cur)) (\<lambda>events.
    if events = [] then ok 0
    else
      and_then (lift_result head) (\<lambda>head.
      let finality_floor = head - TRUSTED_CUTOFF in
      and_then (internal text_of (append_events events)) (\<lambda>_.
      let lst = (case events of [] \<Rightarrow> cur | _ \<Rightarrow>
                  Cursor (ledger_sequence (last events)) (operation_index (last events))
                    (event_index (last events))) in
      and_then (internal text_of (set_cursor cid lst)) (\<lambda>_.
      and_then (internal text_of (finalized_events cid finality_floor)) (\<lambda>finalized.
      and_then (apply_finalized text_of uuid finalized 0) (\<lambda>applied.
      ok (length events))))))))"

text \<open>
  One round of the polling loop over the configured contracts, with the source's answers to each
  pass; an error is logged and the loop goes on with the next contract.
\<close>

fun indexer_round ::
  "(sqlx_error \<Rightarrow> string) \<Rightarrow> (string \<Rightarrow> string option) \<Rightarrow>
    (string \<times> (string \<Rightarrow> cursor \<Rightarrow> chain_events_error + chain_event list)
      \<times> (chain_events_error + int)) list \<Rightarrow> pg \<Rightarrow> pg" where
  "indexer_round text_of uuid [] db = db"
| "indexer_round text_of uuid ((cid, pull, head) # rest) db =
    indexer_round text_of uuid rest (snd (ingest text_of uuid pull head cid db))"

section \<open>What the builders leave alone\<close>

text \<open>
  \<open>projection_blind P\<close>: \<open>P\<close> looks neither at the projection tables nor at the fault fields, so no
  builder can break it.
\<close>

definition projection_blind :: "(pg \<Rightarrow> bool) \<Rightarrow> bool" where
  "projection_blind P \<longleftrightarrow>
    fault_blind P
    \<and> (\<forall>db t. P (db\<lparr>farmers := t\<rparr>) = P db)
    \<and> (\<forall>db t. P (db\<lparr>verification_projection := t\<rparr>) = P db)
    \<and> (\<forall>db t. P (db\<lparr>escrow_projection := t\<rparr>) = P db)
    \<and> (\<forall>db t. P (db\<lparr>financing_projection := t\<rparr>) = P db)"

lemmas builder_defs =
  upsert_verification_def revoke_verification_def upsert_escrow_def add_escrow_deposit_def
  release_escrow_def refund_escrow_def update_escrow_def upsert_financing_def
  add_financing_deposit_def release_financing_def refund_financing_def update_financing_def
  upsert_identity_farmer_def update_identity_metadata_def append_identity_marker_def

lemma keeps_apply_event [keeps_intros]:
  assumes "projection_blind P"
  shows "keeps P (apply_event uuid event)"
  unfolding apply_event_def Let_def consume_def builder_defs
  by (intro keeps_intros)
    (use assms in \<open>auto simp: projection_blind_def split: sum.splits\<close>)

lemma keeps_internal [keeps_intros]: "keeps P m \<Longrightarrow> keeps P (internal text_of m)"
  by (simp add: internal_def keeps_map_err)

lemma keeps_apply_finalized [keeps_intros]:
  "projection_blind P \<Longrightarrow> keeps P (apply_finalized text_of uuid evs n)"
  by (induction evs arbitrary: n) (auto intro!: keeps_intros)

text \<open>An invariant that every event keeps, and the appended rows and cursors as well.\<close>

lemma keeps_ingest_events:
  assumes blind: "fault_blind P" and event: "\<And>e. keeps P (apply_event uuid e)"
    and store: "\<And>db e. P db \<Longrightarrow> P (db\<lparr>indexed_events := insert_event e (indexed_events db)\<rparr>)"
      "\<And>db t. P db \<Longrightarrow> P (db\<lparr>indexer_cursors := t\<rparr>)"
  shows "keeps P (ingest text_of uuid pull head cid)"
proof -
  have fin: "keeps P (apply_finalized text_of uuid evs n)" for evs n
    by (induction evs arbitrary: n) (auto intro!: keeps_and_then keeps_ok keeps_internal event)
  show ?thesis
    unfolding ingest_def Let_def get_cursor_def append_events_def insert_statement_def set_cursor_def
      finalized_events_def
    by (auto intro!: fin keeps_and_then keeps_internal keeps_lift_result keeps_if keeps_ok keeps_query
        keeps_for_each keeps_execute blind simp: store)
qed

lemma internal_apply:
  "internal text_of m db =
    (case m db of (Inl e, db') \<Rightarrow> (Inl (ChainInternal (text_of e)), db') | (Inr a, db') \<Rightarrow> (Inr a, db'))"
  by (simp add: internal_def map_err_apply)

lemma internal_Inr_iff [simp]: "internal text_of m db = (Inr a, db') \<longleftrightarrow> m db = (Inr a, db')"
  by (simp add: internal_def)

lemma internal_state [simp]: "snd (internal text_of m db) = snd (m db)"
  by (auto simp: internal_apply split: prod.splits sum.splits)

section \<open>A pass when nothing fails\<close>

text \<open>The part of a pass before the projections: the raw rows and the cursor.\<close>

definition pulled_state :: "string \<Rightarrow> chain_event list \<Rightarrow> pg \<Rightarrow> pg" where
  "pulled_state cid evs db =
    with_cursor cid (event_pos (last evs))
      (db\<lparr>indexed_events := insert_events evs (indexed_events db)\<rparr>)"

lemma last_event_cursor:
  "evs \<noteq> [] \<Longrightarrow>
    (case evs of [] \<Rightarrow> cur | _ \<Rightarrow> Cursor (ledger_sequence (last evs)) (operation_index (last evs))
      (event_index (last evs))) = event_pos (last evs)"
  by (auto simp: event_pos_def split: list.splits)

lemma ingest_healthy:
  assumes "budget db = None" and "pull cid (cursor_of db cid) = Inr evs" and "evs \<noteq> []"
  shows "ingest text_of uuid pull (Inr h) cid db =
    and_then (apply_finalized text_of uuid
        (finalized (pulled_state cid evs db) cid (h - TRUSTED_CUTOFF)) 0)
      (\<lambda>_. ok (length evs)) (pulled_state cid evs db)"
  using assms
  by (simp add: ingest_def and_then_apply [of "internal _ _"] and_then_apply [of "lift_result _"]
      internal_apply append_events_healthy Let_def last_event_cursor pulled_state_def)

lemma ingest_nothing_new:
  "budget db = None \<Longrightarrow> pull cid (cursor_of db cid) = Inr [] \<Longrightarrow>
    ingest text_of uuid pull head cid db = (Inr 0, db)"
  by (simp add: ingest_def action_simps internal_apply)

end
