(* ===== verification/Replay.thy ===== *)
theory Replay
  imports Indexer
begin

text \<open>
  Every pass of the indexer applies the whole finalized log again. This theory states as locales
  what a projection must satisfy for that to be harmless, and interprets them on the builders.

  \<^item> \<open>row_projection\<close>: a successful builder changes the one row its event names, by a pure
    function \<open>upd\<close> of that row; a run is then, row by row, a fold of the changes to it.
  \<^item> \<open>resetting_projection\<close>: a creating event determines the \<open>core\<close> of the row whatever was there
    before, and the other events change the core by a function of the core.
  \<^item> \<open>replayable_projection\<close>: what a creating event does not reset (\<open>kept\<close>) is only overwritten,
    never accumulated (\<open>overwrite\<close> satisfies the band law), so a replay changes nothing.
\<close>

definition changes_for ::
  "(chain_event \<Rightarrow> 'c option) \<Rightarrow> ('c \<Rightarrow> string) \<Rightarrow> string \<Rightarrow> chain_event list \<Rightarrow> 'c list" where
  "changes_for change target k evs = filter (\<lambda>c. target c = k) (List.map_filter change evs)"

text \<open>The abstract specification: the row a log describes, from nothing.\<close>

definition project ::
  "(chain_event \<Rightarrow> 'c option) \<Rightarrow> ('c \<Rightarrow> string) \<Rightarrow> ('c \<Rightarrow> 'r option \<Rightarrow> 'r option) \<Rightarrow>
    string \<Rightarrow> chain_event list \<Rightarrow> 'r option" where
  "project change target upd k evs = fold upd (changes_for change target k evs) None"

text \<open>The first change to a row creates it and no later one does.\<close>

fun created_once :: "('c \<Rightarrow> bool) \<Rightarrow> 'c list \<Rightarrow> bool" where
  "created_once creates [] = True"
| "created_once creates (c # cs) = (creates c \<and> (\<forall>d \<in> set cs. \<not> creates d))"

lemma created_once_prefix: "created_once creates (xs @ ys) \<Longrightarrow> created_once creates xs"
  by (cases xs) auto

lemma changes_for_append:
  "changes_for change target k (xs @ ys) =
    changes_for change target k xs @ changes_for change target k ys"
  by (simp add: changes_for_def List.map_filter_def)

lemma changes_for_Nil [simp]: "changes_for change target k [] = []"
  by (simp add: changes_for_def List.map_filter_def)

lemma changes_for_Cons:
  "changes_for change target k (e # evs) =
    (case change e of
       Some c \<Rightarrow> if target c = k then c # changes_for change target k evs
                 else changes_for change target k evs
     | None \<Rightarrow> changes_for change target k evs)"
  by (simp add: changes_for_def List.map_filter_def split: option.split)

lemma set_changes_for:
  "set (changes_for change target k evs) = {c. \<exists>e \<in> set evs. change e = Some c \<and> target c = k}"
  by (auto simp: changes_for_def List.map_filter_def; force)

text \<open>The four projection tables of two states are the same.\<close>

definition same_tables :: "pg \<Rightarrow> pg \<Rightarrow> bool" where
  "same_tables db db' \<longleftrightarrow>
    farmers db' = farmers db
    \<and> verification_projection db' = verification_projection db
    \<and> escrow_projection db' = escrow_projection db
    \<and> financing_projection db' = financing_projection db"

section \<open>Row by row\<close>

locale row_projection =
  fixes view :: "pg \<Rightarrow> string \<Rightarrow> 'r option"
    and change :: "chain_event \<Rightarrow> 'c option"
    and target :: "'c \<Rightarrow> string"
    and upd :: "'c \<Rightarrow> 'r option \<Rightarrow> 'r option"
    and uuid :: "string \<Rightarrow> string option"
    and contract :: string
  assumes change_contract: "change e = Some c \<Longrightarrow> contract_name e = contract"
    and row_law: "apply_event uuid e db = (Inr b, db') \<Longrightarrow>
    view db' k =
      (case change e of
         Some c \<Rightarrow> if target c = k then upd c (view db k) else view db k
       | None \<Rightarrow> view db k)"
    and view_tables: "same_tables db db' \<Longrightarrow> view db' k = view db k"
    and view_empty: "view empty_pg k = None"
begin

lemma run_law:
  "apply_finalized text_of uuid evs n db = (Inr m, db') \<Longrightarrow>
    view db' k = fold upd (changes_for change target k evs) (view db k)"
proof (induction evs arbitrary: n db)
  case (Cons e evs)
  from Cons.prems obtain b d where b: "apply_event uuid e db = (Inr b, d)"
    and rest: "apply_finalized text_of uuid evs (if b then n + 1 else n) d = (Inr m, db')"
    by (auto elim: and_then_InrE)
  show ?case
    using Cons.IH [OF rest] row_law [OF b, of k] by (simp add: changes_for_Cons split: option.split)
qed simp

end

section \<open>Creating events reset the core\<close>

locale resetting_projection = row_projection +
  fixes creates :: "'b \<Rightarrow> bool" and core :: "'a \<Rightarrow> 'v"
  assumes create_some: "creates c \<Longrightarrow> \<exists>r. upd c x = Some r"
    and create_core: "creates c \<Longrightarrow> upd c x = Some r \<Longrightarrow> upd c y = Some s \<Longrightarrow> core r = core s"
    and mutate_none: "\<not> creates c \<Longrightarrow> upd c None = None"
    and mutate_some: "\<not> creates c \<Longrightarrow> \<exists>s. upd c (Some r) = Some s"
    and mutate_core: "\<not> creates c \<Longrightarrow> upd c (Some r) = Some r' \<Longrightarrow> upd c (Some s) = Some s' \<Longrightarrow>
      core r = core s \<Longrightarrow> core r' = core s'"
begin

lemma fold_some: "\<exists>s. fold upd l (Some r) = Some s"
proof (induction l arbitrary: r)
  case (Cons c l)
  obtain s where "upd c (Some r) = Some s" using create_some mutate_some by blast
  with Cons show ?case by simp
qed simp

lemma fold_core:
  "core r = core s \<Longrightarrow>
    map_option core (fold upd l (Some r)) = map_option core (fold upd l (Some s))"
proof (induction l arbitrary: r s)
  case (Cons c l)
  obtain r' s' where u: "upd c (Some r) = Some r'" "upd c (Some s) = Some s'"
    by (meson create_some mutate_some)
  have "core r' = core s'"
  proof (cases "creates c")
    case True
    show ?thesis by (rule create_core [OF True u])
  next
    case False
    show ?thesis by (rule mutate_core [OF False u Cons.prems])
  qed
  then have "map_option core (fold upd l (Some r')) = map_option core (fold upd l (Some s'))"
    by (rule Cons.IH)
  with u show ?case by simp
qed simp

text \<open>From its creating event on, the core of a row does not depend on what was there.\<close>

lemma core_replay:
  assumes "creates c"
  shows "map_option core (fold upd (c # l) x) = map_option core (fold upd (c # l) y)"
proof -
  obtain r s where u: "upd c x = Some r" "upd c y = Some s" using create_some assms by blast
  have "core r = core s" by (rule create_core [OF assms u])
  then have "map_option core (fold upd l (Some r)) = map_option core (fold upd l (Some s))"
    by (rule fold_core)
  with u show ?thesis by simp
qed

text \<open>A second pass over a log that creates the row first yields the same core.\<close>

lemma core_second_pass:
  assumes "created_once creates l" and "set p \<subseteq> set l"
  shows "map_option core (fold upd l (fold upd p None)) = map_option core (fold upd l None)"
proof (cases l)
  case (Cons c l')
  with assms(1) show ?thesis by (simp only: created_once.simps core_replay [of c l' "fold upd p None" None])
qed (use assms(2) in simp)

end

section \<open>What is kept is only overwritten\<close>

locale replayable_projection = resetting_projection +
  fixes kept :: "'a \<Rightarrow> 'w" and overwrite :: "'b \<Rightarrow> 'w \<Rightarrow> 'w"
  assumes row_eqI: "core r = core s \<Longrightarrow> kept r = kept s \<Longrightarrow> r = s"
    and overwrite_kept: "upd c (Some r) = Some s \<Longrightarrow> kept s = overwrite c (kept r)"
    and create_kept: "creates c \<Longrightarrow> upd c None = Some r \<Longrightarrow> overwrite c (kept r) = kept r"
    and overwrite_idem: "overwrite c (overwrite c w) = overwrite c w"
    and overwrite_band: "overwrite c (overwrite d (overwrite c w)) = overwrite c (overwrite d w)"
begin

lemma fold_kept:
  "fold upd l (Some r) = Some s \<Longrightarrow> kept s = fold overwrite l (kept r)"
proof (induction l arbitrary: r)
  case (Cons c l)
  obtain t where t: "upd c (Some r) = Some t" using create_some mutate_some by blast
  with Cons overwrite_kept [OF t] show ?case by simp
qed simp

lemma overwrite_absorbs_through:
  "overwrite c (fold overwrite l (overwrite c w)) = overwrite c (fold overwrite l w)"
proof (induction l arbitrary: w)
  case Nil
  show ?case by (simp add: overwrite_idem)
next
  case (Cons d l)
  have "overwrite c (fold overwrite (d # l) (overwrite c w)) =
      overwrite c (fold overwrite l (overwrite d (overwrite c w)))"
    by simp
  also have "\<dots> = overwrite c (fold overwrite l (overwrite c (overwrite d (overwrite c w))))"
    by (simp only: Cons)
  also have "\<dots> = overwrite c (fold overwrite l (overwrite d w))"
    by (simp only: overwrite_band Cons)
  finally show ?case by simp
qed

lemma overwrite_absorbed: "c \<in> set l \<Longrightarrow> fold overwrite l (overwrite c w) = fold overwrite l w"
  by (auto simp: overwrite_absorbs_through dest!: split_list)

text \<open>One event of the log, applied before the log, leaves no trace.\<close>

lemma event_absorbed:
  assumes once: "created_once creates l" and e: "e \<in> set l"
  shows "fold upd l (upd e x) = fold upd l x"
proof (cases x)
  case None
  show ?thesis
  proof (cases "creates e")
    case False
    then show ?thesis by (simp add: None mutate_none)
  next
    case True
    from once e True obtain l' where l: "l = e # l'" by (cases l) auto
    obtain r s where r: "upd e None = Some r" and s: "upd e (Some r) = Some s"
      using create_some True by blast
    have "core s = core r" using create_core True r s by blast
    moreover have "kept s = kept r" using overwrite_kept [OF s] create_kept [OF True r] by simp
    ultimately have "s = r" by (rule row_eqI)
    then show ?thesis by (simp add: None l r s)
  qed
next
  case (Some r)
  obtain t where t: "upd e (Some r) = Some t" using create_some mutate_some by blast
  obtain a b where a: "fold upd l (Some t) = Some a" and b: "fold upd l (Some r) = Some b"
    using fold_some by blast
  obtain c l' where l: "l = c # l'" and c: "creates c"
    using once e by (cases l) auto
  have "core a = core b"
    using core_replay [OF c, of l' "Some t" "Some r"] a b unfolding l by simp
  moreover have "kept a = kept b"
    using fold_kept [OF a] fold_kept [OF b] overwrite_kept [OF t] overwrite_absorbed [OF e] by simp
  ultimately have "a = b" by (rule row_eqI)
  then show ?thesis by (simp add: Some t a b)
qed

lemma pass_absorbed:
  assumes "created_once creates l" and "set p \<subseteq> set l"
  shows "fold upd l (fold upd p x) = fold upd l x"
  using assms(2)
proof (induction p arbitrary: x)
  case (Cons e p)
  then show ?case using event_absorbed [OF assms(1), of e x] by simp
qed simp

end

end
