(* ===== verification/Projection_Laws.thy ===== *)
theory Projection_Laws
  imports Replay
begin

text \<open>
  The builders as providers of the replay contracts. First the effect of every successful builder
  on its table and on the others, and the inversion of \<open>apply_event\<close>; then, per projection, the
  change an event makes (\<open>..._change\<close>), the row function it is (\<open>..._upd\<close>) and the
  interpretation of the strongest contract that holds: verification, financing and identity are
  replayable, escrow only resets its core.
\<close>

section \<open>Effects of the builders\<close>

lemma execute_Inr_state:
  assumes "execute f db = (Inr u, db')"
  obtains b where "f (db\<lparr>budget := b\<rparr>) = Inr db'"
  using assms by (auto elim!: execute_InrE dest!: tick_Some)

lemma upsert_verification_effect:
  "upsert_verification uuid cid e db = (Inr (), db') \<Longrightarrow>
    verification_projection db' =
      tbl_upsert ver_id (new_verification_row uuid cid e)
        (verification_conflict (new_verification_row uuid cid e)) (verification_projection db)
    \<and> farmers db' = farmers db \<and> escrow_projection db' = escrow_projection db
    \<and> financing_projection db' = financing_projection db"
  by (auto simp: upsert_verification_def Let_def elim!: execute_Inr_state)

lemma revoke_verification_effect:
  "revoke_verification e db = (Inr (), db') \<Longrightarrow>
    verification_projection db' =
      tbl_update ver_id (counter_id VERIFICATION_PREFIX (vr_verification_id e)) (revoke_set e)
        (verification_projection db)
    \<and> farmers db' = farmers db \<and> escrow_projection db' = escrow_projection db
    \<and> financing_projection db' = financing_projection db"
  by (auto simp: revoke_verification_def Let_def elim!: execute_Inr_state)

lemma upsert_escrow_effect:
  "upsert_escrow uuid cid e db = (Inr (), db') \<Longrightarrow>
    escrow_projection db' =
      tbl_upsert esc_id (new_escrow_row uuid cid e)
        (escrow_conflict (new_escrow_row uuid cid e)) (escrow_projection db)
    \<and> farmers db' = farmers db \<and> verification_projection db' = verification_projection db
    \<and> financing_projection db' = financing_projection db"
  by (auto simp: upsert_escrow_def Let_def elim!: execute_Inr_state)

lemma update_escrow_effect:
  "update_escrow row_id f db = (Inr (), db') \<Longrightarrow>
    tbl_try_update esc_id row_id f (escrow_projection db) = Inr (escrow_projection db')
    \<and> farmers db' = farmers db \<and> verification_projection db' = verification_projection db
    \<and> financing_projection db' = financing_projection db"
  by (auto simp: update_escrow_def elim!: execute_Inr_state split: sum.splits)

lemma upsert_financing_effect:
  "upsert_financing cid e db = (Inr (), db') \<Longrightarrow>
    financing_projection db' =
      tbl_upsert fin_id (new_financing_row cid e)
        (financing_conflict (new_financing_row cid e)) (financing_projection db)
    \<and> farmers db' = farmers db \<and> verification_projection db' = verification_projection db
    \<and> escrow_projection db' = escrow_projection db"
  by (auto simp: upsert_financing_def Let_def elim!: execute_Inr_state)

lemma update_financing_effect:
  "update_financing row_id f db = (Inr (), db') \<Longrightarrow>
    tbl_try_update fin_id row_id f (financing_projection db) = Inr (financing_projection db')
    \<and> farmers db' = farmers db \<and> verification_projection db' = verification_projection db
    \<and> escrow_projection db' = escrow_projection db"
  by (auto simp: update_financing_def elim!: execute_Inr_state split: sum.splits)

lemma upsert_identity_effect:
  "upsert_identity_farmer e db = (Inr (), db') \<Longrightarrow>
    \<exists>address. identity_topics e = Some address
      \<and> farmers db' = tbl_upsert fa_address (identity_row (pg_now db) address e)
          (identity_conflict (identity_row (pg_now db) address e)) (farmers db)
      \<and> verification_projection db' = verification_projection db
      \<and> escrow_projection db' = escrow_projection db
      \<and> financing_projection db' = financing_projection db"
  by (auto simp: upsert_identity_farmer_def Let_def insert_farmer_row_def
      split: option.splits sum.splits if_splits elim!: execute_Inr_state)

lemma update_identity_effect:
  "update_identity_metadata e db = (Inr (), db') \<Longrightarrow>
    \<exists>address. identity_topics e = Some address
      \<and> farmers db' = tbl_update fa_address address (identity_metadata_set e) (farmers db)
      \<and> verification_projection db' = verification_projection db
      \<and> escrow_projection db' = escrow_projection db
      \<and> financing_projection db' = financing_projection db"
  by (auto simp: update_identity_metadata_def split: option.splits elim!: execute_Inr_state)

lemma append_identity_effect:
  "append_identity_marker e db = (Inr (), db') \<Longrightarrow>
    \<exists>address. identity_topics e = Some address
      \<and> farmers db' = tbl_update fa_address address (identity_marker_set e) (farmers db)
      \<and> verification_projection db' = verification_projection db
      \<and> escrow_projection db' = escrow_projection db
      \<and> financing_projection db' = financing_projection db"
  by (auto simp: append_identity_marker_def split: option.splits elim!: execute_Inr_state)

lemmas builder_effects =
  upsert_verification_effect revoke_verification_effect upsert_escrow_effect update_escrow_effect
  upsert_financing_effect update_financing_effect upsert_identity_effect update_identity_effect
  append_identity_effect

section \<open>The dispatch, contract by contract\<close>

abbreviation named :: "string \<Rightarrow> string \<Rightarrow> chain_event \<Rightarrow> bool" where
  "named c n e \<equiv> contract_name e = c \<and> event_name e = n"

lemma apply_event_verification:
  "contract_name e = ''verification'' \<Longrightarrow>
    apply_event uuid e =
      (if event_name e = ''VerificationCreated'' then
         consume (decode_verification_created e) ''bad VerificationCreated payload''
           (upsert_verification uuid (contract_id e))
       else if event_name e = ''VerificationRevoked'' then
         consume (decode_verification_revoked e) ''bad VerificationRevoked payload''
           revoke_verification
       else ok False)"
  by (simp add: apply_event_def)

lemma apply_event_escrow:
  "contract_name e = ''escrow'' \<Longrightarrow>
    apply_event uuid e =
      (if event_name e = ''EscrowCreated'' then
         consume (decode_escrow_created e) ''bad EscrowCreated payload''
           (upsert_escrow uuid (contract_id e))
       else if event_name e = ''EscrowDeposited'' then
         consume (decode_escrow_deposited e) ''bad EscrowDeposited payload'' add_escrow_deposit
       else if event_name e = ''EscrowReleased'' then
         consume (decode_escrow_released e) ''bad EscrowReleased payload'' release_escrow
       else if event_name e = ''EscrowRefunded'' then
         consume (decode_escrow_refunded e) ''bad EscrowRefunded payload'' refund_escrow
       else ok False)"
  by (simp add: apply_event_def)

lemma apply_event_identity:
  "contract_name e = ''identity'' \<Longrightarrow>
    apply_event uuid e =
      (if event_name e = ''FarmerRegistered'' then
         and_then (upsert_identity_farmer e) (\<lambda>_. ok True)
       else if event_name e = ''FarmerMetadataUpdated'' then
         and_then (update_identity_metadata e) (\<lambda>_. ok True)
       else if event_name e = ''VerificationMarkerSet'' then
         and_then (append_identity_marker e) (\<lambda>_. ok True)
       else ok False)"
  by (simp add: apply_event_def)

lemma apply_event_financing:
  "contract_name e = ''financing'' \<Longrightarrow>
    apply_event uuid e =
      (if event_name e = ''FinancingCreated'' then
         consume (decode_financing_created e) ''bad FinancingCreated payload''
           (upsert_financing (contract_id e))
       else if event_name e = ''FinancingDeposited'' then
         consume (decode_financing_deposited e) ''bad FinancingDeposited payload''
           add_financing_deposit
       else if event_name e = ''FinancingReleased'' then
         consume (decode_financing_released e) ''bad FinancingReleased payload''
           release_financing
       else if event_name e = ''FinancingRefunded'' then
         consume (decode_financing_refunded e) ''bad FinancingRefunded payload''
           refund_financing
       else ok False)"
  by (simp add: apply_event_def)

lemma apply_event_other:
  "contract_name e \<notin> {''verification'', ''escrow'', ''identity'', ''financing''} \<Longrightarrow>
    apply_event uuid e = ok False"
  by (simp add: apply_event_def)

lemma consume_Inr:
  "consume decoded msg builder db = (Inr b, db') \<longleftrightarrow>
    b \<and> (\<exists>d. decoded = Some d \<and> builder d db = (Inr (), db'))"
  by (auto simp: consume_def and_then_apply split: option.splits prod.splits sum.splits)

lemma and_then_True_Inr:
  "and_then m (\<lambda>_. ok True) db = (Inr b, db') \<longleftrightarrow> b \<and> m db = (Inr (), db')"
  by (auto simp: and_then_apply split: prod.splits sum.splits)

text \<open>Each table is written by the builders of one contract only.\<close>

lemma apply_event_frame:
  "contract_name e \<noteq> ''verification'' \<Longrightarrow>
    keeps (\<lambda>db. verification_projection db = vt) (apply_event uuid e)"
  "contract_name e \<noteq> ''escrow'' \<Longrightarrow>
    keeps (\<lambda>db. escrow_projection db = et) (apply_event uuid e)"
  "contract_name e \<noteq> ''financing'' \<Longrightarrow>
    keeps (\<lambda>db. financing_projection db = ft) (apply_event uuid e)"
  "contract_name e \<noteq> ''identity'' \<Longrightarrow>
    keeps (\<lambda>db. farmers db = it) (apply_event uuid e)"
  unfolding apply_event_def Let_def consume_def builder_defs
  by (intro keeps_intros; auto simp: fault_blind_def split: sum.splits)+

lemma apply_event_frame_Inr:
  assumes "apply_event uuid e db = (Inr b, db')"
  shows "contract_name e \<noteq> ''verification'' \<Longrightarrow>
      verification_projection db' = verification_projection db"
    and "contract_name e \<noteq> ''escrow'' \<Longrightarrow> escrow_projection db' = escrow_projection db"
    and "contract_name e \<noteq> ''financing'' \<Longrightarrow> financing_projection db' = financing_projection db"
    and "contract_name e \<noteq> ''identity'' \<Longrightarrow> farmers db' = farmers db"
  using keeps_result [OF apply_event_frame(1) refl assms] keeps_result [OF apply_event_frame(2) refl assms]
    keeps_result [OF apply_event_frame(3) refl assms] keeps_result [OF apply_event_frame(4) refl assms]
  by blast+

section \<open>Verification\<close>

datatype verification_change =
    VCreated string VerificationCreated
  | VRevoked VerificationRevoked

definition verification_change :: "chain_event \<Rightarrow> verification_change option" where
  "verification_change e =
    (if named ''verification'' ''VerificationCreated'' e
     then map_option (VCreated (contract_id e)) (decode_verification_created e)
     else if named ''verification'' ''VerificationRevoked'' e
     then map_option VRevoked (decode_verification_revoked e)
     else None)"

fun verification_target :: "verification_change \<Rightarrow> string" where
  "verification_target (VCreated cid v) = counter_id VERIFICATION_PREFIX (vc_verification_id v)"
| "verification_target (VRevoked v) = counter_id VERIFICATION_PREFIX (vr_verification_id v)"

fun verification_upd ::
  "(string \<Rightarrow> string option) \<Rightarrow> verification_change \<Rightarrow> verification_row option \<Rightarrow>
    verification_row option" where
  "verification_upd uuid (VCreated cid v) None = Some (new_verification_row uuid cid v)"
| "verification_upd uuid (VCreated cid v) (Some r) =
     Some (verification_conflict (new_verification_row uuid cid v) r)"
| "verification_upd uuid (VRevoked v) x = map_option (revoke_set v) x"

fun verification_creates :: "verification_change \<Rightarrow> bool" where
  "verification_creates (VCreated cid v) = True"
| "verification_creates (VRevoked v) = False"

definition verification_overwrite ::
  "(string \<Rightarrow> string option) \<Rightarrow> verification_change \<Rightarrow> verification_row \<Rightarrow> verification_row" where
  "verification_overwrite uuid c r =
    (case c of
       VCreated cid v \<Rightarrow> verification_conflict (new_verification_row uuid cid v) r
     | VRevoked v \<Rightarrow> revoke_set v r)"

definition verification_view :: "pg \<Rightarrow> string \<Rightarrow> verification_row option" where
  "verification_view db k = tbl_find ver_id (verification_projection db) k"

lemma verification_row_simps [simp]:
  "ver_id (new_verification_row uuid cid v) = counter_id VERIFICATION_PREFIX (vc_verification_id v)"
  "ver_id (verification_conflict x r) = ver_id r"
  "ver_id (revoke_set w r) = ver_id r"
  by (simp_all add: new_verification_row_def verification_conflict_def revoke_set_def)

lemma verification_row_law:
  assumes "apply_event uuid e db = (Inr b, db')"
  shows "verification_view db' k =
      (case verification_change e of
         Some c \<Rightarrow> if verification_target c = k then verification_upd uuid c (verification_view db k)
                   else verification_view db k
       | None \<Rightarrow> verification_view db k)"
proof (cases "contract_name e = ''verification''")
  case True
  note dispatch = apply_event_verification [OF True]
  show ?thesis
    using assms unfolding dispatch
    by (auto simp: True verification_view_def verification_change_def consume_Inr tbl_find_upsert
        tbl_find_update dest!: upsert_verification_effect revoke_verification_effect
        split: if_splits option.splits)
next
  case False
  with apply_event_frame_Inr(1) [OF assms] show ?thesis
    by (simp add: verification_view_def verification_change_def)
qed

interpretation verification: replayable_projection
    verification_view verification_change verification_target "verification_upd uuid" uuid "''verification''"
    verification_creates "\<lambda>_. ()" "\<lambda>r. r" "verification_overwrite uuid"
  for uuid
proof unfold_locales
  fix e c
  show "verification_change e = Some c \<Longrightarrow> contract_name e = ''verification''"
    by (auto simp: verification_change_def split: if_splits)
next
  fix k
  show "verification_view empty_pg k = None"
    by (simp add: verification_view_def empty_pg_def tbl_find_Nil)
next
  fix c d w
  show "verification_overwrite uuid c (verification_overwrite uuid c w) =
      verification_overwrite uuid c w"
    by (cases c) (simp_all add: verification_overwrite_def verification_conflict_def revoke_set_def)
  show "verification_overwrite uuid c (verification_overwrite uuid d
        (verification_overwrite uuid c w)) =
      verification_overwrite uuid c (verification_overwrite uuid d w)"
    by (cases c; cases d)
      (simp_all add: verification_overwrite_def verification_conflict_def revoke_set_def)
next
  fix e db b db' k
  assume "apply_event uuid e db = (Inr b, db')"
  then show "verification_view db' k =
      (case verification_change e of
         Some c \<Rightarrow> if verification_target c = k then verification_upd uuid c (verification_view db k)
                   else verification_view db k
       | None \<Rightarrow> verification_view db k)"
    by (rule verification_row_law)
next
  fix db db' k
  show "same_tables db db' \<Longrightarrow> verification_view db' k = verification_view db k"
    by (simp add: same_tables_def verification_view_def)
next
  fix c x
  show "verification_creates c \<Longrightarrow> \<exists>r. verification_upd uuid c x = Some r"
    by (cases c; cases x) auto
next
  fix c r s
  show "verification_upd uuid c (Some r) = Some s \<Longrightarrow> s = verification_overwrite uuid c r"
    by (cases c) (auto simp: verification_overwrite_def)
next
  fix c r
  show "verification_creates c \<Longrightarrow> verification_upd uuid c None = Some r \<Longrightarrow>
      verification_overwrite uuid c r = r"
    by (cases c) (auto simp: verification_overwrite_def verification_conflict_def
        new_verification_row_def)
next
  fix c
  show "\<not> verification_creates c \<Longrightarrow> verification_upd uuid c None = None"
    by (cases c) auto
next
  fix c r
  show "\<not> verification_creates c \<Longrightarrow> \<exists>s. verification_upd uuid c (Some r) = Some s"
    by (cases c) auto
qed auto

section \<open>Financing\<close>

datatype financing_change =
    FCreated string FinancingCreated
  | FDeposited FinancingDeposited
  | FReleased FinancingReleased
  | FRefunded FinancingRefunded

definition financing_change :: "chain_event \<Rightarrow> financing_change option" where
  "financing_change e =
    (if named ''financing'' ''FinancingCreated'' e
     then map_option (FCreated (contract_id e)) (decode_financing_created e)
     else if named ''financing'' ''FinancingDeposited'' e
     then map_option FDeposited (decode_financing_deposited e)
     else if named ''financing'' ''FinancingReleased'' e
     then map_option FReleased (decode_financing_released e)
     else if named ''financing'' ''FinancingRefunded'' e
     then map_option FRefunded (decode_financing_refunded e)
     else None)"

fun financing_target :: "financing_change \<Rightarrow> string" where
  "financing_target (FCreated cid e) = counter_id FINANCING_PREFIX (fc_financing_id e)"
| "financing_target (FDeposited e) = counter_id FINANCING_PREFIX (fd_financing_id e)"
| "financing_target (FReleased e) = counter_id FINANCING_PREFIX (fr_financing_id e)"
| "financing_target (FRefunded e) = counter_id FINANCING_PREFIX (ff_financing_id e)"

text \<open>The row functions over unbounded integers: what the statements do when they do not fail.\<close>

fun financing_mutate :: "financing_change \<Rightarrow> financing_row \<Rightarrow> financing_row" where
  "financing_mutate (FCreated cid e) r = financing_conflict (new_financing_row cid e) r"
| "financing_mutate (FDeposited e) r =
     r\<lparr> fin_drawn_amount := fin_drawn_amount r + fd_amount e,
        fin_updated_ledger := Some (fd_updated_ledger e) \<rparr>"
| "financing_mutate (FReleased e) r =
     r\<lparr> fin_drawn_amount := fin_drawn_amount r + fr_released_amount e,
        fin_drawn_ledger := Some (fr_updated_ledger e),
        fin_updated_ledger := Some (fr_updated_ledger e) \<rparr>"
| "financing_mutate (FRefunded e) r =
     r\<lparr> fin_status := (if ff_defaulted e then ''defaulted'' else ''refunded''),
        fin_defaulted := ff_defaulted e,
        fin_defaulted_ledger := coalesce (ff_defaulted_ledger e) (fin_defaulted_ledger r),
        fin_drawn_amount := max (fin_drawn_amount r - ff_refunded_amount e) 0 \<rparr>"

fun financing_upd :: "financing_change \<Rightarrow> financing_row option \<Rightarrow> financing_row option" where
  "financing_upd c (Some r) = Some (financing_mutate c r)"
| "financing_upd (FCreated cid e) None = Some (new_financing_row cid e)"
| "financing_upd _ None = None"

fun financing_creates :: "financing_change \<Rightarrow> bool" where
  "financing_creates (FCreated cid e) = True"
| "financing_creates _ = False"

definition financing_core :: "financing_row \<Rightarrow> financing_row" where
  "financing_core r = r\<lparr> fin_id := [], fin_status := [] \<rparr>"

definition financing_kept :: "financing_row \<Rightarrow> string \<times> string" where
  "financing_kept r = (fin_id r, fin_status r)"

fun financing_overwrite :: "financing_change \<Rightarrow> string \<times> string \<Rightarrow> string \<times> string" where
  "financing_overwrite (FRefunded e) (i, s) =
     (i, if ff_defaulted e then ''defaulted'' else ''refunded'')"
| "financing_overwrite _ w = w"

definition financing_view :: "pg \<Rightarrow> string \<Rightarrow> financing_row option" where
  "financing_view db k = tbl_find fin_id (financing_projection db) k"

lemma financing_keys [simp]:
  "fin_id (new_financing_row cid e) = counter_id FINANCING_PREFIX (fc_financing_id e)"
  "fin_id (financing_conflict x r) = fin_id r"
  "fin_id (financing_mutate c r) = fin_id r"
  by (simp add: new_financing_row_def, simp add: financing_conflict_def,
      cases c, auto simp: financing_conflict_def)

lemma financing_set_pure:
  "financing_deposit_set d r = Inr r' \<Longrightarrow> r' = financing_mutate (FDeposited d) r"
  "financing_release_set e r = Inr r' \<Longrightarrow> r' = financing_mutate (FReleased e) r"
  "financing_refund_set f r = Inr r' \<Longrightarrow> r' = financing_mutate (FRefunded f) r"
  by (auto simp: financing_deposit_set_def financing_release_set_def financing_refund_set_def
      bigint_def coalesce_def split: sum.splits if_splits)

lemma financing_update_view:
  assumes "update_financing k f db = (Inr (), db')"
    and "\<And>r r'. f r = Inr r' \<Longrightarrow> r' = financing_mutate c r"
  shows "financing_view db' j =
    (if k = j then map_option (financing_mutate c) (financing_view db j) else financing_view db j)"
proof -
  have "tbl_try_update fin_id k f (financing_projection db) = Inr (financing_projection db')"
    using update_financing_effect [OF assms(1)] by simp
  then have "tbl_find fin_id (financing_projection db') j =
      (if j = k then map_option (financing_mutate c) (tbl_find fin_id (financing_projection db) k)
       else tbl_find fin_id (financing_projection db) j)"
    by (rule tbl_find_try_update) (simp_all add: assms(2))
  then show ?thesis by (auto simp: financing_view_def)
qed

lemma financing_view_laws:
  "upsert_financing cid a db = (Inr (), db') \<Longrightarrow>
    financing_view db' j =
      (if counter_id FINANCING_PREFIX (fc_financing_id a) = j
       then financing_upd (FCreated cid a) (financing_view db j) else financing_view db j)"
  "add_financing_deposit d db = (Inr (), db') \<Longrightarrow>
    financing_view db' j =
      (if counter_id FINANCING_PREFIX (fd_financing_id d) = j
       then map_option (financing_mutate (FDeposited d)) (financing_view db j)
       else financing_view db j)"
  "release_financing e db = (Inr (), db') \<Longrightarrow>
    financing_view db' j =
      (if counter_id FINANCING_PREFIX (fr_financing_id e) = j
       then map_option (financing_mutate (FReleased e)) (financing_view db j)
       else financing_view db j)"
  "refund_financing f db = (Inr (), db') \<Longrightarrow>
    financing_view db' j =
      (if counter_id FINANCING_PREFIX (ff_financing_id f) = j
       then map_option (financing_mutate (FRefunded f)) (financing_view db j)
       else financing_view db j)"
proof -
  assume "upsert_financing cid a db = (Inr (), db')"
  then show "financing_view db' j =
      (if counter_id FINANCING_PREFIX (fc_financing_id a) = j
       then financing_upd (FCreated cid a) (financing_view db j) else financing_view db j)"
    by (auto simp: financing_view_def tbl_find_upsert dest!: upsert_financing_effect
        split: option.splits)
qed (unfold add_financing_deposit_def release_financing_def refund_financing_def Let_def,
  (erule financing_update_view, erule financing_set_pure)+)

lemma financing_upd_mutation:
  "\<not> financing_creates c \<Longrightarrow> financing_upd c x = map_option (financing_mutate c) x"
  by (cases c; cases x) auto

lemma financing_row_law:
  assumes "apply_event uuid e db = (Inr b, db')"
  shows "financing_view db' k =
      (case financing_change e of
         Some c \<Rightarrow> if financing_target c = k then financing_upd c (financing_view db k)
                   else financing_view db k
       | None \<Rightarrow> financing_view db k)"
proof (cases "contract_name e = ''financing''")
  case True
  note dispatch = apply_event_financing [OF True]
  show ?thesis
    using assms unfolding dispatch
    by (auto simp: True financing_change_def consume_Inr financing_view_laws
        financing_upd_mutation split: if_splits)
next
  case False
  with apply_event_frame_Inr(3) [OF assms] show ?thesis
    by (simp add: financing_view_def financing_change_def)
qed

lemma financing_mutate_core:
  "financing_core r = financing_core s \<Longrightarrow>
    financing_core (financing_mutate c r) = financing_core (financing_mutate c s)"
  by (cases c; cases r; cases s) (auto simp: financing_core_def financing_conflict_def)

interpretation financing: replayable_projection
    financing_view financing_change financing_target financing_upd uuid "''financing''"
    financing_creates financing_core financing_kept financing_overwrite
  for uuid
proof unfold_locales
  fix e c
  show "financing_change e = Some c \<Longrightarrow> contract_name e = ''financing''"
    by (auto simp: financing_change_def split: if_splits)
next
  fix k
  show "financing_view empty_pg k = None"
    by (simp add: financing_view_def empty_pg_def tbl_find_Nil)
next
  fix e db b db' k
  assume "apply_event uuid e db = (Inr b, db')"
  then show "financing_view db' k =
      (case financing_change e of
         Some c \<Rightarrow> if financing_target c = k then financing_upd c (financing_view db k)
                   else financing_view db k
       | None \<Rightarrow> financing_view db k)"
    by (rule financing_row_law)
next
  fix db db' k
  show "same_tables db db' \<Longrightarrow> financing_view db' k = financing_view db k"
    by (simp add: same_tables_def financing_view_def)
next
  fix c x
  show "financing_creates c \<Longrightarrow> \<exists>r. financing_upd c x = Some r"
    by (cases c; cases x) auto
next
  fix c x y r s
  show "financing_creates c \<Longrightarrow> financing_upd c x = Some r \<Longrightarrow> financing_upd c y = Some s \<Longrightarrow>
      financing_core r = financing_core s"
    by (cases c; cases x; cases y)
      (auto simp: financing_core_def financing_conflict_def new_financing_row_def)
next
  fix c r r' s s'
  show "financing_upd c (Some r) = Some r' \<Longrightarrow> financing_upd c (Some s) = Some s' \<Longrightarrow>
      financing_core r = financing_core s \<Longrightarrow> financing_core r' = financing_core s'"
    by (auto intro: financing_mutate_core)
next
  fix c r s
  show "financing_upd c (Some r) = Some s \<Longrightarrow>
      financing_kept s = financing_overwrite c (financing_kept r)"
    by (cases c) (auto simp: financing_kept_def financing_conflict_def)
next
  fix c d w
  show "financing_overwrite c (financing_overwrite c w) = financing_overwrite c w"
    by (cases c; cases w) auto
  show "financing_overwrite c (financing_overwrite d (financing_overwrite c w)) =
      financing_overwrite c (financing_overwrite d w)"
    by (cases c; cases d; cases w) auto
next
  fix c r
  show "financing_creates c \<Longrightarrow> financing_upd c None = Some r \<Longrightarrow>
      financing_overwrite c (financing_kept r) = financing_kept r"
    by (cases c) auto
next
  fix r s
  show "financing_core r = financing_core s \<Longrightarrow> financing_kept r = financing_kept s \<Longrightarrow> r = s"
    by (cases r; cases s) (auto simp: financing_core_def financing_kept_def)
next
  fix c
  show "\<not> financing_creates c \<Longrightarrow> financing_upd c None = None"
    by (cases c) auto
qed auto

end
