(* ===== verification/Projection_Laws2.thy ===== *)
theory Projection_Laws2
  imports Projection_Laws
begin

text \<open>
  The replay contracts of the escrow and identity projections. Identity is replayable: a
  registration resets the markers, and the ledger columns are only overwritten. Escrow satisfies
  the weaker contract only: \<open>released_amount\<close> and \<open>status\<close> are neither reset by \<open>EscrowCreated\<close>
  nor merely overwritten by \<open>EscrowReleased\<close>.
\<close>

section \<open>Escrow\<close>

datatype escrow_change =
    ECreated string EscrowCreated
  | EDeposited EscrowDeposited
  | EReleased EscrowReleased
  | ERefunded EscrowRefunded

definition escrow_change :: "chain_event \<Rightarrow> escrow_change option" where
  "escrow_change e =
    (if named ''escrow'' ''EscrowCreated'' e
     then map_option (ECreated (contract_id e)) (decode_escrow_created e)
     else if named ''escrow'' ''EscrowDeposited'' e
     then map_option EDeposited (decode_escrow_deposited e)
     else if named ''escrow'' ''EscrowReleased'' e
     then map_option EReleased (decode_escrow_released e)
     else if named ''escrow'' ''EscrowRefunded'' e
     then map_option ERefunded (decode_escrow_refunded e)
     else None)"

fun escrow_target :: "escrow_change \<Rightarrow> string" where
  "escrow_target (ECreated cid e) = counter_id ESCROW_PREFIX (ec_escrow_id e)"
| "escrow_target (EDeposited e) = counter_id ESCROW_PREFIX (ed_escrow_id e)"
| "escrow_target (EReleased e) = counter_id ESCROW_PREFIX (er_escrow_id e)"
| "escrow_target (ERefunded e) = counter_id ESCROW_PREFIX (ef_escrow_id e)"

fun escrow_mutate ::
  "(string \<Rightarrow> string option) \<Rightarrow> escrow_change \<Rightarrow> escrow_row \<Rightarrow> escrow_row" where
  "escrow_mutate uuid (ECreated cid e) r = escrow_conflict (new_escrow_row uuid cid e) r"
| "escrow_mutate uuid (EDeposited e) r =
     r\<lparr> esc_amount := esc_amount r + ed_amount e, esc_updated_ledger := ed_updated_ledger e \<rparr>"
| "escrow_mutate uuid (EReleased e) r =
     r\<lparr> esc_released_amount := esc_released_amount r + er_released_amount e,
        esc_updated_ledger := er_updated_ledger e,
        esc_status := (if esc_released_amount r + er_released_amount e \<ge> esc_amount r
                       then ''released'' else ''open'') \<rparr>"
| "escrow_mutate uuid (ERefunded e) r =
     r\<lparr> esc_status := ''refunded'', esc_released_amount := esc_amount r,
        esc_updated_ledger := ef_updated_ledger e \<rparr>"

fun escrow_upd ::
  "(string \<Rightarrow> string option) \<Rightarrow> escrow_change \<Rightarrow> escrow_row option \<Rightarrow> escrow_row option" where
  "escrow_upd uuid c (Some r) = Some (escrow_mutate uuid c r)"
| "escrow_upd uuid (ECreated cid e) None = Some (new_escrow_row uuid cid e)"
| "escrow_upd uuid _ None = None"

fun escrow_creates :: "escrow_change \<Rightarrow> bool" where
  "escrow_creates (ECreated cid e) = True"
| "escrow_creates _ = False"

text \<open>The core of an escrow: every column but the ones replays corrupt (and the key).\<close>

definition escrow_core :: "escrow_row \<Rightarrow> escrow_row" where
  "escrow_core r = r\<lparr> esc_id := [], esc_released_amount := 0, esc_status := [] \<rparr>"

definition escrow_view :: "pg \<Rightarrow> string \<Rightarrow> escrow_row option" where
  "escrow_view db k = tbl_find esc_id (escrow_projection db) k"

lemma escrow_keys [simp]:
  "esc_id (new_escrow_row uuid cid e) = counter_id ESCROW_PREFIX (ec_escrow_id e)"
  "esc_id (escrow_conflict x r) = esc_id r"
  "esc_id (escrow_mutate uuid c r) = esc_id r"
  by (simp add: new_escrow_row_def, simp add: escrow_conflict_def,
      cases c, auto simp: escrow_conflict_def)

lemma escrow_set_pure:
  "escrow_deposit_set d r = Inr r' \<Longrightarrow> r' = escrow_mutate uuid (EDeposited d) r"
  "escrow_release_set e r = Inr r' \<Longrightarrow> r' = escrow_mutate uuid (EReleased e) r"
  "escrow_refund_set f r = Inr r' \<Longrightarrow> r' = escrow_mutate uuid (ERefunded f) r"
  by (auto simp: escrow_deposit_set_def escrow_release_set_def escrow_refund_set_def
      bigint_def split: sum.splits if_splits)

lemma escrow_update_view:
  assumes "update_escrow k f db = (Inr (), db')"
    and "\<And>r r'. f r = Inr r' \<Longrightarrow> r' = escrow_mutate uuid c r"
  shows "escrow_view db' j =
    (if k = j then map_option (escrow_mutate uuid c) (escrow_view db j) else escrow_view db j)"
proof -
  have "tbl_try_update esc_id k f (escrow_projection db) = Inr (escrow_projection db')"
    using update_escrow_effect [OF assms(1)] by simp
  then have "tbl_find esc_id (escrow_projection db') j =
      (if j = k then map_option (escrow_mutate uuid c) (tbl_find esc_id (escrow_projection db) k)
       else tbl_find esc_id (escrow_projection db) j)"
    by (rule tbl_find_try_update) (simp_all add: assms(2))
  then show ?thesis by (auto simp: escrow_view_def)
qed

lemma escrow_view_laws:
  "upsert_escrow uuid cid a db = (Inr (), db') \<Longrightarrow>
    escrow_view db' j =
      (if counter_id ESCROW_PREFIX (ec_escrow_id a) = j
       then escrow_upd uuid (ECreated cid a) (escrow_view db j) else escrow_view db j)"
  "add_escrow_deposit d db = (Inr (), db') \<Longrightarrow>
    escrow_view db' j =
      (if counter_id ESCROW_PREFIX (ed_escrow_id d) = j
       then map_option (escrow_mutate uuid (EDeposited d)) (escrow_view db j)
       else escrow_view db j)"
  "release_escrow e db = (Inr (), db') \<Longrightarrow>
    escrow_view db' j =
      (if counter_id ESCROW_PREFIX (er_escrow_id e) = j
       then map_option (escrow_mutate uuid (EReleased e)) (escrow_view db j)
       else escrow_view db j)"
  "refund_escrow f db = (Inr (), db') \<Longrightarrow>
    escrow_view db' j =
      (if counter_id ESCROW_PREFIX (ef_escrow_id f) = j
       then map_option (escrow_mutate uuid (ERefunded f)) (escrow_view db j)
       else escrow_view db j)"
proof -
  assume "upsert_escrow uuid cid a db = (Inr (), db')"
  then show "escrow_view db' j =
      (if counter_id ESCROW_PREFIX (ec_escrow_id a) = j
       then escrow_upd uuid (ECreated cid a) (escrow_view db j) else escrow_view db j)"
    by (auto simp: escrow_view_def tbl_find_upsert dest!: upsert_escrow_effect
        split: option.splits)
qed (unfold add_escrow_deposit_def release_escrow_def refund_escrow_def Let_def,
  (erule escrow_update_view, erule escrow_set_pure)+)

lemma escrow_upd_mutation:
  "\<not> escrow_creates c \<Longrightarrow> escrow_upd uuid c x = map_option (escrow_mutate uuid c) x"
  by (cases c; cases x) auto

lemma escrow_row_law:
  assumes "apply_event uuid e db = (Inr b, db')"
  shows "escrow_view db' k =
      (case escrow_change e of
         Some c \<Rightarrow> if escrow_target c = k then escrow_upd uuid c (escrow_view db k)
                   else escrow_view db k
       | None \<Rightarrow> escrow_view db k)"
proof (cases "contract_name e = ''escrow''")
  case True
  note dispatch = apply_event_escrow [OF True]
  show ?thesis
    using assms unfolding dispatch
    by (auto simp: True escrow_change_def consume_Inr escrow_view_laws(1)
        escrow_view_laws(2-4) [where uuid = uuid] escrow_upd_mutation split: if_splits)
next
  case False
  with apply_event_frame_Inr(2) [OF assms] show ?thesis
    by (simp add: escrow_view_def escrow_change_def)
qed

interpretation escrow: resetting_projection
    escrow_view escrow_change escrow_target "escrow_upd uuid" uuid "''escrow''"
    escrow_creates escrow_core
  for uuid
proof unfold_locales
  fix e c
  show "escrow_change e = Some c \<Longrightarrow> contract_name e = ''escrow''"
    by (auto simp: escrow_change_def split: if_splits)
next
  fix k
  show "escrow_view empty_pg k = None"
    by (simp add: escrow_view_def empty_pg_def tbl_find_Nil)
next
  fix e db b db' k
  assume "apply_event uuid e db = (Inr b, db')"
  then show "escrow_view db' k =
      (case escrow_change e of
         Some c \<Rightarrow> if escrow_target c = k then escrow_upd uuid c (escrow_view db k)
                   else escrow_view db k
       | None \<Rightarrow> escrow_view db k)"
    by (rule escrow_row_law)
next
  fix db db' k
  show "same_tables db db' \<Longrightarrow> escrow_view db' k = escrow_view db k"
    by (simp add: same_tables_def escrow_view_def)
next
  fix c x
  show "escrow_creates c \<Longrightarrow> \<exists>r. escrow_upd uuid c x = Some r"
    by (cases c; cases x) auto
next
  fix c x y r s
  show "escrow_creates c \<Longrightarrow> escrow_upd uuid c x = Some r \<Longrightarrow> escrow_upd uuid c y = Some s \<Longrightarrow>
      escrow_core r = escrow_core s"
    by (cases c; cases x; cases y) (auto simp: escrow_core_def escrow_conflict_def new_escrow_row_def)
next
  fix c r r' s s'
  show "escrow_upd uuid c (Some r) = Some r' \<Longrightarrow> escrow_upd uuid c (Some s) = Some s' \<Longrightarrow>
      escrow_core r = escrow_core s \<Longrightarrow> escrow_core r' = escrow_core s'"
    by (cases c; cases r; cases s) (auto simp: escrow_core_def escrow_conflict_def)
next
  fix c
  show "\<not> escrow_creates c \<Longrightarrow> escrow_upd uuid c None = None"
    by (cases c) auto
qed auto

section \<open>Identity\<close>

datatype identity_change =
    IRegistered string chain_event
  | IMetadata string chain_event
  | IMarker string chain_event

definition identity_change :: "chain_event \<Rightarrow> identity_change option" where
  "identity_change e =
    (if named ''identity'' ''FarmerRegistered'' e
     then map_option (\<lambda>a. IRegistered a e) (identity_topics e)
     else if named ''identity'' ''FarmerMetadataUpdated'' e
     then map_option (\<lambda>a. IMetadata a e) (identity_topics e)
     else if named ''identity'' ''VerificationMarkerSet'' e
     then map_option (\<lambda>a. IMarker a e) (identity_topics e)
     else None)"

fun identity_target :: "identity_change \<Rightarrow> string" where
  "identity_target (IRegistered a e) = a"
| "identity_target (IMetadata a e) = a"
| "identity_target (IMarker a e) = a"

fun identity_mutate :: "identity_change \<Rightarrow> farmer_row \<Rightarrow> farmer_row" where
  "identity_mutate (IRegistered a e) r = identity_conflict (identity_row 0 a e) r"
| "identity_mutate (IMetadata a e) r = identity_metadata_set e r"
| "identity_mutate (IMarker a e) r = identity_marker_set e r"

fun identity_upd :: "identity_change \<Rightarrow> farmer_row option \<Rightarrow> farmer_row option" where
  "identity_upd c (Some r) = Some (identity_mutate c r)"
| "identity_upd (IRegistered a e) None = Some (identity_row 0 a e)"
| "identity_upd _ None = None"

fun identity_creates :: "identity_change \<Rightarrow> bool" where
  "identity_creates (IRegistered a e) = True"
| "identity_creates _ = False"

text \<open>The insertion time is the database's business: the view leaves it out.\<close>

definition undated :: "farmer_row \<Rightarrow> farmer_row" where
  "undated r = r\<lparr> fa_created_at := 0 \<rparr>"

definition identity_view :: "pg \<Rightarrow> string \<Rightarrow> farmer_row option" where
  "identity_view db k = map_option undated (tbl_find fa_address (farmers db) k)"

definition identity_kept :: "farmer_row \<Rightarrow> farmer_row" where
  "identity_kept r = r\<lparr> fa_verification_markers := JNull \<rparr>"

fun identity_overwrite :: "identity_change \<Rightarrow> farmer_row \<Rightarrow> farmer_row" where
  "identity_overwrite (IRegistered a e) r =
     r\<lparr> fa_registered := True,
        fa_created_ledger := coalesce (obj_i64 (data e) ''created_ledger'') (fa_created_ledger r),
        fa_updated_ledger := coalesce (obj_i64 (data e) ''updated_ledger'') (fa_updated_ledger r) \<rparr>"
| "identity_overwrite (IMetadata a e) r = identity_metadata_set e r"
| "identity_overwrite (IMarker a e) r = r"

lemma coalesce_simps [simp]:
  "coalesce a (coalesce a b) = coalesce a b"
  "coalesce a (coalesce b (coalesce a c)) = coalesce a (coalesce b c)"
  "coalesce a a = a"
  by (auto simp: coalesce_def split: option.splits)

lemma identity_keys [simp]:
  "fa_address (identity_row now a e) = a"
  "fa_address (identity_conflict x r) = fa_address r"
  "fa_address (identity_metadata_set e r) = fa_address r"
  "fa_address (identity_marker_set e r) = fa_address r"
  by (simp_all add: identity_row_def identity_conflict_def identity_metadata_set_def
      identity_marker_set_def)

lemma identity_undated [simp]:
  "undated (identity_row now a e) = identity_row 0 a e"
  "undated (identity_conflict (identity_row now a e) r) =
    identity_conflict (identity_row 0 a e) (undated r)"
  "undated (identity_metadata_set e r) = identity_metadata_set e (undated r)"
  "undated (identity_marker_set e r) = identity_marker_set e (undated r)"
  by (simp_all add: undated_def identity_row_def identity_conflict_def identity_metadata_set_def
      identity_marker_set_def)

lemma identity_upd_mutation:
  "\<not> identity_creates c \<Longrightarrow> identity_upd c x = map_option (identity_mutate c) x"
  by (cases c; cases x) auto

lemma identity_row_law:
  assumes "apply_event uuid e db = (Inr b, db')"
  shows "identity_view db' k =
      (case identity_change e of
         Some c \<Rightarrow> if identity_target c = k then identity_upd c (identity_view db k)
                   else identity_view db k
       | None \<Rightarrow> identity_view db k)"
proof (cases "contract_name e = ''identity''")
  case True
  note dispatch = apply_event_identity [OF True]
  show ?thesis
    using assms unfolding dispatch
    by (auto simp: True identity_change_def and_then_True_Inr identity_view_def tbl_find_upsert
        tbl_find_update option.map_comp comp_def identity_upd_mutation
        dest!: upsert_identity_effect update_identity_effect append_identity_effect
        split: if_splits option.splits)
next
  case False
  with apply_event_frame_Inr(4) [OF assms] show ?thesis
    by (simp add: identity_view_def identity_change_def)
qed

interpretation identity: replayable_projection
    identity_view identity_change identity_target identity_upd uuid "''identity''"
    identity_creates fa_verification_markers identity_kept identity_overwrite
  for uuid
proof unfold_locales
  fix e c
  show "identity_change e = Some c \<Longrightarrow> contract_name e = ''identity''"
    by (auto simp: identity_change_def split: if_splits)
next
  fix k
  show "identity_view empty_pg k = None"
    by (simp add: identity_view_def empty_pg_def tbl_find_Nil)
next
  fix e db b db' k
  assume "apply_event uuid e db = (Inr b, db')"
  then show "identity_view db' k =
      (case identity_change e of
         Some c \<Rightarrow> if identity_target c = k then identity_upd c (identity_view db k)
                   else identity_view db k
       | None \<Rightarrow> identity_view db k)"
    by (rule identity_row_law)
next
  fix db db' k
  show "same_tables db db' \<Longrightarrow> identity_view db' k = identity_view db k"
    by (simp add: same_tables_def identity_view_def)
next
  fix c x
  show "identity_creates c \<Longrightarrow> \<exists>r. identity_upd c x = Some r"
    by (cases c; cases x) auto
next
  fix c x y r s
  show "identity_creates c \<Longrightarrow> identity_upd c x = Some r \<Longrightarrow> identity_upd c y = Some s \<Longrightarrow>
      fa_verification_markers r = fa_verification_markers s"
    by (cases c; cases x; cases y) (auto simp: identity_conflict_def identity_row_def)
next
  fix c r r' s s'
  show "\<not> identity_creates c \<Longrightarrow> identity_upd c (Some r) = Some r' \<Longrightarrow>
      identity_upd c (Some s) = Some s' \<Longrightarrow>
      fa_verification_markers r = fa_verification_markers s \<Longrightarrow>
      fa_verification_markers r' = fa_verification_markers s'"
    by (cases c) (auto simp: identity_metadata_set_def identity_marker_set_def)
next
  fix c r s
  show "identity_upd c (Some r) = Some s \<Longrightarrow> identity_kept s = identity_overwrite c (identity_kept r)"
    by (cases c) (auto simp: identity_kept_def identity_conflict_def identity_row_def
        identity_metadata_set_def identity_marker_set_def)
next
  fix c r
  show "identity_creates c \<Longrightarrow> identity_upd c None = Some r \<Longrightarrow>
      identity_overwrite c (identity_kept r) = identity_kept r"
    by (cases c) (auto simp: identity_kept_def identity_row_def)
next
  fix c d w
  show "identity_overwrite c (identity_overwrite c w) = identity_overwrite c w"
    by (cases c) (auto simp: identity_metadata_set_def)
  show "identity_overwrite c (identity_overwrite d (identity_overwrite c w)) =
      identity_overwrite c (identity_overwrite d w)"
    by (cases c; cases d) (auto simp: identity_metadata_set_def)
next
  fix r s
  show "fa_verification_markers r = fa_verification_markers s \<Longrightarrow>
      identity_kept r = identity_kept s \<Longrightarrow> r = s"
    by (cases r; cases s) (auto simp: identity_kept_def)
next
  fix c
  show "\<not> identity_creates c \<Longrightarrow> identity_upd c None = None"
    by (cases c) auto
qed auto

end
