(* ===== verification/Ingest_Laws.thy ===== *)
theory Ingest_Laws
  imports Projection_Laws2
begin

text \<open>
  Passes that fail. A builder is one statement, so a failing event either left the projection
  tables alone or did exactly what it would have done on success (\<open>recoverable\<close>: the statement
  ran and only its acknowledgement was lost). A failing pass has therefore applied a prefix of
  the finalized log, and everything before the projections is a prefix of the pulled batch.
\<close>

section \<open>Statements that fail\<close>

definition recoverable :: "(pg, 'e, 'a) action \<Rightarrow> bool" where
  "recoverable m \<longleftrightarrow> (\<forall>db e db'. m db = (Inl e, db') \<longrightarrow>
    same_tables db db'
    \<or> (\<exists>a db''. m (db\<lparr>budget := None\<rparr>) = (Inr a, db'') \<and> same_tables db'' db'))"

definition budget_blind :: "(pg \<Rightarrow> sqlx_error + pg) \<Rightarrow> bool" where
  "budget_blind f \<longleftrightarrow>
    (\<forall>db b. f (db\<lparr>budget := b\<rparr>) = map_sum (\<lambda>e. e) (\<lambda>d. d\<lparr>budget := b\<rparr>) (f db))"

lemma same_tables_refl [simp]: "same_tables db db"
  by (simp add: same_tables_def)

lemma same_tables_trans: "same_tables a b \<Longrightarrow> same_tables b c \<Longrightarrow> same_tables a c"
  by (simp add: same_tables_def)

lemma same_tables_budget [simp]:
  "same_tables (db\<lparr>budget := b\<rparr>) db' = same_tables db db'"
  "same_tables db (db'\<lparr>budget := b\<rparr>) = same_tables db db'"
  by (simp_all add: same_tables_def)

lemma recoverable_execute:
  assumes blind: "budget_blind f"
  shows "recoverable (execute f)"
  unfolding recoverable_def
proof (intro allI impI)
  fix db e db'
  assume run: "execute f db = (Inl e, db')"
  show "same_tables db db' \<or>
    (\<exists>a db''. execute f (db\<lparr>budget := None\<rparr>) = (Inr a, db'') \<and> same_tables db'' db')"
  proof (cases "tick db")
    case None
    then have "db' = db \<or> f db = Inr db'"
      using run by (auto simp: execute_def split: if_splits sum.splits)
    then show ?thesis
    proof
      assume "f db = Inr db'"
      then have "f (db\<lparr>budget := None\<rparr>) = Inr (db'\<lparr>budget := None\<rparr>)"
        using blind by (simp add: budget_blind_def)
      then show ?thesis by simp
    qed simp
  next
    case (Some db0)
    with run have "db' = db0" by (auto simp: execute_def split: sum.splits)
    with tick_Some [OF Some] show ?thesis by auto
  qed
qed

lemma recoverable_fail: "recoverable (fail e)"
  by (simp add: recoverable_def)

lemma recoverable_ok: "recoverable (ok a)"
  by (simp add: recoverable_def)

lemma recoverable_then_ok: "recoverable m \<Longrightarrow> recoverable (and_then m (\<lambda>_. ok a))"
  unfolding recoverable_def and_then_apply
  by (fastforce split: prod.splits sum.splits)

lemma recoverable_consume:
  "(\<And>d. recoverable (builder d)) \<Longrightarrow> recoverable (consume decoded msg builder)"
  by (auto simp: consume_def recoverable_fail recoverable_then_ok split: option.splits)

lemma recoverable_upserts:
  "recoverable (upsert_verification uuid cid a)"
  "recoverable (upsert_escrow uuid cid b)"
  "recoverable (upsert_financing cid c)"
  "recoverable (revoke_verification d)"
  by (auto simp: upsert_verification_def upsert_escrow_def upsert_financing_def
      revoke_verification_def Let_def budget_blind_def intro!: recoverable_execute)

lemma recoverable_updates:
  "recoverable (update_escrow k f)"
  "recoverable (update_financing k g)"
  by (auto simp: update_escrow_def update_financing_def budget_blind_def
      split: sum.splits intro!: recoverable_execute)

lemma recoverable_identity:
  "recoverable (upsert_identity_farmer e)"
  "recoverable (update_identity_metadata e)"
  "recoverable (append_identity_marker e)"
  by (auto simp: upsert_identity_farmer_def update_identity_metadata_def append_identity_marker_def
      Let_def budget_blind_def split: option.splits sum.splits
      intro!: recoverable_execute recoverable_fail)

lemma recoverable_mutations:
  "recoverable (add_escrow_deposit a)"
  "recoverable (release_escrow b)"
  "recoverable (refund_escrow c)"
  "recoverable (add_financing_deposit d)"
  "recoverable (release_financing e)"
  "recoverable (refund_financing f)"
  by (simp_all add: add_escrow_deposit_def release_escrow_def refund_escrow_def
      add_financing_deposit_def release_financing_def refund_financing_def recoverable_updates)

lemma recoverable_apply_event: "recoverable (apply_event uuid event)"
  unfolding apply_event_def Let_def
  by (simp add: recoverable_consume recoverable_then_ok recoverable_ok recoverable_upserts
      recoverable_identity recoverable_mutations)

section \<open>Runs that fail\<close>

context row_projection
begin

lemma event_crash:
  assumes "apply_event uuid e db = (Inl err, db')"
  shows "(\<forall>k. view db' k = view db k) \<or>
    (\<forall>k. view db' k =
      (case change e of
         Some c \<Rightarrow> if target c = k then upd c (view db k) else view db k
       | None \<Rightarrow> view db k))"
proof -
  have "same_tables db db' \<or> (\<exists>a db''.
      apply_event uuid e (db\<lparr>budget := None\<rparr>) = (Inr a, db'') \<and> same_tables db'' db')"
    using recoverable_apply_event assms unfolding recoverable_def by blast
  then show ?thesis
  proof
    assume "same_tables db db'"
    then show ?thesis by (simp add: view_tables)
  next
    assume "\<exists>a db''. apply_event uuid e (db\<lparr>budget := None\<rparr>) = (Inr a, db'') \<and> same_tables db'' db'"
    then obtain a db'' where run: "apply_event uuid e (db\<lparr>budget := None\<rparr>) = (Inr a, db'')"
      and same: "same_tables db'' db'" by blast
    have before: "view (db\<lparr>budget := None\<rparr>) k = view db k" for k
      by (rule view_tables) simp
    have "view db' k =
        (case change e of
           Some c \<Rightarrow> if target c = k then upd c (view db k) else view db k
         | None \<Rightarrow> view db k)" for k
      using row_law [OF run, of k, unfolded before] view_tables [OF same, of k] by simp
    then show ?thesis by blast
  qed
qed

text \<open>Any run applied a prefix of the list; a successful one all of it.\<close>

lemma run_prefix:
  "apply_finalized text_of uuid evs n db = (r, db') \<Longrightarrow>
    \<exists>j. (\<forall>k. view db' k = fold upd (changes_for change target k (take j evs)) (view db k))
      \<and> (\<forall>m. r = Inr m \<longrightarrow> take j evs = evs)"
proof (induction evs arbitrary: n db)
  case Nil
  then show ?case by auto
next
  case (Cons e evs)
  obtain x d where step: "apply_event uuid e db = (x, d)" by fastforce
  show ?case
  proof (cases x)
    case (Inl err)
    with Cons.prems step have "db' = d" and r: "r = Inl (ChainInternal (text_of err))"
      by (auto simp: and_then_apply internal_apply)
    from event_crash [OF step [unfolded Inl]] show ?thesis
    proof
      assume "\<forall>k. view d k = view db k"
      with \<open>db' = d\<close> r show ?thesis by (intro exI [of _ 0]) simp
    next
      assume "\<forall>k. view d k =
        (case change e of
           Some c \<Rightarrow> if target c = k then upd c (view db k) else view db k
         | None \<Rightarrow> view db k)"
      with \<open>db' = d\<close> r show ?thesis
        by (intro exI [of _ 1]) (simp add: changes_for_Cons split: option.split)
    qed
  next
    case (Inr b)
    with Cons.prems step have
      "apply_finalized text_of uuid evs (if b then n + 1 else n) d = (r, db')"
      by (simp add: and_then_apply internal_apply)
    from Cons.IH [OF this] obtain j where
      "\<And>k. view db' k = fold upd (changes_for change target k (take j evs)) (view d k)"
      and "\<And>m. r = Inr m \<Longrightarrow> take j evs = evs" by blast
    then show ?thesis
      using row_law [OF step [unfolded Inr]]
      by (intro exI [of _ "Suc j"]) (simp add: changes_for_Cons split: option.split)
  qed
qed

end

section \<open>Passes that fail\<close>

lemma set_cursor_Inr:
  "set_cursor cid c db = (Inr u, db') \<Longrightarrow> \<exists>b. db' = with_cursor cid c (db\<lparr>budget := b\<rparr>)"
  by (auto simp: set_cursor_def with_cursor_def elim!: execute_Inr_state)

lemma append_events_Inr:
  "append_events evs db = (Inr u, db') \<Longrightarrow>
    \<exists>b. db' = db\<lparr>budget := b, indexed_events := insert_events evs (indexed_events db)\<rparr>"
  using append_events_effect [of evs db] by auto

lemma finalized_events_effect:
  "\<exists>b. snd (finalized_events cid fl db) = db\<lparr>budget := b\<rparr>
    \<and> (\<forall>evs. fst (finalized_events cid fl db) = Inr evs \<longrightarrow> evs = finalized db cid fl)"
  by (auto simp: finalized_events_def query_def finalized_def stored_def conj_commute
      split: option.splits dest: tick_Some intro: exI [of _ "budget db"])

text \<open>The state before the projections, with whatever is left of the fault plan.\<close>

lemma with_cursor_cursors:
  "indexer_cursors (with_cursor cid c db) =
    tbl_upsert fst (cid, c) (\<lambda>row. (fst row, c)) (indexer_cursors db)"
  by (simp add: with_cursor_def)

definition before_projections :: "string \<Rightarrow> chain_event list \<Rightarrow> pg \<Rightarrow> pg \<Rightarrow> bool" where
  "before_projections cid evs db db' \<longleftrightarrow> (\<exists>j b.
    db' = db\<lparr>budget := b, indexed_events := insert_events (take j evs) (indexed_events db)\<rparr>
    \<or> evs \<noteq> [] \<and> db' = (pulled_state cid evs db)\<lparr>budget := b\<rparr>)"

lemma before_projections_budget: "before_projections cid evs db (db\<lparr>budget := b\<rparr>)"
  unfolding before_projections_def
  by (rule exI [of _ 0], rule exI [of _ b]) simp

lemma internal_run:
  "internal text_of m db = (r, db') \<Longrightarrow>
    (\<exists>err. m db = (Inl err, db') \<and> r = Inl (ChainInternal (text_of err)))
    \<or> (\<exists>a. m db = (Inr a, db') \<and> r = Inr a)"
  by (auto simp: internal_apply split: prod.splits sum.splits)

lemma and_then_run:
  assumes "and_then m f s = (r, s')"
  obtains (first) e where "m s = (Inl e, s')" and "r = Inl e"
  | (second) a t where "m s = (Inr a, t)" and "f a t = (r, s')"
  using assms by (auto simp: and_then_def split: prod.splits sum.splits)

text \<open>The three stages of a pass: reading, storing, projecting.\<close>

lemma ingest_read:
  assumes "ingest text_of uuid pull head cid db = (r, db')"
  obtains (idle) b where "db' = db\<lparr>budget := b\<rparr>" and "\<And>n. r = Inr n \<Longrightarrow> n = 0"
  | (pulled) evs h b where "pull cid (cursor_of db cid) = Inr evs" and "evs \<noteq> []" and "head = Inr h"
      and "and_then (internal text_of (append_events evs)) (\<lambda>_.
        and_then (internal text_of (set_cursor cid (event_pos (last evs)))) (\<lambda>_.
        and_then (internal text_of (finalized_events cid (h - TRUSTED_CUTOFF))) (\<lambda>finalized.
        and_then (apply_finalized text_of uuid finalized 0) (\<lambda>_. ok (length evs)))))
        (db\<lparr>budget := b\<rparr>) = (r, db')"
  using assms unfolding ingest_def
proof (cases rule: and_then_run)
  case (first e)
  with get_cursor_effect [of cid db] show thesis by (auto dest!: internal_run intro: idle)
next
  case (second cur d)
  with get_cursor_effect [of cid db] obtain b where d: "d = db\<lparr>budget := b\<rparr>"
    and cur: "cur = cursor_of db cid" by auto
  from second(2) show thesis
  proof (cases rule: and_then_run)
    case (second events t)
    then have pull: "pull cid (cursor_of db cid) = Inr events" and t: "t = d"
      by (simp_all add: cur)
    show thesis
    proof (cases "events = [] \<or> (\<exists>err. head = Inl err)")
      case True
      with second(2) t d show thesis
        by (intro idle [of b]) (auto simp: and_then_apply split: if_splits)
    next
      case False
      then obtain h where "head = Inr h" "events \<noteq> []" by (cases head) auto
      with second(2) pull show thesis
        by (intro pulled [of events h b])
          (simp_all add: t d Let_def last_event_cursor and_then_apply [of "lift_result (Inr h)"])
    qed
  qed (auto simp: d intro: idle)
qed

lemma ingest_store:
  assumes "evs \<noteq> []" and "and_then (internal text_of (append_events evs)) (\<lambda>_.
      and_then (internal text_of (set_cursor cid (event_pos (last evs)))) f) (db\<lparr>budget := b0\<rparr>)
      = (r, db')"
  obtains (failed) "before_projections cid evs db db'" and "\<And>n. r \<noteq> Inr n"
  | (stored) b where "f () ((pulled_state cid evs db)\<lparr>budget := b\<rparr>) = (r, db')"
  using assms(2)
proof (cases rule: and_then_run)
  case (first e)
  then have "db' = snd (append_events evs (db\<lparr>budget := b0\<rparr>))"
    by (auto dest!: internal_run)
  then obtain j b where
    "db' = db\<lparr>budget := b, indexed_events := insert_events (take j evs) (indexed_events db)\<rparr>"
    using append_events_effect [of evs "db\<lparr>budget := b0\<rparr>"] by auto
  then have "before_projections cid evs db db'"
    unfolding before_projections_def by blast
  with first show thesis by (intro failed) auto
next
  case (second u d)
  with append_events_Inr [of evs "db\<lparr>budget := b0\<rparr>"] obtain b where
    d: "d = db\<lparr>budget := b, indexed_events := insert_events evs (indexed_events db)\<rparr>" by auto
  have pulled: "with_cursor cid (event_pos (last evs)) (d\<lparr>budget := b\<rparr>) =
      (pulled_state cid evs db)\<lparr>budget := b\<rparr>" for b
    by (simp add: d pulled_state_def with_cursor_def)
  from second(2) show thesis
  proof (cases rule: and_then_run)
    case (first e)
    then have "db' = snd (set_cursor cid (event_pos (last evs)) d)"
      by (auto dest!: internal_run)
    with set_cursor_effect [of cid "event_pos (last evs)" d] obtain b' where
      "db' = d\<lparr>budget := b'\<rparr> \<or> db' = (pulled_state cid evs db)\<lparr>budget := b'\<rparr>"
      unfolding pulled by blast
    then have "before_projections cid evs db db'"
      using assms(1) unfolding before_projections_def d
      by (elim disjE) (rule exI [of _ "length evs"], rule exI [of _ b'], simp)+
    with first show thesis by (intro failed) auto
  next
    case (second v t)
    then show thesis by (auto simp: pulled dest!: set_cursor_Inr intro: stored)
  qed
qed

lemma ingest_project:
  assumes "and_then (internal text_of (finalized_events cid fl)) (\<lambda>finalized.
      and_then (apply_finalized text_of uuid finalized 0) (\<lambda>_. ok n)) db = (r, db')"
  obtains (failed) b where "db' = db\<lparr>budget := b\<rparr>" and "\<And>n. r \<noteq> Inr n"
  | (projected) b s where
      "apply_finalized text_of uuid (finalized db cid fl) 0 (db\<lparr>budget := b\<rparr>) = (s, db')"
      and "\<And>m. r = Inr m \<Longrightarrow> m = n \<and> (\<exists>m'. s = Inr m')"
  using assms
proof (cases rule: and_then_run)
  case (first e)
  with finalized_events_effect [of cid fl db] show thesis by (auto dest!: internal_run intro: failed)
next
  case (second evs d)
  with finalized_events_effect [of cid fl db] obtain b where d: "d = db\<lparr>budget := b\<rparr>"
    and evs: "evs = finalized db cid fl" by auto
  from second(2) show thesis
    by (cases rule: and_then_run) (auto simp: d evs intro: projected [of b "Inl _"] projected [of b "Inr _"])
qed

text \<open>Every pass stops before the projections or runs them on the finalized log.\<close>

lemma ingest_cases:
  assumes run: "ingest text_of uuid pull head cid db = (r, db')"
  obtains
    (idle) evs where "before_projections cid evs db db'" and "\<And>n. r = Inr n \<Longrightarrow> n = 0"
      and "evs = [] \<or> pull cid (cursor_of db cid) = Inr evs"
  | (projecting) evs h b s where "pull cid (cursor_of db cid) = Inr evs" and "evs \<noteq> []"
      and "head = Inr h"
      and "apply_finalized text_of uuid
          (finalized (pulled_state cid evs db) cid (h - TRUSTED_CUTOFF)) 0
          ((pulled_state cid evs db)\<lparr>budget := b\<rparr>) = (s, db')"
      and "\<And>n. r = Inr n \<Longrightarrow> n = length evs \<and> (\<exists>m. s = Inr m)"
  using run
proof (cases rule: ingest_read)
  case (idle b)
  then show thesis by (intro that(1) [of "[]"]) (auto simp: before_projections_budget)
next
  case (pulled evs h b)
  from pulled(2,4) show thesis
  proof (cases rule: ingest_store)
    case failed
    with pulled(1) show thesis by (intro that(1) [of evs]) auto
  next
    case (stored b')
    from stored show thesis
    proof (cases rule: ingest_project)
      case (failed b'')
      then have "before_projections cid evs db db'"
        using pulled(2) unfolding before_projections_def by auto
      with failed pulled(1) show thesis by (intro that(1) [of evs]) auto
    next
      case (projected b'' s)
      from that(2) [OF pulled(1-3), of b'' s] projected show thesis
        by (simp add: finalized_def)
    qed
  qed
qed

end
