(* ===== verification/Chain_World.thy ===== *)
theory Chain_World
  imports Ingest_Laws
begin

text \<open>
  The indexer in its environment: chains that emit events and re-organise, an event source that
  answers as the trait promises or fails, connections that break at any statement, passes that
  end anywhere, rewinds that end halfway, and the rest of the program working on the same
  database. \<open>world_reach\<close> gives the reachable states.

  Two ghosts per contract say what the event store can still be trusted for: after a re-org from
  ledger \<open>l\<close> on, \<open>w_orphan\<close> is \<open>Some l\<close> until a rewind removed the stored events from \<open>l\<close> on, and
  \<open>w_gap\<close> holds until a rewind reset the cursor.

  The environment keeps to what the design relies on (finality): no re-org at or below the
  highest finality floor a pass has used, no pass that would finalize a ledger an orphaned event
  can be in, and heads that do not go back.
\<close>

section \<open>The step relation\<close>

record world =
  w_log :: "string \<Rightarrow> chain_event list"
  w_head :: int
  w_orphan :: "string \<Rightarrow> int option"
  w_gap :: "string \<Rightarrow> bool"
  w_db :: pg

definition answers ::
  "(string \<Rightarrow> chain_event list) \<Rightarrow> (string \<Rightarrow> cursor \<Rightarrow> chain_events_error + chain_event list) \<Rightarrow>
    string \<Rightarrow> cursor \<Rightarrow> bool" where
  "answers log pull cid cur \<longleftrightarrow>
    (\<forall>evs. pull cid cur = Inr evs \<longrightarrow> evs = filter (\<lambda>e. is_after (event_pos e) cur) (log cid))"

definition merge_orphan :: "int \<Rightarrow> int option \<Rightarrow> int option" where
  "merge_orphan l x = Some (case x of None \<Rightarrow> l | Some l' \<Rightarrow> min l l')"

definition clear_orphan :: "int \<Rightarrow> int option \<Rightarrow> int option" where
  "clear_orphan from_ledger x =
    (case x of None \<Rightarrow> None | Some l \<Rightarrow> if from_ledger \<le> l then None else Some l)"

inductive world_reach ::
  "(sqlx_error \<Rightarrow> string) \<Rightarrow> (string \<Rightarrow> string option) \<Rightarrow> (string \<Rightarrow> string) \<Rightarrow> (pg \<Rightarrow> pg \<Rightarrow> bool) \<Rightarrow>
    world \<Rightarrow> bool"
  for text_of uuid name_of frame where
  genesis:
    "world_reach text_of uuid name_of frame
      \<lparr> w_log = \<lambda>_. [], w_head = h, w_orphan = \<lambda>_. None, w_gap = \<lambda>_. False, w_db = empty_pg \<rparr>"
| emit:
    "world_reach text_of uuid name_of frame w \<Longrightarrow>
      contract_id e = cid \<Longrightarrow> contract_name e = name_of cid \<Longrightarrow> START < event_pos e \<Longrightarrow>
      \<forall>x \<in> set (w_log w cid). event_pos x < event_pos e \<Longrightarrow>
      world_reach text_of uuid name_of frame
        (w\<lparr> w_log := (w_log w)(cid := w_log w cid @ [e]) \<rparr>)"
| faults:
    "world_reach text_of uuid name_of frame w \<Longrightarrow>
      world_reach text_of uuid name_of frame
        (w\<lparr> w_db := (w_db w)\<lparr> budget := b, ack_lost := a \<rparr> \<rparr>)"
| pass:
    "world_reach text_of uuid name_of frame w \<Longrightarrow>
      answers (w_log w) pull cid (cursor_of (w_db w) cid) \<Longrightarrow>
      w_head w \<le> h \<Longrightarrow> head = Inr h \<or> (\<exists>err. head = Inl err) \<Longrightarrow>
      \<forall>l. w_orphan w cid = Some l \<longrightarrow> h - TRUSTED_CUTOFF < l \<Longrightarrow>
      world_reach text_of uuid name_of frame
        (w\<lparr> w_head := h, w_db := snd (ingest text_of uuid pull head cid (w_db w)) \<rparr>)"
| rest:
    "world_reach text_of uuid name_of frame w \<Longrightarrow> frame (w_db w) db' \<Longrightarrow>
      indexed_events db' = indexed_events (w_db w) \<Longrightarrow>
      indexer_cursors db' = indexer_cursors (w_db w) \<Longrightarrow>
      world_reach text_of uuid name_of frame (w\<lparr> w_db := db' \<rparr>)"
| reorg:
    "world_reach text_of uuid name_of frame w \<Longrightarrow> w_head w - TRUSTED_CUTOFF < l \<Longrightarrow>
      world_reach text_of uuid name_of frame
        (w\<lparr> w_log := (w_log w)(cid := filter (\<lambda>e. ledger_sequence e < l) (w_log w cid)),
           w_orphan := (w_orphan w)(cid := merge_orphan l (w_orphan w cid)),
           w_gap := (w_gap w)(cid := True) \<rparr>)"
| rewound:
    "world_reach text_of uuid name_of frame w \<Longrightarrow> rewind cid l (w_db w) = (Inr (), db') \<Longrightarrow>
      world_reach text_of uuid name_of frame
        (w\<lparr> w_orphan := (w_orphan w)(cid := clear_orphan l (w_orphan w cid)),
           w_gap := (w_gap w)(cid := clear_orphan l (w_orphan w cid) \<noteq> None),
           w_db := db' \<rparr>)"
| rewind_failed:
    "world_reach text_of uuid name_of frame w \<Longrightarrow> rewind cid l (w_db w) = (Inl err, db') \<Longrightarrow>
      world_reach text_of uuid name_of frame
        (w\<lparr> w_gap := (w_gap w)(cid := True), w_db := db' \<rparr>)"

section \<open>What a pass and a rewind do to the event store\<close>

definition pass_effect :: "string \<Rightarrow> chain_event list \<Rightarrow> pg \<Rightarrow> pg \<Rightarrow> bool" where
  "pass_effect cid evs db db' \<longleftrightarrow> (\<exists>j.
    indexed_events db' = insert_events (take j evs) (indexed_events db)
    \<and> (indexer_cursors db' = indexer_cursors db
       \<or> evs \<noteq> [] \<and> take j evs = evs
         \<and> indexer_cursors db' = indexer_cursors (with_cursor cid (event_pos (last evs)) db)))"

lemma before_projections_effect: "before_projections cid evs db db' \<Longrightarrow> pass_effect cid evs db db'"
  unfolding before_projections_def pass_effect_def pulled_state_def
  by (elim exE disjE) (rule exI, rule conjI, simp, simp, rule exI [of _ "length evs"],
      simp add: with_cursor_def)

lemma apply_finalized_store:
  assumes "apply_finalized text_of uuid evs n db = (r, db')"
  shows "indexed_events db' = indexed_events db \<and> indexer_cursors db' = indexer_cursors db"
proof -
  have "keeps (\<lambda>d. indexed_events d = indexed_events db \<and> indexer_cursors d = indexer_cursors db)
      (apply_finalized text_of uuid evs n)"
    by (rule keeps_apply_finalized) (simp add: projection_blind_def fault_blind_def)
  from keeps_result [OF this _ assms] show ?thesis by simp
qed

lemma ingest_effect:
  obtains evs where "pass_effect cid evs db (snd (ingest text_of uuid pull head cid db))"
    and "evs = [] \<or> pull cid (cursor_of db cid) = Inr evs"
proof (cases rule: ingest_cases [of text_of uuid pull head cid db
      "fst (ingest text_of uuid pull head cid db)" "snd (ingest text_of uuid pull head cid db)",
      case_names same idle projecting])
  case same
  show ?case by simp
next
  case (idle evs)
  then show thesis by (intro that [of evs]) (auto intro: before_projections_effect)
next
  case (projecting evs h b s)
  from apply_finalized_store [OF projecting(4)] projecting(1,2) show thesis
    by (intro that [of evs])
      (auto simp: pass_effect_def pulled_state_def with_cursor_def intro: exI [of _ "length evs"])
qed

lemma rewind_effect:
  "indexed_events (snd (rewind cid l db)) \<in>
      {indexed_events db,
       filter (\<lambda>e. \<not> (contract_id e = cid \<and> ledger_sequence e \<ge> l)) (indexed_events db)}
    \<and> indexer_cursors (snd (rewind cid l db)) \<in>
      {indexer_cursors db, filter (\<lambda>row. fst row \<noteq> cid) (indexer_cursors db)}
    \<and> same_tables db (snd (rewind cid l db))
    \<and> (fst (rewind cid l db) = Inr () \<longrightarrow>
        indexed_events (snd (rewind cid l db)) =
          filter (\<lambda>e. \<not> (contract_id e = cid \<and> ledger_sequence e \<ge> l)) (indexed_events db)
        \<and> indexer_cursors (snd (rewind cid l db)) =
          filter (\<lambda>row. fst row \<noteq> cid) (indexer_cursors db))"
proof (cases "tick db")
  case None
  then show ?thesis
    by (simp add: rewind_def and_then_apply execute_def same_tables_def)
next
  case (Some db0)
  then obtain b where db0: "db0 = db\<lparr>budget := b\<rparr>" by (auto dest: tick_Some)
  define g :: "pg \<Rightarrow> pg" where
    "g = (\<lambda>db. db\<lparr>indexer_cursors := filter (\<lambda>row. fst row \<noteq> cid) (indexer_cursors db)\<rparr>)"
  define d where "d = db0\<lparr>indexed_events :=
      filter (\<lambda>e. \<not> (contract_id e = cid \<and> ledger_sequence e \<ge> l)) (indexed_events db0)\<rparr>"
  have run: "rewind cid l db = execute (\<lambda>db. Inr (g db)) d"
    using Some by (simp add: rewind_def and_then_apply execute_def g_def d_def)
  show ?thesis
    unfolding run
    by (cases rule: execute_write_cases [of g d])
      (simp_all add: g_def d_def db0 same_tables_def)
qed

section \<open>The event store is complete up to the cursor\<close>

definition log_ok :: "(string \<Rightarrow> string) \<Rightarrow> (string \<Rightarrow> chain_event list) \<Rightarrow> bool" where
  "log_ok name_of log \<longleftrightarrow> (\<forall>cid. ordered_events (log cid)
    \<and> (\<forall>e \<in> set (log cid).
        contract_id e = cid \<and> contract_name e = name_of cid \<and> START < event_pos e))"

text \<open>What is stored of one contract against its log; \<open>os\<close> and \<open>gap\<close> are the ghosts.\<close>

definition contract_inv ::
  "chain_event list \<Rightarrow> int option \<Rightarrow> bool \<Rightarrow> chain_event list \<Rightarrow> cursor \<Rightarrow> bool" where
  "contract_inv log os gap st cur \<longleftrightarrow>
    (\<forall>e \<in> set st. (case os of None \<Rightarrow> True | Some l \<Rightarrow> ledger_sequence e < l) \<longrightarrow> e \<in> set log)
    \<and> (\<not> gap \<longrightarrow> os = None
        \<and> (\<forall>e \<in> set log. event_pos e \<le> cur \<longrightarrow> e \<in> set st)
        \<and> (cur = START \<or> cur \<in> event_pos ` set log))"

definition world_inv :: "(string \<Rightarrow> string) \<Rightarrow> world \<Rightarrow> bool" where
  "world_inv name_of w \<longleftrightarrow>
    log_ok name_of (w_log w)
    \<and> store_ok (w_db w)
    \<and> (\<forall>e \<in> set (indexed_events (w_db w)). contract_name e = name_of (contract_id e))
    \<and> (\<forall>cid. contract_inv (w_log w cid) (w_orphan w cid) (w_gap w cid)
          (stored (w_db w) cid) (cursor_of (w_db w) cid))"

lemma stored_eqI: "indexed_events db' = indexed_events db \<Longrightarrow> stored db' cid = stored db cid"
  by (simp add: stored_def)

lemma cursor_of_eqI: "indexer_cursors db' = indexer_cursors db \<Longrightarrow> cursor_of db' cid = cursor_of db cid"
  by (simp add: cursor_of_def)

lemma world_inv_db:
  assumes "world_inv name_of w" and "indexed_events db' = indexed_events (w_db w)"
    and "indexer_cursors db' = indexer_cursors (w_db w)"
  shows "world_inv name_of (w\<lparr> w_head := h, w_db := db' \<rparr>)"
  using assms by (simp add: world_inv_def store_ok_def stored_eqI [of db' "w_db w"] cursor_of_eqI [of db' "w_db w"])

lemma chain_position_unique:
  assumes "ordered_events log" "e \<in> set log" "e' \<in> set log" "event_pos e = event_pos e'"
  shows "e = e'"
proof -
  have "distinct (map event_pos log)" using assms(1) by (simp add: strict_sorted_iff)
  with assms show ?thesis by (auto simp: distinct_map dest: inj_onD)
qed

text \<open>One contract, one pass.\<close>

lemma contract_inv_emit:
  assumes "contract_inv log os gap st cur" and "\<forall>x \<in> set log. event_pos x < event_pos e"
    and "START < event_pos e"
  shows "contract_inv (log @ [e]) os gap st cur"
  using assms unfolding contract_inv_def by (auto split: option.splits)

lemma contract_inv_reorg:
  assumes "contract_inv log os gap st cur"
  shows "contract_inv (filter (\<lambda>e. ledger_sequence e < l) log) (merge_orphan l os) True st cur"
  using assms unfolding contract_inv_def merge_orphan_def by (auto split: option.splits)

lemma contract_inv_gap: "contract_inv log os gap st cur \<Longrightarrow> contract_inv log os True st cur'"
  by (simp add: contract_inv_def)

lemma contract_inv_subset:
  "contract_inv log os True st cur \<Longrightarrow> set st' \<subseteq> set st \<Longrightarrow> contract_inv log os True st' cur'"
  by (auto simp: contract_inv_def)

lemma contract_inv_rewound:
  assumes "contract_inv log os gap st cur" and "\<forall>e \<in> set log. START < event_pos e"
  shows "contract_inv log (clear_orphan l os) (clear_orphan l os \<noteq> None)
    (filter (\<lambda>e. ledger_sequence e < l) st) START"
  using assms unfolding contract_inv_def clear_orphan_def by (auto split: option.splits if_splits)

lemma contract_inv_pull:
  assumes inv: "contract_inv log os gap st cur" and log: "ordered_events log"
    and sub: "set evs \<subseteq> set log" and mono: "set st \<subseteq> set st'" and new: "set st' \<subseteq> set evs \<union> set st"
    and cur': "cur' = cur \<or>
      evs \<noteq> [] \<and> evs = filter (\<lambda>e. cur < event_pos e) log \<and> cur' = event_pos (last evs)
        \<and> event_pos ` set evs \<subseteq> event_pos ` set st'"
  shows "contract_inv log os gap st' cur'"
proof -
  have sound: "\<forall>e \<in> set st'. (case os of None \<Rightarrow> True | Some l \<Rightarrow> ledger_sequence e < l) \<longrightarrow> e \<in> set log"
    using inv sub new unfolding contract_inv_def by blast
  have complete: "e \<in> set st'" if gap: "\<not> gap" and e: "e \<in> set log" "event_pos e \<le> cur'" for e
  proof (cases "event_pos e \<le> cur")
    case True
    with inv gap e(1) mono show ?thesis unfolding contract_inv_def by blast
  next
    case False
    with cur' e have "e \<in> set evs" and keys: "event_pos ` set evs \<subseteq> event_pos ` set st'" by auto
    then obtain e' where e': "e' \<in> set st'" "event_pos e = event_pos e'" by blast
    with sound inv gap have "e' \<in> set log" unfolding contract_inv_def by force
    with log e(1) e'(2) have "e = e'" by (intro chain_position_unique [of log])
    with e'(1) show ?thesis by simp
  qed
  have "cur' = START \<or> cur' \<in> event_pos ` set log" if "\<not> gap"
    using cur' inv sub that unfolding contract_inv_def by (auto dest: last_in_set)
  with sound complete inv show ?thesis unfolding contract_inv_def by blast
qed

text \<open>The steps that change what is stored.\<close>

lemma stored_insert_events:
  assumes "\<forall>e \<in> set evs. contract_id e = cid"
  shows "set (stored (db\<lparr>indexed_events := insert_events evs t\<rparr>) cid) \<subseteq>
      set evs \<union> set (stored (db\<lparr>indexed_events := t\<rparr>) cid)"
    and "set (stored (db\<lparr>indexed_events := t\<rparr>) cid) \<subseteq> set (stored (db\<lparr>indexed_events := insert_events evs t\<rparr>) cid)"
    and "event_pos ` set evs \<subseteq> event_pos ` set (stored (db\<lparr>indexed_events := insert_events evs t\<rparr>) cid)"
    and "cid' \<noteq> cid \<Longrightarrow>
      stored (db\<lparr>indexed_events := insert_events evs t\<rparr>) cid' = stored (db\<lparr>indexed_events := t\<rparr>) cid'"
proof -
  show "set (stored (db\<lparr>indexed_events := insert_events evs t\<rparr>) cid) \<subseteq>
      set evs \<union> set (stored (db\<lparr>indexed_events := t\<rparr>) cid)"
    using insert_events_sub [of evs t] by (auto simp: stored_def)
  show "set (stored (db\<lparr>indexed_events := t\<rparr>) cid) \<subseteq>
      set (stored (db\<lparr>indexed_events := insert_events evs t\<rparr>) cid)"
    using insert_events_mono [of t evs] by (auto simp: stored_def)
  show "event_pos ` set evs \<subseteq>
      event_pos ` set (stored (db\<lparr>indexed_events := insert_events evs t\<rparr>) cid)"
  proof
    fix x assume "x \<in> event_pos ` set evs"
    then obtain e where e: "e \<in> set evs" "x = event_pos e" by blast
    then obtain e' where "e' \<in> set (insert_events evs t)" "natural_key e = natural_key e'"
      using insert_events_keys [of evs t] by blast
    with e assms show "x \<in> event_pos ` set (stored (db\<lparr>indexed_events := insert_events evs t\<rparr>) cid)"
      by (force simp: stored_def natural_key_pos)
  qed
  show "cid' \<noteq> cid \<Longrightarrow>
      stored (db\<lparr>indexed_events := insert_events evs t\<rparr>) cid' = stored (db\<lparr>indexed_events := t\<rparr>) cid'"
    using assms by (induction evs arbitrary: t) (auto simp: stored_def insert_event_def)
qed

lemma world_inv_pass:
  assumes inv: "world_inv name_of w" and effect: "pass_effect cid evs (w_db w) db'"
    and evs: "evs = [] \<or> evs = filter (\<lambda>e. cursor_of (w_db w) cid < event_pos e) (w_log w cid)"
  shows "world_inv name_of (w\<lparr> w_head := h, w_db := db' \<rparr>)"
proof -
  let ?db = "w_db w"
  obtain j where ev: "indexed_events db' = insert_events (take j evs) (indexed_events ?db)"
    and cur: "indexer_cursors db' = indexer_cursors ?db \<or> evs \<noteq> [] \<and> take j evs = evs
        \<and> indexer_cursors db' = indexer_cursors (with_cursor cid (event_pos (last evs)) ?db)"
    using effect unfolding pass_effect_def by blast
  have log: "log_ok name_of (w_log w)" using inv by (simp add: world_inv_def)
  have sub: "set (take j evs) \<subseteq> set (w_log w cid)"
    using evs by (auto dest: in_set_takeD)
  then have cids: "\<forall>e \<in> set (take j evs). contract_id e = cid"
    using log by (auto simp: log_ok_def)
  have st: "stored db' c = stored (?db\<lparr>indexed_events := insert_events (take j evs) (indexed_events ?db)\<rparr>) c" for c
    by (simp add: stored_def ev)
  note grow = stored_insert_events [OF cids, where db = ?db and t = "indexed_events ?db"]
  have curs: "cursor_of db' c = (if c = cid then cursor_of db' cid else cursor_of ?db c)" for c
    using cur by (auto simp: cursor_of_eqI [of db' ?db] cursor_of_eqI [of db' "with_cursor _ _ _"])
  have "contract_inv (w_log w c) (w_orphan w c) (w_gap w c) (stored db' c) (cursor_of db' c)" for c
  proof (cases "c = cid")
    case False
    with inv grow(4) show ?thesis by (simp add: world_inv_def st curs [of c])
  next
    case True
    have "cursor_of db' cid = cursor_of ?db cid \<or> evs \<noteq> [] \<and> take j evs = evs
        \<and> cursor_of db' cid = event_pos (last evs)"
      using cur by (auto simp: cursor_of_eqI [of db' ?db] cursor_of_eqI [of db' "with_cursor _ _ _"])
    with evs grow(3) have cur': "cursor_of db' cid = cursor_of ?db cid \<or>
        take j evs \<noteq> []
        \<and> take j evs = filter (\<lambda>e. cursor_of ?db cid < event_pos e) (w_log w cid)
        \<and> cursor_of db' cid = event_pos (last (take j evs))
        \<and> event_pos ` set (take j evs) \<subseteq> event_pos ` set (stored db' cid)"
      unfolding st by metis
    show ?thesis
      unfolding True
      by (rule contract_inv_pull [OF _ _ sub _ _ cur'])
        (use inv log grow(1,2) in \<open>simp_all add: world_inv_def log_ok_def st\<close>)
  qed
  moreover have "store_ok db'"
    using inv by (simp add: world_inv_def store_ok_def ev insert_events_ok)
  moreover have "contract_name e = name_of (contract_id e)" if "e \<in> set (indexed_events db')" for e
  proof -
    from that insert_events_sub [of "take j evs" "indexed_events ?db"]
    have "e \<in> set (w_log w cid) \<or> e \<in> set (indexed_events ?db)"
      using sub unfolding ev by blast
    then show ?thesis
      using inv log by (auto simp: world_inv_def log_ok_def)
  qed
  ultimately show ?thesis using log by (simp add: world_inv_def)
qed

lemma stored_deleted:
  "indexed_events db' = filter (\<lambda>e. \<not> (contract_id e = cid \<and> ledger_sequence e \<ge> l)) (indexed_events db) \<Longrightarrow>
    stored db' c = (if c = cid then filter (\<lambda>e. ledger_sequence e < l) (stored db c) else stored db c)"
  by (auto simp: stored_def intro!: filter_cong)

lemma cursor_deleted:
  "indexer_cursors db' = filter (\<lambda>row. fst row \<noteq> cid) (indexer_cursors db) \<Longrightarrow>
    cursor_of db' c = (if c = cid then START else cursor_of db c)"
  by (simp add: cursor_of_def tbl_find_filter_out)

lemma world_inv_rewind:
  assumes inv: "world_inv name_of w" and run: "rewind cid l (w_db w) = (r, db')"
  shows "world_inv name_of (w\<lparr> w_gap := (w_gap w)(cid := True), w_db := db' \<rparr>)"
    and "r = Inr () \<Longrightarrow> world_inv name_of
      (w\<lparr> w_orphan := (w_orphan w)(cid := clear_orphan l (w_orphan w cid)),
         w_gap := (w_gap w)(cid := clear_orphan l (w_orphan w cid) \<noteq> None), w_db := db' \<rparr>)"
proof -
  let ?db = "w_db w"
  have db': "db' = snd (rewind cid l ?db)" and r: "r = fst (rewind cid l ?db)"
    using run by simp_all
  note effect = rewind_effect [of cid l ?db, folded db' r]
  have others: "stored db' c = stored ?db c" "cursor_of db' c = cursor_of ?db c" if "c \<noteq> cid" for c
    using effect that stored_deleted [of db' cid l ?db c] cursor_deleted [of db' cid ?db c]
      stored_eqI [of db' ?db c] cursor_of_eqI [of db' ?db c]
    by auto
  have sub: "set (indexed_events db') \<subseteq> set (indexed_events ?db)"
    using effect by auto
  then have sub_cid: "set (stored db' cid) \<subseteq> set (stored ?db cid)"
    by (auto simp: stored_def)
  have "indexed_events db' = indexed_events ?db \<or> (\<exists>P. indexed_events db' = filter P (indexed_events ?db))"
    using effect by blast
  then have ok: "store_ok db'"
    using inv by (auto simp: world_inv_def store_ok_def distinct_map_filter)
  have names: "\<forall>e \<in> set (indexed_events db'). contract_name e = name_of (contract_id e)"
    using inv sub unfolding world_inv_def by blast
  have here: "contract_inv (w_log w cid) (w_orphan w cid) (w_gap w cid) (stored ?db cid) (cursor_of ?db cid)"
    using inv by (simp add: world_inv_def)
  have "contract_inv (w_log w cid) (w_orphan w cid) True (stored db' cid) (cursor_of db' cid)"
    by (rule contract_inv_subset [OF contract_inv_gap [OF here] sub_cid])
  with inv ok names others show
    "world_inv name_of (w\<lparr> w_gap := (w_gap w)(cid := True), w_db := db' \<rparr>)"
    by (simp add: world_inv_def)
  assume "r = Inr ()"
  with effect have st: "stored db' cid = filter (\<lambda>e. ledger_sequence e < l) (stored ?db cid)"
    and cur: "cursor_of db' cid = START"
    using stored_deleted [of db' cid l ?db cid] cursor_deleted [of db' cid ?db cid] by simp_all
  have "contract_inv (w_log w cid) (clear_orphan l (w_orphan w cid))
      (clear_orphan l (w_orphan w cid) \<noteq> None) (stored db' cid) (cursor_of db' cid)"
    unfolding st cur
    by (rule contract_inv_rewound [OF here]) (use inv in \<open>simp add: world_inv_def log_ok_def\<close>)
  with inv ok names others show "world_inv name_of
      (w\<lparr> w_orphan := (w_orphan w)(cid := clear_orphan l (w_orphan w cid)),
         w_gap := (w_gap w)(cid := clear_orphan l (w_orphan w cid) \<noteq> None), w_db := db' \<rparr>)"
    by (simp add: world_inv_def)
qed

lemma log_ok_emit:
  "log_ok name_of log \<Longrightarrow> contract_id e = cid \<Longrightarrow> contract_name e = name_of cid \<Longrightarrow>
    START < event_pos e \<Longrightarrow> \<forall>x \<in> set (log cid). event_pos x < event_pos e \<Longrightarrow>
    log_ok name_of (log(cid := log cid @ [e]))"
  by (auto simp: log_ok_def sorted_wrt_append)

lemma log_ok_reorg:
  "log_ok name_of log \<Longrightarrow> log_ok name_of (log(cid := filter P (log cid)))"
  by (auto simp: log_ok_def ordered_events_filter)

lemma ingest_world_effect:
  assumes "answers log pull cid (cursor_of db cid)"
  obtains evs where "pass_effect cid evs db (snd (ingest text_of uuid pull head cid db))"
    and "evs = [] \<or> evs = filter (\<lambda>e. cursor_of db cid < event_pos e) (log cid)"
  using assms by (cases rule: ingest_effect [of cid db text_of uuid pull head]) (auto simp: answers_def)

theorem world_reach_inv: "world_reach text_of uuid name_of frame w \<Longrightarrow> world_inv name_of w"
proof (induction rule: world_reach.induct)
  case (genesis h)
  show ?case
    by (simp add: world_inv_def log_ok_def store_ok_def empty_pg_def stored_def contract_inv_def
        cursor_of_def tbl_find_Nil)
next
  case (emit w e cid)
  then have "log_ok name_of ((w_log w)(cid := w_log w cid @ [e]))"
    by (intro log_ok_emit) (simp_all add: world_inv_def)
  with emit show ?case by (auto simp: world_inv_def intro: contract_inv_emit)
next
  case (faults w b a)
  then show ?case
    by (simp add: world_inv_def store_ok_def stored_def cursor_of_def)
next
  case (pass w pull cid h head)
  from pass(2) obtain evs where
    "pass_effect cid evs (w_db w) (snd (ingest text_of uuid pull head cid (w_db w)))"
    "evs = [] \<or> evs = filter (\<lambda>e. cursor_of (w_db w) cid < event_pos e) (w_log w cid)"
    by (rule ingest_world_effect)
  with pass.IH show ?case by (rule world_inv_pass)
next
  case (rest w db')
  then show ?case using world_inv_db [of name_of w db' "w_head w"] by simp
next
  case (reorg w l cid)
  then show ?case by (auto simp: world_inv_def log_ok_reorg intro: contract_inv_reorg)
next
  case (rewound w cid l db')
  then show ?case by (blast intro: world_inv_rewind(2))
next
  case (rewind_failed w cid l err db')
  then show ?case by (blast intro: world_inv_rewind(1))
qed

end
