(* ===== verification/World_Projections.thy ===== *)
theory World_Projections
  imports Chain_World
begin

text \<open>
  The projections in the reachable worlds. In every reachable world the row of a projection is
  what some sequence of changes from the finalized part of the chain made of nothing, however
  many passes ran and wherever they stopped; after a pass that succeeded on a contract without
  gap, a replayable row is exactly \<open>project\<close> of the finalized chain.
\<close>

section \<open>A successful pass has the whole chain\<close>

lemma ordered_events_unique:
  assumes "ordered_events xs" "ordered_events ys" "set xs = set ys"
  shows "xs = ys"
proof -
  have "map event_pos xs = map event_pos ys"
    using assms by (intro sorted_distinct_set_unique) (auto simp: strict_sorted_iff)
  moreover have "inj_on event_pos (set xs \<union> set ys)"
    using assms by (auto simp: strict_sorted_iff distinct_map)
  ultimately show ?thesis by (rule map_inj_on)
qed

lemma pulled_state_effect: "evs \<noteq> [] \<Longrightarrow> pass_effect cid evs db (pulled_state cid evs db)"
  by (auto simp: pass_effect_def pulled_state_def with_cursor_def intro: exI [of _ "length evs"])

lemma stored_is_chain:
  assumes inv: "world_inv name_of w" and gap: "\<not> w_gap w cid"
    and evs: "evs = filter (\<lambda>e. cursor_of (w_db w) cid < event_pos e) (w_log w cid)" "evs \<noteq> []"
  shows "set (stored (pulled_state cid evs (w_db w)) cid) = set (w_log w cid)"
proof -
  let ?db = "pulled_state cid evs (w_db w)"
  have log: "ordered_events (w_log w cid)" using inv by (simp add: world_inv_def log_ok_def)
  have "world_inv name_of (w\<lparr> w_head := w_head w, w_db := ?db \<rparr>)"
    by (rule world_inv_pass [OF inv pulled_state_effect [OF evs(2)]]) (simp add: evs(1))
  then have "contract_inv (w_log w cid) (w_orphan w cid) (w_gap w cid) (stored ?db cid) (cursor_of ?db cid)"
    by (simp add: world_inv_def)
  with gap have sound: "set (stored ?db cid) \<subseteq> set (w_log w cid)"
    and complete: "\<And>e. e \<in> set (w_log w cid) \<Longrightarrow> event_pos e \<le> cursor_of ?db cid \<Longrightarrow> e \<in> set (stored ?db cid)"
    by (auto simp: contract_inv_def)
  have last: "last evs \<in> set evs" using evs(2) by simp
  have "event_pos e \<le> cursor_of ?db cid" if e: "e \<in> set (w_log w cid)" for e
  proof (cases "cursor_of (w_db w) cid < event_pos e")
    case True
    with e have "e \<in> set evs" by (simp add: evs(1))
    moreover have "ordered_events evs" unfolding evs(1) by (rule ordered_events_filter [OF log])
    ultimately have "event_pos e \<le> event_pos (last evs)" by (intro ordered_events_last)
    then show ?thesis by (simp add: pulled_state_def)
  next
    case False
    have "\<forall>x \<in> set evs. cursor_of (w_db w) cid < event_pos x"
      unfolding evs(1) by simp
    with last have "cursor_of (w_db w) cid < event_pos (last evs)" by blast
    with False show ?thesis by (simp add: pulled_state_def)
  qed
  with sound complete show ?thesis by blast
qed

lemma finalized_is_chain:
  assumes inv: "world_inv name_of w" and gap: "\<not> w_gap w cid"
    and evs: "evs = filter (\<lambda>e. cursor_of (w_db w) cid < event_pos e) (w_log w cid)" "evs \<noteq> []"
  shows "finalized (pulled_state cid evs (w_db w)) cid fl =
    filter (\<lambda>e. ledger_sequence e \<le> fl) (w_log w cid)"
proof -
  let ?db = "pulled_state cid evs (w_db w)"
  have log: "ordered_events (w_log w cid)" using inv by (simp add: world_inv_def log_ok_def)
  have inv': "world_inv name_of (w\<lparr> w_head := w_head w, w_db := ?db \<rparr>)"
    by (rule world_inv_pass [OF inv pulled_state_effect [OF evs(2)]]) (simp add: evs(1))
  have sets: "set (finalized ?db cid fl) = set (filter (\<lambda>e. ledger_sequence e \<le> fl) (w_log w cid))"
    using stored_is_chain [OF inv gap evs] by (auto simp: set_finalized)
  have "ordered_events (finalized ?db cid fl)"
    by (rule finalized_ordered) (use inv' in \<open>simp add: world_inv_def\<close>)
  then show ?thesis
    by (rule ordered_events_unique [OF _ ordered_events_filter [OF log] sets])
qed

text \<open>What is finalized is on the chain at or below the floor, also with gaps and orphans.\<close>

lemma finalized_on_chain:
  assumes inv: "world_inv name_of w"
    and evs: "evs = filter (\<lambda>e. cursor_of (w_db w) cid < event_pos e) (w_log w cid)" "evs \<noteq> []"
    and orphan: "\<forall>l. w_orphan w cid = Some l \<longrightarrow> fl < l"
  shows "set (finalized (pulled_state cid evs (w_db w)) cid fl) \<subseteq>
    set (filter (\<lambda>e. ledger_sequence e \<le> fl) (w_log w cid))"
proof
  let ?db = "pulled_state cid evs (w_db w)"
  fix e assume "e \<in> set (finalized ?db cid fl)"
  then have e: "e \<in> set (stored ?db cid)" "ledger_sequence e \<le> fl" by (simp_all add: set_finalized)
  have "world_inv name_of (w\<lparr> w_head := w_head w, w_db := ?db \<rparr>)"
    by (rule world_inv_pass [OF inv pulled_state_effect [OF evs(2)]]) (simp add: evs(1))
  then have "contract_inv (w_log w cid) (w_orphan w cid) (w_gap w cid) (stored ?db cid) (cursor_of ?db cid)"
    by (simp add: world_inv_def)
  moreover have "case w_orphan w cid of None \<Rightarrow> True | Some l \<Rightarrow> ledger_sequence e < l"
    using e(2) orphan by (auto split: option.split)
  ultimately have "e \<in> set (w_log w cid)"
    using e(1) unfolding contract_inv_def by blast
  with e show "e \<in> set (filter (\<lambda>e. ledger_sequence e \<le> fl) (w_log w cid))" by simp
qed

lemma finalized_named:
  assumes "world_inv name_of w" and "evs = filter (\<lambda>e. cursor_of (w_db w) cid < event_pos e) (w_log w cid)"
    and "evs \<noteq> []" and "e \<in> set (finalized (pulled_state cid evs (w_db w)) cid fl)"
  shows "contract_name e = name_of cid"
proof -
  have "world_inv name_of (w\<lparr> w_head := w_head w, w_db := pulled_state cid evs (w_db w) \<rparr>)"
    by (rule world_inv_pass [OF assms(1) pulled_state_effect [OF assms(3)]]) (simp add: assms(2))
  with assms(4) show ?thesis
    by (auto simp: world_inv_def set_finalized stored_def)
qed

section \<open>Row by row in a world\<close>

lemma before_projections_tables: "before_projections cid evs db db' \<Longrightarrow> same_tables db db'"
  by (auto simp: before_projections_def same_tables_def pulled_state_def)

text \<open>The changes the finalized part of a chain makes to a row.\<close>

definition chain_changes ::
  "(chain_event \<Rightarrow> 'c option) \<Rightarrow> ('c \<Rightarrow> string) \<Rightarrow> string \<Rightarrow> int \<Rightarrow> chain_event list \<Rightarrow> 'c list" where
  "chain_changes change target k fl log =
    changes_for change target k (filter (\<lambda>e. ledger_sequence e \<le> fl) log)"

lemma chain_changes_mono:
  "set log \<subseteq> set log' \<Longrightarrow> fl \<le> fl' \<Longrightarrow>
    set (chain_changes change target k fl log) \<subseteq> set (chain_changes change target k fl' log')"
  unfolding chain_changes_def set_changes_for by fastforce

text \<open>After a successful pass that stored something, the store holds exactly the contract's chain.\<close>

lemma pass_stores_chain:
  assumes inv: "world_inv name_of w" and gap: "\<not> w_gap w cid"
    and pull: "answers (w_log w) pull cid (cursor_of (w_db w) cid)"
    and run: "ingest text_of uuid pull head cid (w_db w) = (Inr n, db')" and n: "0 < n"
  shows "set (stored db' cid) = set (w_log w cid)"
  using run
proof (cases rule: ingest_cases)
  case (idle evs)
  with n show ?thesis by auto
next
  case (projecting evs h b s)
  have evs: "evs = filter (\<lambda>e. cursor_of (w_db w) cid < event_pos e) (w_log w cid)"
    using pull projecting(1) by (simp add: answers_def)
  have "indexed_events db' = indexed_events (pulled_state cid evs (w_db w))"
    using apply_finalized_store [OF projecting(4)] by simp
  then have "stored db' cid = stored (pulled_state cid evs (w_db w)) cid" by (rule stored_eqI)
  with stored_is_chain [OF inv gap evs projecting(2)] show ?thesis by simp
qed

context row_projection
begin

text \<open>The row has been made by changes from the finalized chain, some of them repeatedly.\<close>

definition explained :: "world \<Rightarrow> string \<Rightarrow> bool" where
  "explained w cid \<longleftrightarrow> (\<forall>k. \<exists>p. view (w_db w) k = fold upd p None
    \<and> set p \<subseteq> set (chain_changes change target k (w_head w - TRUSTED_CUTOFF) (w_log w cid)))"

lemma explained_step:
  assumes "explained w cid" and "\<And>k. view (w_db w') k = view (w_db w) k"
    and "\<And>k. set (chain_changes change target k (w_head w - TRUSTED_CUTOFF) (w_log w cid))
      \<subseteq> set (chain_changes change target k (w_head w' - TRUSTED_CUTOFF) (w_log w' cid))"
  shows "explained w' cid"
  using assms unfolding explained_def by (metis subset_trans)

text \<open>What any pass does to the rows of any projection.\<close>

lemma pass_rows:
  assumes inv: "world_inv name_of w"
    and pull: "answers (w_log w) pull cid (cursor_of (w_db w) cid)"
    and head: "head = Inr h \<or> (\<exists>err. head = Inl err)"
    and orphan: "\<forall>l. w_orphan w cid = Some l \<longrightarrow> h - TRUSTED_CUTOFF < l"
    and run: "ingest text_of uuid pull head cid (w_db w) = (r, db')"
  obtains evs where "\<And>k. view db' k = fold upd (changes_for change target k evs) (view (w_db w) k)"
    and "set evs \<subseteq> set (filter (\<lambda>e. ledger_sequence e \<le> h - TRUSTED_CUTOFF) (w_log w cid))"
    and "\<And>e. e \<in> set evs \<Longrightarrow> contract_name e = name_of cid"
    and "\<And>n. r = Inr n \<Longrightarrow> 0 < n \<Longrightarrow> \<not> w_gap w cid \<Longrightarrow>
      evs = filter (\<lambda>e. ledger_sequence e \<le> h - TRUSTED_CUTOFF) (w_log w cid)"
  using run
proof (cases rule: ingest_cases)
  case (idle evs)
  then have "view db' k = view (w_db w) k" for k
    by (intro view_tables before_projections_tables)
  then show thesis using idle(2) by (intro that [of "[]"]) auto
next
  case (projecting evs h' b s)
  then have h: "h' = h" using head by auto
  have evs: "evs = filter (\<lambda>e. cursor_of (w_db w) cid < event_pos e) (w_log w cid)"
    using pull projecting(1) by (simp add: answers_def)
  let ?F = "finalized (pulled_state cid evs (w_db w)) cid (h - TRUSTED_CUTOFF)"
  from run_prefix [OF projecting(4)] obtain j where
    j: "\<And>k. view db' k = fold upd (changes_for change target k (take j ?F))
        (view ((pulled_state cid evs (w_db w))\<lparr>budget := b\<rparr>) k)"
    and all: "\<And>m. s = Inr m \<Longrightarrow> take j ?F = ?F"
    unfolding h by blast
  have same: "view ((pulled_state cid evs (w_db w))\<lparr>budget := b\<rparr>) k = view (w_db w) k" for k
    by (rule view_tables) (simp add: same_tables_def pulled_state_def)
  show thesis
  proof (rule that [of "take j ?F"])
    show "view db' k = fold upd (changes_for change target k (take j ?F)) (view (w_db w) k)" for k
      by (simp only: j same)
    show "set (take j ?F) \<subseteq> set (filter (\<lambda>e. ledger_sequence e \<le> h - TRUSTED_CUTOFF) (w_log w cid))"
      using finalized_on_chain [OF inv evs projecting(2) orphan] by (auto dest: in_set_takeD)
    show "contract_name e = name_of cid" if "e \<in> set (take j ?F)" for e
      using finalized_named [OF inv evs projecting(2)] that by (auto dest: in_set_takeD)
    show "take j ?F = filter (\<lambda>e. ledger_sequence e \<le> h - TRUSTED_CUTOFF) (w_log w cid)"
      if "r = Inr n" "\<not> w_gap w cid" for n
      using projecting(5) [OF that(1)] all finalized_is_chain [OF inv that(2) evs projecting(2)]
      by auto
  qed
qed

text \<open>A pass on any database and any source changes only rows that final events name.\<close>

lemma pass_gate:
  assumes head: "head = Inr h \<or> (\<exists>err. head = Inl err)"
    and pulled: "pulled = (case pull cid (cursor_of db cid) of Inr evs \<Rightarrow> evs | Inl err \<Rightarrow> [])"
    and quiet: "changes_for change target k
      (filter (\<lambda>e. ledger_sequence e \<le> h - TRUSTED_CUTOFF) (stored db cid @ pulled)) = []"
  shows "view (snd (ingest text_of uuid pull head cid db)) k = view db k"
proof -
  obtain r db' where run: "ingest text_of uuid pull head cid db = (r, db')" by fastforce
  from run have "view db' k = view db k"
  proof (cases rule: ingest_cases)
    case (idle evs)
    then show ?thesis by (intro view_tables before_projections_tables)
  next
    case (projecting evs h' b s)
    then have h: "h' = h" and evs: "pulled = evs" using head pulled by auto
    let ?F = "finalized (pulled_state cid evs db) cid (h - TRUSTED_CUTOFF)"
    from run_prefix [OF projecting(4)] obtain j where
      j: "view db' k = fold upd (changes_for change target k (take j ?F))
          (view ((pulled_state cid evs db)\<lparr>budget := b\<rparr>) k)"
      unfolding h by blast
    have same: "view ((pulled_state cid evs db)\<lparr>budget := b\<rparr>) k = view db k"
      by (rule view_tables) (simp add: same_tables_def pulled_state_def)
    have "set ?F \<subseteq> set (filter (\<lambda>e. ledger_sequence e \<le> h - TRUSTED_CUTOFF) (stored db cid @ evs))"
      using insert_events_sub [of evs "indexed_events db"] by (auto simp: set_finalized stored_def pulled_state_def)
    then have "set (changes_for change target k (take j ?F)) \<subseteq> set (changes_for change target k
        (filter (\<lambda>e. ledger_sequence e \<le> h - TRUSTED_CUTOFF) (stored db cid @ pulled)))"
      unfolding set_changes_for evs by (blast dest: in_set_takeD)
    then show ?thesis unfolding quiet using j same by simp
  qed
  with run show ?thesis by simp
qed

lemma changes_other_contract:
  "\<forall>e \<in> set evs. contract_name e \<noteq> contract \<Longrightarrow> changes_for change target k evs = []"
  by (induction evs) (auto simp: changes_for_Cons dest: change_contract split: option.split)

lemma explained_pass:
  assumes ex: "explained w cid" and inv: "world_inv name_of w"
    and only: "\<forall>c. name_of c = contract \<longrightarrow> c = cid"
    and pull: "answers (w_log w) pull c (cursor_of (w_db w) c)"
    and mono: "w_head w \<le> h" and head: "head = Inr h \<or> (\<exists>err. head = Inl err)"
    and orphan: "\<forall>l. w_orphan w c = Some l \<longrightarrow> h - TRUSTED_CUTOFF < l"
  shows "explained (w\<lparr> w_head := h, w_db := snd (ingest text_of uuid pull head c (w_db w)) \<rparr>) cid"
proof -
  let ?db' = "snd (ingest text_of uuid pull head c (w_db w))"
  obtain evs where rows: "\<And>k. view ?db' k = fold upd (changes_for change target k evs) (view (w_db w) k)"
    and sub: "set evs \<subseteq> set (filter (\<lambda>e. ledger_sequence e \<le> h - TRUSTED_CUTOFF) (w_log w c))"
    and named: "\<And>e. e \<in> set evs \<Longrightarrow> contract_name e = name_of c"
    by (rule pass_rows [OF inv pull head orphan, of text_of
        "fst (ingest text_of uuid pull head c (w_db w))" ?db']) simp_all
  show ?thesis
    unfolding explained_def
  proof (intro allI)
    fix k
    let ?C = "\<lambda>h. chain_changes change target k (h - TRUSTED_CUTOFF) (w_log w cid)"
    obtain p where p: "view (w_db w) k = fold upd p None" "set p \<subseteq> set (?C (w_head w))"
      using ex unfolding explained_def by blast
    have grow: "set (?C (w_head w)) \<subseteq> set (?C h)"
      by (rule chain_changes_mono) (simp_all add: mono)
    have new: "set (changes_for change target k evs) \<subseteq> set (?C h)"
    proof (cases "c = cid")
      case True
      with sub show ?thesis by (auto simp: chain_changes_def set_changes_for)
    next
      case False
      with only named show ?thesis by (subst changes_other_contract) auto
    qed
    let ?w' = "w\<lparr> w_head := h, w_db := ?db' \<rparr>"
    have "view (w_db ?w') k = fold upd (p @ changes_for change target k evs) None"
      by (simp add: rows p(1))
    moreover have "set (p @ changes_for change target k evs) \<subseteq>
        set (chain_changes change target k (w_head ?w' - TRUSTED_CUTOFF) (w_log ?w' cid))"
      using p(2) grow new by auto
    ultimately show "\<exists>p. view (w_db ?w') k = fold upd p None
        \<and> set p \<subseteq> set (chain_changes change target k (w_head ?w' - TRUSTED_CUTOFF) (w_log ?w' cid))"
      by blast
  qed
qed

lemma chain_changes_reorg:
  "fl < l \<Longrightarrow> chain_changes change target k fl (filter (\<lambda>e. ledger_sequence e < l) log) =
    chain_changes change target k fl log"
proof -
  assume "fl < l"
  then have "filter (\<lambda>e. ledger_sequence e \<le> fl) (filter (\<lambda>e. ledger_sequence e < l) log) =
      filter (\<lambda>e. ledger_sequence e \<le> fl) log"
    by (auto intro!: filter_cong)
  then show ?thesis by (simp only: chain_changes_def)
qed

lemma rewind_view: "rewind c l db = (r, db') \<Longrightarrow> view db' k = view db k"
  using rewind_effect [of c l db] by (auto intro: view_tables)

lemma reach_explained:
  assumes "world_reach text_of uuid name_of frame w"
    and only: "\<forall>c. name_of c = contract \<longrightarrow> c = cid"
    and frame: "\<forall>db db' k. frame db db' \<longrightarrow> view db' k = view db k"
  shows "explained w cid"
  using assms(1)
proof (induction rule: world_reach.induct)
  case (genesis h)
  show ?case
    unfolding explained_def by (intro allI exI [of _ "[]"]) (simp add: view_empty)
next
  case (emit w e c)
  show ?case
    by (rule explained_step [OF emit.IH], simp, rule chain_changes_mono) auto
next
  case (faults w b a)
  show ?case
    by (rule explained_step [OF faults.IH], rule view_tables) (simp_all add: same_tables_def)
next
  case (pass w pull c h head)
  show ?case
    by (rule explained_pass [OF pass.IH world_reach_inv [OF pass.hyps(1)] only pass.hyps(2-5)])
next
  case (rest w db')
  show ?case
    by (rule explained_step [OF rest.IH]) (use frame rest.hyps(2) in simp_all)
next
  case (reorg w l c)
  show ?case
    by (rule explained_step [OF reorg.IH])
      (use reorg.hyps(2) in \<open>simp_all add: chain_changes_reorg\<close>)
next
  case (rewound w c l db')
  show ?case
    by (rule explained_step [OF rewound.IH]) (simp_all add: rewind_view [OF rewound.hyps(2)])
next
  case (rewind_failed w c l err db')
  show ?case
    by (rule explained_step [OF rewind_failed.IH]) (simp_all add: rewind_view [OF rewind_failed.hyps(2)])
qed

text \<open>A successful pass over a contract without gap: a whole run on top of what was there.\<close>

lemma successful_pass:
  assumes reach: "world_reach text_of uuid name_of frame w"
    and only: "\<forall>c. name_of c = contract \<longrightarrow> c = cid"
    and frame: "\<forall>db db' k. frame db db' \<longrightarrow> view db' k = view db k"
    and pull: "answers (w_log w) pull cid (cursor_of (w_db w) cid)"
    and gap: "\<not> w_gap w cid" and head: "w_head w \<le> h"
    and run: "ingest text_of uuid pull (Inr h) cid (w_db w) = (Inr n, db')" and n: "0 < n"
  obtains p where "view db' k =
      fold upd (chain_changes change target k (h - TRUSTED_CUTOFF) (w_log w cid)) (fold upd p None)"
    and "set p \<subseteq> set (chain_changes change target k (h - TRUSTED_CUTOFF) (w_log w cid))"
proof -
  have inv: "world_inv name_of w" using reach by (rule world_reach_inv)
  have no_orphan: "w_orphan w cid = None" using inv gap by (simp add: world_inv_def contract_inv_def)
  have "explained w cid" by (rule reach_explained [OF reach only frame])
  then obtain p where p: "view (w_db w) k = fold upd p None"
    "set p \<subseteq> set (chain_changes change target k (w_head w - TRUSTED_CUTOFF) (w_log w cid))"
    unfolding explained_def by blast
  obtain evs where "view db' k = fold upd (changes_for change target k evs) (view (w_db w) k)"
    and "evs = filter (\<lambda>e. ledger_sequence e \<le> h - TRUSTED_CUTOFF) (w_log w cid)"
    by (rule pass_rows [OF inv pull _ _ run]) (use no_orphan n gap in auto)
  then have "view db' k =
      fold upd (chain_changes change target k (h - TRUSTED_CUTOFF) (w_log w cid)) (fold upd p None)"
    by (simp add: chain_changes_def p(1))
  moreover have "set p \<subseteq> set (chain_changes change target k (h - TRUSTED_CUTOFF) (w_log w cid))"
    using p(2) chain_changes_mono [of "w_log w cid" "w_log w cid" "w_head w - TRUSTED_CUTOFF"
        "h - TRUSTED_CUTOFF" change target k] head by auto
  ultimately show thesis by (rule that)
qed

end

context resetting_projection
begin

lemma core_of_chain:
  assumes "world_reach text_of uuid name_of frame w" "\<forall>c. name_of c = contract \<longrightarrow> c = cid"
    "\<forall>db db' k. frame db db' \<longrightarrow> view db' k = view db k"
    "answers (w_log w) pull cid (cursor_of (w_db w) cid)" "\<not> w_gap w cid" "w_head w \<le> h"
    "ingest text_of uuid pull (Inr h) cid (w_db w) = (Inr n, db')" "0 < n"
    and once: "created_once creates (chain_changes change target k (h - TRUSTED_CUTOFF) (w_log w cid))"
  shows "map_option core (view db' k) = map_option core
    (project change target upd k (filter (\<lambda>e. ledger_sequence e \<le> h - TRUSTED_CUTOFF) (w_log w cid)))"
proof -
  obtain p where p: "view db' k =
      fold upd (chain_changes change target k (h - TRUSTED_CUTOFF) (w_log w cid)) (fold upd p None)"
    "set p \<subseteq> set (chain_changes change target k (h - TRUSTED_CUTOFF) (w_log w cid))"
    by (rule successful_pass [OF assms(1-8)])
  show ?thesis
    unfolding p(1) core_second_pass [OF once p(2)] by (simp add: project_def chain_changes_def)
qed

end

context replayable_projection
begin

lemma row_of_chain:
  assumes "world_reach text_of uuid name_of frame w" "\<forall>c. name_of c = contract \<longrightarrow> c = cid"
    "\<forall>db db' k. frame db db' \<longrightarrow> view db' k = view db k"
    "answers (w_log w) pull cid (cursor_of (w_db w) cid)" "\<not> w_gap w cid" "w_head w \<le> h"
    "ingest text_of uuid pull (Inr h) cid (w_db w) = (Inr n, db')" "0 < n"
    and once: "created_once creates (chain_changes change target k (h - TRUSTED_CUTOFF) (w_log w cid))"
  shows "view db' k =
    project change target upd k (filter (\<lambda>e. ledger_sequence e \<le> h - TRUSTED_CUTOFF) (w_log w cid))"
proof -
  obtain p where p: "view db' k =
      fold upd (chain_changes change target k (h - TRUSTED_CUTOFF) (w_log w cid)) (fold upd p None)"
    "set p \<subseteq> set (chain_changes change target k (h - TRUSTED_CUTOFF) (w_log w cid))"
    by (rule successful_pass [OF assms(1-8)])
  show ?thesis
    unfolding p(1) pass_absorbed [OF once p(2)] by (simp add: project_def chain_changes_def)
qed

end

end
