(* ===== verification/Samples.thy ===== *)
theory Samples
  imports World_Projections
begin

text \<open>
  Concrete events and chains: the inputs at which the theorems about the indexer are applied.
  The payloads follow the layouts of the contracts' events in \<open>tests/indexer.rs\<close>.
\<close>

definition sample_event :: "string \<Rightarrow> string \<Rightarrow> int \<Rightarrow> json list \<Rightarrow> chain_event" where
  "sample_event contract event ledger payload =
    \<lparr> contract_id = ''C'', contract_name = contract, event_name = event, ledger_sequence = ledger,
      operation_index = 0, event_index = 0, topics = JArr [JStr ''GA''], data = JArr payload \<rparr>"

definition sample_verification :: "chain_event list" where
  "sample_verification =
    [sample_event ''verification'' ''VerificationCreated'' 5
       [JInt 1, JStr ''b'', JStr ''s'', JStr ''h'', JStr ''i'', JInt 5],
     sample_event ''verification'' ''VerificationRevoked'' 6 [JInt 1, JStr ''s'', JStr ''i'', JInt 6]]"

definition sample_financing :: "chain_event list" where
  "sample_financing =
    [sample_event ''financing'' ''FinancingCreated'' 5
       [JInt 1, JStr ''f'', JStr ''b'', JInt 100, JInt 0, JInt 1, JArr [], JNull, JInt 0,
        JBool False, JNull],
     sample_event ''financing'' ''FinancingDeposited'' 6 [JInt 1, JInt 40, JInt 6]]"

definition sample_escrow :: "chain_event list" where
  "sample_escrow =
    [sample_event ''escrow'' ''EscrowCreated'' 5
       [JInt 1, JStr ''d'', JStr ''b'', JInt 100, JInt 0, JNull, JNull, JStr ''r'', JInt 5, JInt 5],
     sample_event ''escrow'' ''EscrowReleased'' 6 [JInt 1, JStr ''b'', JInt 50, JInt 6]]"

definition sample_identity :: "chain_event list" where
  "sample_identity =
    [sample_event ''identity'' ''FarmerRegistered'' 5 [],
     sample_event ''identity'' ''VerificationMarkerSet'' 6 [JInt 1]]"

text \<open>A source whose chain is \<open>log\<close> for the contract \<open>C\<close>, and the world in which it was emitted.\<close>

definition sample_log :: "chain_event list \<Rightarrow> string \<Rightarrow> chain_event list" where
  "sample_log log cid = (if cid = ''C'' then log else [])"

definition sample_pull ::
  "chain_event list \<Rightarrow> string \<Rightarrow> cursor \<Rightarrow> chain_events_error + chain_event list" where
  "sample_pull log cid cur = Inr (filter (\<lambda>e. is_after (event_pos e) cur) (sample_log log cid))"

definition sample_world :: "chain_event list \<Rightarrow> world" where
  "sample_world log =
    \<lparr> w_log = sample_log log, w_head = 0, w_orphan = \<lambda>_. None, w_gap = \<lambda>_. False, w_db = empty_pg \<rparr>"

lemma sample_answers: "answers (sample_log log) (sample_pull log) cid cur"
  by (simp add: answers_def sample_pull_def)

lemma sample_reach_Nil: "world_reach text_of uuid name_of frame (sample_world [])"
proof -
  have "sample_log [] = (\<lambda>_. [])" by (simp add: sample_log_def fun_eq_iff)
  then show ?thesis
    unfolding sample_world_def by (metis world_reach.genesis)
qed

lemma sample_reach_snoc:
  assumes "world_reach text_of uuid name_of frame (sample_world log)"
    and "contract_id e = ''C''" "contract_name e = name_of ''C''" "START < event_pos e"
    and "\<forall>x \<in> set log. event_pos x < event_pos e"
  shows "world_reach text_of uuid name_of frame (sample_world (log @ [e]))"
proof -
  have "sample_log (log @ [e]) = (sample_log log)(''C'' := sample_log log ''C'' @ [e])"
    by (simp add: sample_log_def fun_eq_iff)
  then have "sample_world (log @ [e]) = (sample_world log)
      \<lparr> w_log := (w_log (sample_world log))(''C'' := w_log (sample_world log) ''C'' @ [e]) \<rparr>"
    by (simp add: sample_world_def)
  then show ?thesis
    using world_reach.emit [OF assms(1-4)] assms(5) by (simp add: sample_world_def sample_log_def)
qed

lemma sample_reach:
  "\<forall>e \<in> set log. contract_id e = ''C'' \<and> contract_name e = name_of ''C'' \<and> START < event_pos e \<Longrightarrow>
    ordered_events log \<Longrightarrow> world_reach text_of uuid name_of frame (sample_world log)"
proof (induction log rule: rev_induct)
  case (snoc e log)
  have "world_reach text_of uuid name_of frame (sample_world log)"
    by (rule snoc.IH) (use snoc.prems in \<open>simp_all add: sorted_wrt_append\<close>)
  then show ?case
    by (rule sample_reach_snoc) (use snoc.prems in \<open>simp_all add: sorted_wrt_append\<close>)
qed (rule sample_reach_Nil)

lemma samples_ordered:
  "ordered_events sample_verification" "ordered_events sample_financing"
  "ordered_events sample_escrow" "ordered_events sample_identity"
  by (simp_all add: sample_verification_def sample_financing_def sample_escrow_def
      sample_identity_def sample_event_def event_pos_def cursor_less_iff)

text \<open>A contract name for the sample contract only.\<close>

definition named_only :: "string \<Rightarrow> string \<Rightarrow> string" where
  "named_only nm cid = (if cid = ''C'' then nm else [])"

definition sample_pass :: "chain_event list \<Rightarrow> int \<Rightarrow> pg \<Rightarrow> (chain_events_error + nat) \<times> pg" where
  "sample_pass log h db =
    ingest (\<lambda>_. ''error'') (\<lambda>_. None) (sample_pull log) (Inr h) ''C'' db"

lemma samples_reach:
  "world_reach t u (named_only ''verification'') frame (sample_world sample_verification)"
  "world_reach t u (named_only ''financing'') frame (sample_world sample_financing)"
  "world_reach t u (named_only ''escrow'') frame (sample_world sample_escrow)"
  "world_reach t u (named_only ''identity'') frame (sample_world sample_identity)"
  by (rule sample_reach [OF _ samples_ordered(1)] sample_reach [OF _ samples_ordered(2)]
      sample_reach [OF _ samples_ordered(3)] sample_reach [OF _ samples_ordered(4)],
    simp add: sample_verification_def sample_financing_def sample_escrow_def sample_identity_def
      sample_event_def named_only_def event_pos_def cursor_less_iff START_def)+

text \<open>Each sample chain is ingested completely at head 20.\<close>

lemma sample_passes:
  "\<exists>db. sample_pass sample_verification 20 empty_pg = (Inr 2, db)"
  "\<exists>db. sample_pass sample_financing 20 empty_pg = (Inr 2, db)"
  "\<exists>db. sample_pass sample_escrow 20 empty_pg = (Inr 2, db)"
  "\<exists>db. sample_pass sample_identity 20 empty_pg = (Inr 2, db)"
proof -
  have "fst (sample_pass sample_verification 20 empty_pg) = Inr 2" by code_simp
  then show "\<exists>db. sample_pass sample_verification 20 empty_pg = (Inr 2, db)" by (metis prod.collapse)
  have "fst (sample_pass sample_financing 20 empty_pg) = Inr 2" by code_simp
  then show "\<exists>db. sample_pass sample_financing 20 empty_pg = (Inr 2, db)" by (metis prod.collapse)
  have "fst (sample_pass sample_escrow 20 empty_pg) = Inr 2" by code_simp
  then show "\<exists>db. sample_pass sample_escrow 20 empty_pg = (Inr 2, db)" by (metis prod.collapse)
  have "fst (sample_pass sample_identity 20 empty_pg) = Inr 2" by code_simp
  then show "\<exists>db. sample_pass sample_identity 20 empty_pg = (Inr 2, db)" by (metis prod.collapse)
qed

end
