(* ===== verification/Indexer_Properties.thy ===== *)
theory Indexer_Properties
  imports Samples
begin

text \<open>
  The properties of the indexer in its environment: no event is lost at or before the cursor, and
  the projection rows are what the finalized chain describes.
\<close>

text \<open>
  C1. No event is lost. In every world the indexer can reach, whatever crashed and whenever, a
  contract whose last re-org or broken rewind has been repaired has in its event store only
  events of its chain, and all of those at or before its resume cursor.
\<close>

theorem no_event_lost:
  assumes "world_reach text_of uuid name_of frame w" and "\<not> w_gap w cid"
  shows "set (stored (w_db w) cid) \<subseteq> set (w_log w cid)
    \<and> {e \<in> set (w_log w cid). event_pos e \<le> cursor_of (w_db w) cid} \<subseteq> set (stored (w_db w) cid)"
  using world_reach_inv [OF assms(1)] assms(2)
  by (auto simp: world_inv_def contract_inv_def)

text \<open>The pass of the witness breaks after the first of two events has been stored.\<close>

lemma sample_crash:
  "world_reach t u (named_only ''verification'') frame
    ((sample_world sample_verification)\<lparr> w_db := empty_pg\<lparr>budget := Some 2, ack_lost := False\<rparr> \<rparr>)"
  using world_reach.faults [OF samples_reach(1) [of t u frame], where b = "Some 2" and a = False]
  by (simp add: sample_world_def)

lemma sample_crash_pass:
  "world_reach (\<lambda>_. ''error'') (\<lambda>_. None) (named_only ''verification'') frame
    ((sample_world sample_verification)\<lparr> w_head := 20,
       w_db := snd (sample_pass sample_verification 20 (empty_pg\<lparr>budget := Some 2, ack_lost := False\<rparr>)) \<rparr>)"
  using world_reach.pass [OF sample_crash [of "\<lambda>_. ''error''" "\<lambda>_. None" frame], where pull = "sample_pull sample_verification"
      and cid = "''C''" and h = 20 and head = "Inr 20"]
  by (simp add: sample_world_def sample_answers sample_pass_def)

theorem no_event_lost_witness:
  "\<exists>db. db = snd (sample_pass sample_verification 20 (empty_pg\<lparr>budget := Some 2, ack_lost := False\<rparr>))
    \<and> length (stored db ''C'') = 1 \<and> cursor_of db ''C'' = START
    \<and> set (stored db ''C'') \<subseteq> set sample_verification
    \<and> {e \<in> set sample_verification. event_pos e \<le> cursor_of db ''C''} \<subseteq> set (stored db ''C'')"
proof -
  let ?db = "snd (sample_pass sample_verification 20 (empty_pg\<lparr>budget := Some 2, ack_lost := False\<rparr>))"
  have "length (stored ?db ''C'') = 1 \<and> cursor_of ?db ''C'' = START" by code_simp
  with no_event_lost [OF sample_crash_pass, of "''C''"] show ?thesis
    by (simp add: sample_world_def sample_log_def)
qed

section \<open>The projections are a function of the finalized chain\<close>

lemmas sample_defs =
  sample_world_def sample_answers sample_log_def sample_pass_def named_only_def chain_changes_def

text \<open>
  C2. Replay exactness of the verification projection. In every reachable world, after a pass
  that succeeded with new events on a contract without gap, the row of a verification is what the
  events of the chain at or below the finality floor describe when they are folded once, in
  order, over nothing, although every event was applied many times and some passes broke.
  The chain issues a verification before it revokes it, and once; the contract is the only
  one configured under its name; nothing else writes the table.
\<close>

theorem verification_row_of_chain:
  assumes "world_reach text_of uuid name_of
      (\<lambda>db db'. verification_projection db' = verification_projection db) w"
    and "\<forall>c. name_of c = ''verification'' \<longrightarrow> c = cid"
    and "answers (w_log w) pull cid (cursor_of (w_db w) cid)" and "\<not> w_gap w cid" and "w_head w \<le> h"
    and "ingest text_of uuid pull (Inr h) cid (w_db w) = (Inr n, db')" and "0 < n"
    and "created_once verification_creates
      (chain_changes verification_change verification_target k (h - TRUSTED_CUTOFF) (w_log w cid))"
  shows "verification_view db' k =
    project verification_change verification_target (verification_upd uuid) k
      (filter (\<lambda>e. ledger_sequence e \<le> h - TRUSTED_CUTOFF) (w_log w cid))"
  by (rule verification.row_of_chain [OF assms(1,2) _ assms(3-8)]) (simp add: verification_view_def)

theorem verification_row_of_chain_witness:
  "\<exists>db. sample_pass sample_verification 20 empty_pg = (Inr 2, db)
    \<and> verification_view db ''va:verification:000000000001'' =
      project verification_change verification_target (verification_upd (\<lambda>_. None))
        ''va:verification:000000000001'' sample_verification
    \<and> map_option ver_revoked_ledger (verification_view db ''va:verification:000000000001'') = Some (Some 6)"
proof -
  let ?k = "''va:verification:000000000001''"
  obtain db where db: "sample_pass sample_verification 20 empty_pg = (Inr 2, db)"
    using sample_passes(1) by blast
  have floor: "filter (\<lambda>e. ledger_sequence e \<le> 20 - TRUSTED_CUTOFF) sample_verification = sample_verification"
    by (simp add: sample_verification_def sample_event_def TRUSTED_CUTOFF_def)
  have once: "created_once verification_creates
      (changes_for verification_change verification_target ?k sample_verification)"
    by code_simp
  have "map_option ver_revoked_ledger (project verification_change verification_target
      (verification_upd (\<lambda>_. None)) ?k sample_verification) = Some (Some 6)"
    by code_simp
  moreover have "verification_view db ?k = project verification_change verification_target
      (verification_upd (\<lambda>_. None)) ?k sample_verification"
    using verification_row_of_chain [OF samples_reach(1), where cid = "''C''" and h = 20
        and pull = "sample_pull sample_verification" and n = 2 and db' = db and k = ?k
        and text_of = "\<lambda>_. ''error''" and uuid = "\<lambda>_. None"]
      db once floor
    by (simp add: sample_defs split: if_splits)
  ultimately show ?thesis using db by metis
qed

text \<open>
  C3. Replay exactness of the financing projection: the drawn amount and every other column of a
  financing row is what the finalized chain describes, not what the repeated passes added up.
\<close>

theorem financing_row_of_chain:
  assumes "world_reach text_of uuid name_of
      (\<lambda>db db'. financing_projection db' = financing_projection db) w"
    and "\<forall>c. name_of c = ''financing'' \<longrightarrow> c = cid"
    and "answers (w_log w) pull cid (cursor_of (w_db w) cid)" and "\<not> w_gap w cid" and "w_head w \<le> h"
    and "ingest text_of uuid pull (Inr h) cid (w_db w) = (Inr n, db')" and "0 < n"
    and "created_once financing_creates
      (chain_changes financing_change financing_target k (h - TRUSTED_CUTOFF) (w_log w cid))"
  shows "financing_view db' k =
    project financing_change financing_target financing_upd k
      (filter (\<lambda>e. ledger_sequence e \<le> h - TRUSTED_CUTOFF) (w_log w cid))"
  by (rule financing.row_of_chain [OF assms(1,2) _ assms(3-8)]) (simp add: financing_view_def)

theorem financing_row_of_chain_witness:
  "\<exists>db. sample_pass sample_financing 20 empty_pg = (Inr 2, db)
    \<and> map_option fin_drawn_amount (financing_view db ''va:financing:000000000001'') = Some (40)"
proof -
  let ?k = "''va:financing:000000000001''"
  obtain db where db: "sample_pass sample_financing 20 empty_pg = (Inr 2, db)"
    using sample_passes(2) by blast
  have floor: "filter (\<lambda>e. ledger_sequence e \<le> 20 - TRUSTED_CUTOFF) sample_financing = sample_financing"
    by (simp add: sample_financing_def sample_event_def TRUSTED_CUTOFF_def)
  have once: "created_once financing_creates
      (changes_for financing_change financing_target ?k sample_financing)"
    by code_simp
  have "map_option fin_drawn_amount (project financing_change financing_target
      financing_upd ?k sample_financing) = Some (40)"
    by code_simp
  with financing_row_of_chain [OF samples_reach(2), where cid = "''C''" and h = 20
        and pull = "sample_pull sample_financing" and n = 2 and db' = db and k = ?k
        and text_of = "\<lambda>_. ''error''" and uuid = "\<lambda>_. None"]
  have "map_option fin_drawn_amount (financing_view db ?k) = Some (40)"
    using db once floor by (simp add: sample_defs split: if_splits)
  with db show ?thesis by blast
qed

text \<open>
  C4. Replay exactness of the identity projection: as long as only the indexer writes
  \<open>farmers\<close>, the row of a farmer is what the finalized chain describes; the markers appended by
  earlier passes do not pile up.
\<close>

theorem identity_row_of_chain:
  assumes "world_reach text_of uuid name_of
      (\<lambda>db db'. farmers db' = farmers db) w"
    and "\<forall>c. name_of c = ''identity'' \<longrightarrow> c = cid"
    and "answers (w_log w) pull cid (cursor_of (w_db w) cid)" and "\<not> w_gap w cid" and "w_head w \<le> h"
    and "ingest text_of uuid pull (Inr h) cid (w_db w) = (Inr n, db')" and "0 < n"
    and "created_once identity_creates
      (chain_changes identity_change identity_target k (h - TRUSTED_CUTOFF) (w_log w cid))"
  shows "identity_view db' k =
    project identity_change identity_target identity_upd k
      (filter (\<lambda>e. ledger_sequence e \<le> h - TRUSTED_CUTOFF) (w_log w cid))"
  by (rule identity.row_of_chain [OF assms(1,2) _ assms(3-8)]) (simp add: identity_view_def)

theorem identity_row_of_chain_witness:
  "\<exists>db. sample_pass sample_identity 20 empty_pg = (Inr 2, db)
    \<and> map_option fa_verification_markers (identity_view db ''GA'') = Some (JArr [JInt 1])"
proof -
  let ?k = "''GA''"
  obtain db where db: "sample_pass sample_identity 20 empty_pg = (Inr 2, db)"
    using sample_passes(4) by blast
  have floor: "filter (\<lambda>e. ledger_sequence e \<le> 20 - TRUSTED_CUTOFF) sample_identity = sample_identity"
    by (simp add: sample_identity_def sample_event_def TRUSTED_CUTOFF_def)
  have once: "created_once identity_creates
      (changes_for identity_change identity_target ?k sample_identity)"
    by code_simp
  have "map_option fa_verification_markers (project identity_change identity_target
      identity_upd ?k sample_identity) = Some (JArr [JInt 1])"
    by code_simp
  with identity_row_of_chain [OF samples_reach(4), where cid = "''C''" and h = 20
        and pull = "sample_pull sample_identity" and n = 2 and db' = db and k = ?k
        and text_of = "\<lambda>_. ''error''" and uuid = "\<lambda>_. None"]
  have "map_option fa_verification_markers (identity_view db ?k) = Some (JArr [JInt 1])"
    using db once floor by (simp add: sample_defs split: if_splits)
  with db show ?thesis by blast
qed

text \<open>
  C5. The escrow projection is replay-exact in its core: every column but \<open>released_amount\<close> and
  \<open>status\<close> is what the finalized chain describes.
\<close>

theorem escrow_core_of_chain:
  assumes "world_reach text_of uuid name_of
      (\<lambda>db db'. escrow_projection db' = escrow_projection db) w"
    and "\<forall>c. name_of c = ''escrow'' \<longrightarrow> c = cid"
    and "answers (w_log w) pull cid (cursor_of (w_db w) cid)" and "\<not> w_gap w cid" and "w_head w \<le> h"
    and "ingest text_of uuid pull (Inr h) cid (w_db w) = (Inr n, db')" and "0 < n"
    and "created_once escrow_creates
      (chain_changes escrow_change escrow_target k (h - TRUSTED_CUTOFF) (w_log w cid))"
  shows "map_option escrow_core (escrow_view db' k) =
    map_option escrow_core
    (project escrow_change escrow_target (escrow_upd uuid) k
      (filter (\<lambda>e. ledger_sequence e \<le> h - TRUSTED_CUTOFF) (w_log w cid)))"
  by (rule escrow.core_of_chain [OF assms(1,2) _ assms(3-8)]) (simp add: escrow_view_def)

theorem escrow_core_of_chain_witness:
  "\<exists>db. sample_pass sample_escrow 20 empty_pg = (Inr 2, db)
    \<and> map_option (esc_amount \<circ> escrow_core) (escrow_view db ''va:escrow:000000000001'') = Some (100)"
proof -
  let ?k = "''va:escrow:000000000001''"
  obtain db where db: "sample_pass sample_escrow 20 empty_pg = (Inr 2, db)"
    using sample_passes(3) by blast
  have floor: "filter (\<lambda>e. ledger_sequence e \<le> 20 - TRUSTED_CUTOFF) sample_escrow = sample_escrow"
    by (simp add: sample_escrow_def sample_event_def TRUSTED_CUTOFF_def)
  have once: "created_once escrow_creates
      (changes_for escrow_change escrow_target ?k sample_escrow)"
    by code_simp
  have "map_option (esc_amount \<circ> escrow_core) (project escrow_change escrow_target
      (escrow_upd (\<lambda>_. None)) ?k sample_escrow) = Some (100)"
    by code_simp
  with escrow_core_of_chain [OF samples_reach(3), where cid = "''C''" and h = 20
        and pull = "sample_pull sample_escrow" and n = 2 and db' = db and k = ?k
        and text_of = "\<lambda>_. ''error''" and uuid = "\<lambda>_. None"]
  have "map_option (esc_amount \<circ> escrow_core) (escrow_view db ?k) = Some (100)"
    using db once floor by (simp add: sample_defs option.map_comp [symmetric] split: if_splits)
  with db show ?thesis by blast
qed

end
