(* ===== verification/Pass_Properties.thy ===== *)
theory Pass_Properties
  imports Samples
begin

text \<open>
  The properties of single passes and rewinds: what a healthy pass stores and returns, the
  finality gate, what blocks a pass, what repeated passes do to escrows, and re-orgs.
\<close>

section \<open>Storing\<close>

text \<open>What a pass does to the event store once it has pulled something, whatever its result.\<close>

lemma healthy_pass_effect:
  assumes "budget db = None" and "pull cid (cursor_of db cid) = Inr evs" and "evs \<noteq> []"
    and run: "ingest text_of uuid pull (Inr h) cid db = (r, db')"
  shows "indexed_events db' = insert_events evs (indexed_events db)
    \<and> (\<forall>c. cursor_of db' c = (if c = cid then event_pos (last evs) else cursor_of db c))"
proof -
  obtain s where ap: "apply_finalized text_of uuid (finalized (pulled_state cid evs db) cid (h - TRUSTED_CUTOFF)) 0
      (pulled_state cid evs db) = (s, db')"
    using run
    unfolding ingest_healthy [where pull = pull and db = db and cid = cid and evs = evs, OF assms(1-3)]
    by (auto simp: and_then_apply split: prod.splits sum.splits)
  have "cursor_of (db\<lparr>indexed_events := t\<rparr>) c = cursor_of db c" for c t
    by (simp add: cursor_of_def)
  then show ?thesis
    using apply_finalized_store [OF ap] cursor_of_eqI [of db' "pulled_state cid evs db"]
    by (simp add: pulled_state_def)
qed

text \<open>
  A pass that fails nowhere, on a source with new events, stores every pulled event that was
  not there, keeps all that was, moves the cursor of its contract to the last event pulled and
  no other cursor, and returns the number of events pulled.
\<close>

theorem healthy_pass_stores:
  assumes "budget db = None" and "pull cid (cursor_of db cid) = Inr evs" and "evs \<noteq> []"
    and run: "ingest text_of uuid pull (Inr h) cid db = (Inr n, db')"
  shows "n = length evs
    \<and> natural_key ` set (indexed_events db') = natural_key ` (set (indexed_events db) \<union> set evs)
    \<and> set (indexed_events db) \<subseteq> set (indexed_events db')
    \<and> (\<forall>c. cursor_of db' c = (if c = cid then event_pos (last evs) else cursor_of db c))"
proof -
  have "n = length evs"
    using run
    unfolding ingest_healthy [where pull = pull and db = db and cid = cid and evs = evs, OF assms(1-3)]
    by (auto simp: and_then_apply split: prod.splits sum.splits)
  moreover from healthy_pass_effect [where pull = pull, OF assms(1-3) run]
  have ev: "indexed_events db' = insert_events evs (indexed_events db)"
    and "\<forall>c. cursor_of db' c = (if c = cid then event_pos (last evs) else cursor_of db c)" by simp_all
  moreover have "natural_key ` set (indexed_events db') = natural_key ` (set (indexed_events db) \<union> set evs)"
    unfolding ev
    using insert_events_keys [of evs "indexed_events db"] insert_events_mono [of "indexed_events db" evs]
      insert_events_sub [of evs "indexed_events db"] by blast
  ultimately show ?thesis
    using insert_events_mono [of "indexed_events db" evs] by (simp add: ev)
qed

theorem healthy_pass_stores_witness:
  "\<exists>db. sample_pass sample_escrow 20 empty_pg = (Inr 2, db)
    \<and> natural_key ` set (indexed_events db) = natural_key ` set sample_escrow
    \<and> cursor_of db ''C'' = Cursor 6 0 0"
proof -
  obtain db where db: "sample_pass sample_escrow 20 empty_pg = (Inr 2, db)"
    using sample_passes(3) by blast
  have "sample_pull sample_escrow ''C'' (cursor_of empty_pg ''C'') = Inr sample_escrow" by code_simp
  from healthy_pass_stores [OF _ this _ db [unfolded sample_pass_def]] db show ?thesis
    by (simp add: empty_pg_def sample_escrow_def sample_event_def event_pos_def)
qed

lemma insert_events_appends:
  "\<exists>new. insert_events evs t = t @ new \<and> natural_key ` set new \<inter> natural_key ` set t = {}
    \<and> distinct (map natural_key new) \<and> set new \<subseteq> set evs"
proof (induction evs arbitrary: t)
  case (Cons e evs)
  show ?case
  proof (cases "natural_key e \<in> natural_key ` set t")
    case True
    then have "insert_event e t = t" by (simp add: insert_event_def)
    with Cons [of t] show ?thesis by auto
  next
    case False
    obtain new where "insert_events evs (t @ [e]) = (t @ [e]) @ new"
      "natural_key ` set new \<inter> natural_key ` set (t @ [e]) = {}"
      "distinct (map natural_key new)" "set new \<subseteq> set evs"
      using Cons [of "t @ [e]"] by blast
    moreover have "insert_event e t = t @ [e]" using False by (simp add: insert_event_def)
    ultimately show ?thesis using False by (intro exI [of _ "e # new"]) auto
  qed
qed simp

text \<open>
  The raw store is append-only under ingestion: whatever a pass does and wherever it breaks,
  no stored event is removed or replaced; what it adds comes from the source and has a new
  natural key. In particular a re-org is never noticed: an event of a new fork at the position
  of a stored event of the old one is dropped.
\<close>

theorem pass_appends_only:
  "\<exists>new. indexed_events (snd (ingest text_of uuid pull head cid db)) = indexed_events db @ new
    \<and> natural_key ` set new \<inter> natural_key ` set (indexed_events db) = {}
    \<and> distinct (map natural_key new)
    \<and> (\<forall>evs. pull cid (cursor_of db cid) = Inr evs \<longrightarrow> set new \<subseteq> set evs)"
proof -
  obtain evs where effect: "pass_effect cid evs db (snd (ingest text_of uuid pull head cid db))"
    and evs: "evs = [] \<or> pull cid (cursor_of db cid) = Inr evs"
    by (rule ingest_effect)
  then obtain j where "indexed_events (snd (ingest text_of uuid pull head cid db)) =
      insert_events (take j evs) (indexed_events db)"
    unfolding pass_effect_def by blast
  with insert_events_appends [of "take j evs" "indexed_events db"] evs set_take_subset [of j evs] show ?thesis
    by fastforce
qed

theorem pass_appends_only_witness:
  "\<exists>new. indexed_events (snd (sample_pass sample_escrow 20 empty_pg)) = [] @ new \<and> set new \<subseteq> set sample_escrow"
proof -
  have "sample_pull sample_escrow ''C'' (cursor_of empty_pg ''C'') = Inr sample_escrow" by code_simp
  with pass_appends_only [of "\<lambda>_. ''error''" "\<lambda>_. None" "sample_pull sample_escrow" "Inr 20" "''C''" empty_pg]
  show ?thesis by (auto simp: sample_pass_def empty_pg_def)
qed

section \<open>The finality gate\<close>

text \<open>
  C11. Finality gate. A pass that is told the head \<open>h\<close>, on any database and any source, also one that
  breaks halfway, leaves a row of any projection alone unless an event at or below \<open>h - 10\<close> names it
  that the contract had stored (whether it is still on the chain or not) or that the pass has
  pulled; an event above \<open>h - 10\<close> changes no row.
\<close>

theorem finality_gate:
  assumes "head = Inr h \<or> (\<exists>err. head = Inl err)"
    and "pulled = (case pull cid (cursor_of db cid) of Inr evs \<Rightarrow> evs | Inl err \<Rightarrow> [])"
    and "final = filter (\<lambda>e. ledger_sequence e \<le> h - 10) (stored db cid @ pulled)"
    and "(r, db') = ingest text_of uuid pull head cid db"
  shows "(changes_for verification_change verification_target k final = [] \<longrightarrow> verification_view db' k = verification_view db k)
    \<and> (changes_for escrow_change escrow_target k final = [] \<longrightarrow> escrow_view db' k = escrow_view db k)
    \<and> (changes_for financing_change financing_target k final = [] \<longrightarrow> financing_view db' k = financing_view db k)
    \<and> (changes_for identity_change identity_target k final = [] \<longrightarrow> identity_view db' k = identity_view db k)"
proof -
  have db': "db' = snd (ingest text_of uuid pull head cid db)" using assms(4) by (metis snd_conv)
  have final: "final = filter (\<lambda>e. ledger_sequence e \<le> h - TRUSTED_CUTOFF) (stored db cid @ pulled)"
    by (simp add: assms(3) TRUSTED_CUTOFF_def)
  note gates = verification.pass_gate escrow.pass_gate financing.pass_gate identity.pass_gate
  show ?thesis
    unfolding db' final
    by (intro conjI impI; rule gates [where h = h and pulled = pulled and pull = pull]; (rule assms(1,2) | assumption))
qed

theorem finality_gate_witness:
  "verification_view (snd (sample_pass sample_verification 12 empty_pg)) ''va:verification:000000000001'' = None
    \<and> length (indexed_events (snd (sample_pass sample_verification 12 empty_pg))) = 2"
proof -
  let ?k = "''va:verification:000000000001''"
  have pull: "sample_verification = (case sample_pull sample_verification ''C'' (cursor_of empty_pg ''C'') of
      Inr evs \<Rightarrow> evs | Inl err \<Rightarrow> [])"
    and quiet: "changes_for verification_change verification_target ?k
      (filter (\<lambda>e. ledger_sequence e \<le> 12 - 10) (stored empty_pg ''C'' @ sample_verification)) = []"
    by code_simp+
  have "(fst (sample_pass sample_verification 12 empty_pg), snd (sample_pass sample_verification 12 empty_pg)) =
      ingest (\<lambda>_. ''error'') (\<lambda>_. None) (sample_pull sample_verification) (Inr 12) ''C'' empty_pg"
    by (simp add: sample_pass_def)
  from finality_gate [OF _ pull refl this, of 12 ?k] quiet
  have "verification_view (snd (sample_pass sample_verification 12 empty_pg)) ?k = verification_view empty_pg ?k"
    by blast
  moreover have "length (indexed_events (snd (sample_pass sample_verification 12 empty_pg))) = 2"
    by code_simp
  ultimately show ?thesis by (simp add: verification.view_empty)
qed

section \<open>Passes that apply nothing\<close>

definition passes ::
  "(sqlx_error \<Rightarrow> string) \<Rightarrow> (string \<Rightarrow> string option) \<Rightarrow>
    (string \<Rightarrow> cursor \<Rightarrow> chain_events_error + chain_event list) \<Rightarrow> int list \<Rightarrow> string \<Rightarrow> pg \<Rightarrow> pg" where
  "passes text_of uuid pull heads cid db =
    fold (\<lambda>h db. snd (ingest text_of uuid pull (Inr h) cid db)) heads db"

text \<open>
  A pass that pulls nothing does nothing, whatever the head: the projections are not run. Any
  number of passes over a contract without new events leaves the database as it is, so stored
  events that have become final since stay unapplied until the contract emits another event.
\<close>

theorem quiet_contract_stalls:
  assumes "budget db = None" and "pull cid (cursor_of db cid) = Inr []"
  shows "passes text_of uuid pull heads cid db = db"
  unfolding passes_def by (induction heads) 
    (simp_all add: ingest_nothing_new [where db = db and pull = pull and cid = cid, OF assms])

theorem quiet_contract_stalls_witness:
  "verification_view
      (passes (\<lambda>_. ''error'') (\<lambda>_. None) (sample_pull sample_verification) [100, 1000, 10000] ''C''
        (snd (sample_pass sample_verification 12 empty_pg)))
      ''va:verification:000000000001'' = None
    \<and> map_option ver_revoked (verification_view (snd (sample_pass sample_verification 100 empty_pg))
        ''va:verification:000000000001'') = Some True"
proof -
  let ?db = "snd (sample_pass sample_verification 12 empty_pg)"
  have "budget ?db = None" and "sample_pull sample_verification ''C'' (cursor_of ?db ''C'') = Inr []"
    by code_simp+
  note stall = quiet_contract_stalls [where db = ?db and cid = "''C''" and pull = "sample_pull sample_verification", OF this, of "\<lambda>_. ''error''" "\<lambda>_. None" "[100, 1000, 10000]"]
  have "verification_view ?db ''va:verification:000000000001'' = None"
    and "map_option ver_revoked (verification_view (snd (sample_pass sample_verification 100 empty_pg))
        ''va:verification:000000000001'') = Some True"
    by code_simp+
  then show ?thesis unfolding stall by blast
qed

section \<open>Rounds\<close>

lemma indexer_round_append:
  "indexer_round text_of uuid (a @ b) db = indexer_round text_of uuid b (indexer_round text_of uuid a db)"
  by (induction a arbitrary: db) auto

text \<open>The passes of other contracts keep a contract's cursor, and no pass removes an event.\<close>

lemma round_of_others:
  "set (indexed_events db) \<subseteq> set (indexed_events (indexer_round text_of uuid jobs db))
    \<and> (cid \<notin> fst ` set jobs \<longrightarrow> cursor_of (indexer_round text_of uuid jobs db) cid = cursor_of db cid)"
proof (induction jobs arbitrary: db)
  case (Cons job jobs)
  obtain c pull head where job: "job = (c, pull, head)" using prod_cases3 by blast
  let ?db = "snd (ingest text_of uuid pull head c db)"
  obtain evs where "pass_effect c evs db ?db" by (rule ingest_effect)
  then obtain j where ev: "indexed_events ?db = insert_events (take j evs) (indexed_events db)"
    and cur: "indexer_cursors ?db = indexer_cursors db
      \<or> indexer_cursors ?db = indexer_cursors (with_cursor c (event_pos (last evs)) db)"
    unfolding pass_effect_def by blast
  have mono: "set (indexed_events db) \<subseteq> set (indexed_events ?db)"
    unfolding ev by (rule insert_events_mono)
  have "cursor_of ?db cid = cursor_of db cid" if "c \<noteq> cid"
    using cur cursor_of_eqI [of ?db db] cursor_of_eqI [of ?db "with_cursor c (event_pos (last evs)) db"] that
    by (auto simp: cursor_of_with_cursor)
  with Cons [of ?db] mono show ?case unfolding job by (simp, blast)
qed simp

text \<open>
  Later ticks of the indexer, each with the connection as it then is and the answers of the sources
  to the passes of its round.
\<close>

definition later_ticks ::
  "(sqlx_error \<Rightarrow> string) \<Rightarrow> (string \<Rightarrow> string option) \<Rightarrow>
    (nat option \<times> (string \<times> (string \<Rightarrow> cursor \<Rightarrow> chain_events_error + chain_event list)
      \<times> (chain_events_error + int)) list) list \<Rightarrow> pg \<Rightarrow> pg" where
  "later_ticks text_of uuid ticks db =
    fold (\<lambda>(connection, jobs) d. indexer_round text_of uuid jobs (d\<lparr>budget := connection\<rparr>)) ticks db"

lemma later_ticks_keep: "set (indexed_events db) \<subseteq> set (indexed_events (later_ticks text_of uuid ticks db))"
proof (induction ticks arbitrary: db)
  case (Cons tick_jobs ticks)
  obtain connection jobs where t: "tick_jobs = (connection, jobs)" by fastforce
  have "set (indexed_events db) \<subseteq> set (indexed_events (indexer_round text_of uuid jobs (db\<lparr>budget := connection\<rparr>)))"
    using round_of_others [of "db\<lparr>budget := connection\<rparr>" text_of uuid jobs "[]"] by simp
  also have "\<dots> \<subseteq> set (indexed_events (later_ticks text_of uuid (tick_jobs # ticks) db))"
    using Cons [of "indexer_round text_of uuid jobs (db\<lparr>budget := connection\<rparr>)"]
    by (simp add: t later_ticks_def)
  finally show ?case .
qed (simp add: later_ticks_def)

text \<open>The sources of a round answer events of the contract asked for, behind the cursor given.\<close>

definition answers_behind ::
  "(string \<times> (string \<Rightarrow> cursor \<Rightarrow> chain_events_error + chain_event list) \<times> (chain_events_error + int)) list \<Rightarrow> bool" where
  "answers_behind jobs \<longleftrightarrow>
    (\<forall>(c, pull, head) \<in> set jobs. \<forall>cur evs. pull c cur = Inr evs \<longrightarrow>
      (\<forall>x \<in> set evs. contract_id x = c \<and> is_after (event_pos x) cur))"

text \<open>An event at or before its contract's cursor that is not stored stays so.\<close>

lemma pass_leaves_behind:
  fixes text_of uuid head
  assumes "contract_id e = cid" and "e \<notin> set (indexed_events db)" and "event_pos e \<le> cursor_of db cid"
    and behind: "\<And>evs. pull c (cursor_of db c) = Inr evs \<Longrightarrow>
      \<forall>x \<in> set evs. contract_id x = c \<and> is_after (event_pos x) (cursor_of db c)"
  defines "db' \<equiv> snd (ingest text_of uuid pull head c db)"
  shows "e \<notin> set (indexed_events db') \<and> event_pos e \<le> cursor_of db' cid"
proof -
  obtain evs where "pass_effect c evs db db'" and evs: "evs = [] \<or> pull c (cursor_of db c) = Inr evs"
    unfolding db'_def by (rule ingest_effect)
  then obtain j where ev: "indexed_events db' = insert_events (take j evs) (indexed_events db)"
    and cur: "indexer_cursors db' = indexer_cursors db
      \<or> evs \<noteq> [] \<and> indexer_cursors db' = indexer_cursors (with_cursor c (event_pos (last evs)) db)"
    unfolding pass_effect_def by blast
  have x: "contract_id x = c \<and> cursor_of db c < event_pos x" if "x \<in> set evs" for x
    using evs behind that by auto
  have "e \<notin> set evs" using x [of e] assms(1,3) by auto
  then have "e \<notin> set (indexed_events db')"
    using insert_events_sub [of "take j evs" "indexed_events db"] assms(2) unfolding ev by (auto dest: in_set_takeD)
  moreover from cur have "event_pos e \<le> cursor_of db' cid"
  proof
    assume "indexer_cursors db' = indexer_cursors db"
    from cursor_of_eqI [OF this] assms(3) show ?thesis by simp
  next
    assume a: "evs \<noteq> [] \<and> indexer_cursors db' = indexer_cursors (with_cursor c (event_pos (last evs)) db)"
    then have "cursor_of db' cid = (if cid = c then event_pos (last evs) else cursor_of db cid)"
      using cursor_of_eqI [of db' "with_cursor c (event_pos (last evs)) db"] by (auto simp: cursor_of_with_cursor)
    moreover have "cursor_of db c < event_pos (last evs)" using x [of "last evs"] a by simp
    ultimately show ?thesis using assms(3) by auto
  qed
  ultimately show ?thesis ..
qed

lemma round_leaves_behind:
  assumes "contract_id e = cid" and "e \<notin> set (indexed_events db)" and "event_pos e \<le> cursor_of db cid"
    and "answers_behind jobs"
  shows "e \<notin> set (indexed_events (indexer_round text_of uuid jobs db))
    \<and> event_pos e \<le> cursor_of (indexer_round text_of uuid jobs db) cid"
  using assms(2-4)
proof (induction jobs arbitrary: db)
  case (Cons job jobs)
  obtain c pull head where job: "job = (c, pull, head)" using prod_cases3 by blast
  have "\<forall>x \<in> set evs. contract_id x = c \<and> is_after (event_pos x) (cursor_of db c)"
    if "pull c (cursor_of db c) = Inr evs" for evs
    using Cons.prems(3) that unfolding answers_behind_def job by fastforce
  from pass_leaves_behind [OF assms(1) Cons.prems(1,2) this, where text_of = text_of and uuid = uuid and head = head]
  show ?case using Cons.IH Cons.prems(3) by (simp add: job answers_behind_def)
qed simp

lemma ticks_leave_behind:
  assumes "contract_id e = cid" and "e \<notin> set (indexed_events db)" and "event_pos e \<le> cursor_of db cid"
    and "\<forall>(connection, jobs) \<in> set ticks. answers_behind jobs"
  shows "e \<notin> set (indexed_events (later_ticks text_of uuid ticks db))"
  using assms(2-4)
proof (induction ticks arbitrary: db)
  case (Cons tick_jobs ticks)
  obtain connection jobs where t: "tick_jobs = (connection, jobs)" by fastforce
  have "cursor_of (db\<lparr>budget := connection\<rparr>) cid = cursor_of db cid" by (simp add: cursor_of_def)
  with Cons.prems t round_leaves_behind [OF assms(1), of "db\<lparr>budget := connection\<rparr>" jobs text_of uuid]
  have "e \<notin> set (indexed_events (indexer_round text_of uuid jobs (db\<lparr>budget := connection\<rparr>)))"
    "event_pos e \<le> cursor_of (indexer_round text_of uuid jobs (db\<lparr>budget := connection\<rparr>)) cid" by auto
  from Cons.IH [OF this] Cons.prems(3) show ?case by (simp add: t later_ticks_def)
qed (simp add: later_ticks_def)

section \<open>Events that block\<close>

text \<open>The events \<open>apply_event\<close> knows by name and cannot decode.\<close>

definition malformed :: "chain_event \<Rightarrow> bool" where
  "malformed e \<longleftrightarrow>
    named ''verification'' ''VerificationCreated'' e \<and> decode_verification_created e = None
    \<or> named ''verification'' ''VerificationRevoked'' e \<and> decode_verification_revoked e = None
    \<or> named ''escrow'' ''EscrowCreated'' e \<and> decode_escrow_created e = None
    \<or> named ''escrow'' ''EscrowDeposited'' e \<and> decode_escrow_deposited e = None
    \<or> named ''escrow'' ''EscrowReleased'' e \<and> decode_escrow_released e = None
    \<or> named ''escrow'' ''EscrowRefunded'' e \<and> decode_escrow_refunded e = None
    \<or> named ''financing'' ''FinancingCreated'' e \<and> decode_financing_created e = None
    \<or> named ''financing'' ''FinancingDeposited'' e \<and> decode_financing_deposited e = None
    \<or> named ''financing'' ''FinancingReleased'' e \<and> decode_financing_released e = None
    \<or> named ''financing'' ''FinancingRefunded'' e \<and> decode_financing_refunded e = None
    \<or> contract_name e = ''identity''
      \<and> event_name e \<in> {''FarmerRegistered'', ''FarmerMetadataUpdated'', ''VerificationMarkerSet''}
      \<and> identity_topics e = None"

lemma malformed_fails: "malformed e \<Longrightarrow> \<exists>msg. apply_event uuid e = fail (Protocol msg)"
proof -
  have then_fail: "and_then (fail x) f = fail x" for x :: sqlx_error and f :: "unit \<Rightarrow> bool statement"
    by (simp add: and_then_def fun_eq_iff)
  show "malformed e \<Longrightarrow> \<exists>msg. apply_event uuid e = fail (Protocol msg)"
    unfolding malformed_def
    by (elim disjE conjE; force simp: apply_event_verification apply_event_escrow
        apply_event_financing apply_event_identity consume_def upsert_identity_farmer_def
        update_identity_metadata_def append_identity_marker_def then_fail)
qed

lemma apply_finalized_blocked:
  "malformed e \<Longrightarrow> \<exists>err. apply_finalized text_of uuid (xs @ e # ys) n db =
    (Inl err, snd (apply_finalized text_of uuid xs n db))"
proof (induction xs arbitrary: n db)
  case Nil
  then obtain msg where "apply_event uuid e = fail (Protocol msg)" using malformed_fails by blast
  then show ?case by (simp add: and_then_apply internal_apply)
next
  case (Cons x xs)
  then show ?case by (simp add: and_then_apply split: prod.split sum.split)
qed

text \<open>
  C35. One undecodable event blocks its contract. When the finalized events are \<open>before @ e # after\<close>
  where those before \<open>e\<close> are applied without an error and \<open>e\<close> has a known name and a payload its
  decoder rejects, the pass fails in the very state in which they have been applied, and nothing
  after them, although the cursor has moved on. And this repeats: after any later ticks, with
  whatever faults, every pass of the contract that pulls something and is told a head for which \<open>e\<close>
  is final fails as well (one that pulls nothing applies nothing).
\<close>

theorem malformed_event_blocks:
  assumes "budget db = None" and "pull cid (cursor_of db cid) = Inr evs" and "evs \<noteq> []"
    and "finalized (pulled_state cid evs db) cid (h - TRUSTED_CUTOFF) = before @ e # after"
    and "apply_finalized text_of uuid before 0 (pulled_state cid evs db) = (Inr n, db')"
    and "malformed e"
  shows "(\<exists>err. ingest text_of uuid pull (Inr h) cid db = (Inl err, db'))
    \<and> cursor_of db' cid = event_pos (last evs)
    \<and> (\<forall>ticks pull' evs' h' later. later = (later_ticks text_of uuid ticks db')\<lparr>budget := None\<rparr>
        \<and> pull' cid (cursor_of later cid) = Inr evs' \<and> evs' \<noteq> [] \<and> ledger_sequence e + 10 \<le> h' \<longrightarrow>
        (\<exists>err. fst (ingest text_of uuid pull' (Inr h') cid later) = Inl err))"
proof (intro conjI allI impI)
  obtain err where "apply_finalized text_of uuid (before @ e # after) 0 (pulled_state cid evs db) = (Inl err, db')"
    using apply_finalized_blocked [OF assms(6), of text_of uuid before after 0 "pulled_state cid evs db"] assms(5) by auto
  then show "\<exists>err. ingest text_of uuid pull (Inr h) cid db = (Inl err, db')"
    unfolding ingest_healthy [where pull = pull and db = db and cid = cid and evs = evs, OF assms(1-3)]
    by (simp add: assms(4) and_then_apply)
  note store = apply_finalized_store [OF assms(5)]
  then show "cursor_of db' cid = event_pos (last evs)"
    by (subst cursor_of_eqI [of db' "pulled_state cid evs db"]) (simp_all add: pulled_state_def)
  have "e \<in> set (finalized (pulled_state cid evs db) cid (h - TRUSTED_CUTOFF))" by (simp add: assms(4))
  then have e: "e \<in> set (indexed_events db')" "contract_id e = cid"
    using store by (simp_all add: set_finalized stored_def)
  fix ticks h' later evs'
    and pull' :: "string \<Rightarrow> cursor \<Rightarrow> chain_events_error + chain_event list"
  assume later: "later = (later_ticks text_of uuid ticks db')\<lparr>budget := None\<rparr>
      \<and> pull' cid (cursor_of later cid) = Inr evs' \<and> evs' \<noteq> [] \<and> ledger_sequence e + 10 \<le> h'"
  then have "e \<in> set (indexed_events (pulled_state cid evs' later))"
    using e(1) later_ticks_keep [of db' text_of uuid ticks] insert_events_mono [of "indexed_events later" evs']
    by (auto simp: pulled_state_def)
  then have "e \<in> set (finalized (pulled_state cid evs' later) cid (h' - TRUSTED_CUTOFF))"
    using e(2) later by (simp add: set_finalized stored_def TRUSTED_CUTOFF_def)
  then obtain xs ys where split: "finalized (pulled_state cid evs' later) cid (h' - TRUSTED_CUTOFF) = xs @ e # ys"
    by (auto dest: split_list)
  have pull: "pull' cid (cursor_of later cid) = Inr evs'" "evs' \<noteq> []" using later by blast+
  have "budget later = None" using later by simp
  obtain err where "apply_finalized text_of uuid (xs @ e # ys) 0 (pulled_state cid evs' later) =
      (Inl err, snd (apply_finalized text_of uuid xs 0 (pulled_state cid evs' later)))"
    using apply_finalized_blocked [OF assms(6)] by blast
  then show "\<exists>err. fst (ingest text_of uuid pull' (Inr h') cid later) = Inl err"
    unfolding ingest_healthy [where pull = pull' and db = later and cid = cid and evs = evs', OF \<open>budget later = None\<close> pull]
    by (simp add: split and_then_apply)
qed

text \<open>The deposit's amount does not fit in \<open>i64\<close>: the event source renders it as text.\<close>

definition sample_large_deposit :: chain_event where
  "sample_large_deposit = sample_event ''escrow'' ''EscrowDeposited'' 6
     [JInt 1, JStr ''d'', JStr ''9223372036854775808'', JInt 6]"

definition sample_blocked :: "chain_event list" where
  "sample_blocked = [hd sample_escrow, sample_large_deposit,
     sample_event ''escrow'' ''EscrowReleased'' 7 [JInt 1, JStr ''b'', JInt 50, JInt 7]]"

text \<open>The event at ledger 8 arrives later; the release at ledger 7 is still not applied.\<close>

theorem malformed_event_blocks_witness:
  "let (r, db) = sample_pass sample_blocked 20 empty_pg;
       later = sample_blocked @ [sample_event ''escrow'' ''EscrowNoted'' 8 []] in
     isl r
     \<and> map_option esc_released_amount (escrow_view db ''va:escrow:000000000001'') = Some 0
     \<and> cursor_of db ''C'' = Cursor 7 0 0
     \<and> isl (fst (sample_pass later 30 db))"
proof -
  have pull: "sample_pull sample_blocked ''C'' (cursor_of empty_pg ''C'') = Inr sample_blocked"
    by code_simp
  have fin: "finalized (pulled_state ''C'' sample_blocked empty_pg) ''C'' (20 - TRUSTED_CUTOFF) =
      [hd sample_escrow] @ sample_large_deposit # tl (tl sample_blocked)"
    by code_simp
  have bad: "malformed sample_large_deposit" by code_simp
  let ?run = "apply_finalized (\<lambda>_. ''error'') (\<lambda>_. None) [hd sample_escrow] 0 (pulled_state ''C'' sample_blocked empty_pg)"
  let ?later = "sample_blocked @ [sample_event ''escrow'' ''EscrowNoted'' 8 []]"
  have rest: "budget empty_pg = None" "sample_blocked \<noteq> []"
    "event_pos (last sample_blocked) = Cursor 7 0 0" "fst ?run = Inr 1"
    "map_option esc_released_amount (escrow_view (snd ?run) ''va:escrow:000000000001'') = Some 0"
    "ledger_sequence sample_large_deposit + 10 \<le> 30"
    by code_simp+
  have later: "budget (snd ?run) = None"
    "sample_pull ?later ''C'' (cursor_of (snd ?run) ''C'') = Inr [sample_event ''escrow'' ''EscrowNoted'' 8 []]"
    by code_simp+
  have run: "?run = (Inr 1, snd ?run)" using rest(4) by (simp add: prod_eq_iff)
  note blocked = malformed_event_blocks [where text_of = "\<lambda>_. ''error''" and uuid = "\<lambda>_. None"
      and pull = "sample_pull sample_blocked" and cid = "''C''" and db = empty_pg,
      OF rest(1) pull rest(2) fin run bad]
  then obtain err where first: "sample_pass sample_blocked 20 empty_pg = (Inl err, snd ?run)"
    unfolding sample_pass_def by blast
  have "snd ?run = (later_ticks (\<lambda>_. ''error'') (\<lambda>_. None) [] (snd ?run))\<lparr>budget := None\<rparr>"
    using later(1) by (simp add: later_ticks_def)
  with blocked later(2) rest(6) obtain err' where "fst (sample_pass ?later 30 (snd ?run)) = Inl err'"
    unfolding sample_pass_def by (metis list.distinct(1))
  moreover have "cursor_of (snd ?run) ''C'' = Cursor 7 0 0" using blocked rest(3) by simp
  ultimately show ?thesis using first rest(5) by (simp add: Let_def)
qed

text \<open>
  An event the code does not know, by contract or by name, is no error: \<open>apply_event\<close> reports
  that it consumed nothing and leaves the database alone, whatever its payload.
\<close>

theorem unknown_event_ignored:
  assumes "(contract_name e, event_name e) \<notin>
    {(''verification'', ''VerificationCreated''), (''verification'', ''VerificationRevoked''),
     (''escrow'', ''EscrowCreated''), (''escrow'', ''EscrowDeposited''), (''escrow'', ''EscrowReleased''),
     (''escrow'', ''EscrowRefunded''), (''identity'', ''FarmerRegistered''),
     (''identity'', ''FarmerMetadataUpdated''), (''identity'', ''VerificationMarkerSet''),
     (''financing'', ''FinancingCreated''), (''financing'', ''FinancingDeposited''),
     (''financing'', ''FinancingReleased''), (''financing'', ''FinancingRefunded'')}"
  shows "apply_event uuid e db = (Inr False, db)"
  using assms
  by (simp only: apply_event_def Let_def insert_iff empty_iff de_Morgan_disj simp_thms if_False ok_apply)

theorem unknown_event_ignored_witness:
  "apply_event (\<lambda>_. None) (sample_event ''escrow'' ''EscrowDisputed'' 3 []) empty_pg = (Inr False, empty_pg)"
  by (rule unknown_event_ignored) (simp add: sample_event_def)

text \<open>
  A pass over events that all can be decoded succeeds when nothing fails, for a contract of
  verifications or one the indexer does not know: it returns the number of events pulled.
\<close>

theorem verification_pass_succeeds:
  assumes "budget db = None" and "pull cid (cursor_of db cid) = Inr evs" and "evs \<noteq> []"
    and "\<forall>e \<in> set (finalized (pulled_state cid evs db) cid (h - TRUSTED_CUTOFF)).
      contract_name e \<notin> {''escrow'', ''financing'', ''identity''} \<and> \<not> malformed e"
  shows "fst (ingest text_of uuid pull (Inr h) cid db) = Inr (length evs)"
proof -
  have event: "\<exists>b d'. apply_event uuid e d = (Inr b, d') \<and> budget d' = None"
    if "contract_name e \<notin> {''escrow'', ''financing'', ''identity''}" "\<not> malformed e" "budget d = None" for e d
  proof (cases "contract_name e = ''verification''")
    case True
    with that show ?thesis
      unfolding apply_event_verification [OF True]
      by (auto simp: malformed_def consume_def upsert_verification_def revoke_verification_def
          Let_def and_then_apply)
  next
    case False
    with that show ?thesis by (intro exI [of _ False] exI [of _ d]) (simp add: apply_event_other)
  qed
  have run: "\<exists>m d'. apply_finalized text_of uuid es n d = (Inr m, d')"
    if "\<forall>e \<in> set es. contract_name e \<notin> {''escrow'', ''financing'', ''identity''} \<and> \<not> malformed e"
      "budget d = None" for es n d
    using that
  proof (induction es arbitrary: n d)
    case (Cons e es)
    then obtain b d' where "apply_event uuid e d = (Inr b, d')" "budget d' = None"
      using event [of e d] by auto
    with Cons show ?case by (simp add: and_then_apply internal_apply)
  qed simp
  obtain m d' where "apply_finalized text_of uuid (finalized (pulled_state cid evs db) cid (h - TRUSTED_CUTOFF)) 0
      (pulled_state cid evs db) = (Inr m, d')"
    using run [OF assms(4)] assms(1) by (force simp: pulled_state_def)
  then show ?thesis
    unfolding ingest_healthy [where pull = pull and db = db and cid = cid and evs = evs, OF assms(1-3)]
    by (simp add: and_then_apply)
qed

theorem verification_pass_succeeds_witness:
  "fst (sample_pass sample_verification 20 empty_pg) = Inr (length sample_verification)"
proof -
  have "budget empty_pg = None"
    and "sample_pull sample_verification ''C'' (cursor_of empty_pg ''C'') = Inr sample_verification"
    and "sample_verification \<noteq> []"
    and "\<forall>e \<in> set (finalized (pulled_state ''C'' sample_verification empty_pg) ''C'' (20 - TRUSTED_CUTOFF)).
      contract_name e \<notin> {''escrow'', ''financing'', ''identity''} \<and> \<not> malformed e"
    by code_simp+
  then show ?thesis
    unfolding sample_pass_def by (rule verification_pass_succeeds)
qed

section \<open>Escrow releases are counted on every pass\<close>

text \<open>
  C38. \<open>EscrowReleased\<close> accumulates over passes: after \<open>n\<close> complete runs over a finalized log in
  which an escrow is created and released once, the row shows \<open>n\<close> times the released amount.
\<close>

theorem escrow_release_counts_every_pass:
  assumes "changes_for escrow_change escrow_target k evs = [ECreated cid c, EReleased r]"
    and "escrow_view (dbs 0) k = None"
    and "\<forall>i < n. \<exists>m. apply_finalized text_of uuid evs 0 (dbs i) = (Inr m, dbs (Suc i))" and "0 < n"
  shows "map_option esc_released_amount (escrow_view (dbs n) k) = Some (int n * er_released_amount r)"
  using assms(3,4)
proof (induction n)
  case (Suc n)
  obtain m where "apply_finalized text_of uuid evs 0 (dbs n) = (Inr m, dbs (Suc n))"
    using Suc.prems by blast
  from escrow.run_law [OF this, of k]
  have step: "escrow_view (dbs (Suc n)) k =
      escrow_upd uuid (EReleased r) (escrow_upd uuid (ECreated cid c) (escrow_view (dbs n) k))"
    by (simp add: assms(1))
  show ?case
  proof (cases "n = 0")
    case True
    with step show ?thesis by (simp add: assms(2) new_escrow_row_def)
  next
    case False
    with Suc have "map_option esc_released_amount (escrow_view (dbs n) k) = Some (int n * er_released_amount r)"
      by simp
    with step show ?thesis by (auto simp: escrow_conflict_def algebra_simps)
  qed
qed simp

text \<open>Complete runs over the sample's log, one after the other.\<close>

definition sample_runs :: "nat \<Rightarrow> pg" where
  "sample_runs i =
    ((\<lambda>db. snd (apply_finalized (\<lambda>_. ''error'') (\<lambda>_. None) sample_escrow 0 db)) ^^ i) empty_pg"

theorem escrow_release_counts_every_pass_witness:
  "map_option esc_released_amount (escrow_view (sample_runs 3) ''va:escrow:000000000001'') = Some 150"
proof -
  have changes: "changes_for escrow_change escrow_target ''va:escrow:000000000001'' sample_escrow =
      [the (escrow_change (sample_escrow ! 0)), the (escrow_change (sample_escrow ! 1))]"
    by code_simp
  obtain c r where "the (escrow_change (sample_escrow ! 0)) = ECreated ''C'' c"
    "the (escrow_change (sample_escrow ! 1)) = EReleased r" and r: "er_released_amount r = 50"
  proof -
    show thesis
      by (rule that [of "the (decode_escrow_created (sample_escrow ! 0))"
            "the (decode_escrow_released (sample_escrow ! 1))"]) code_simp+
  qed
  with changes have changes': "changes_for escrow_change escrow_target ''va:escrow:000000000001''
      sample_escrow = [ECreated ''C'' c, EReleased r]" by simp
  have ok: "\<forall>i \<in> set [0, 1, 2]. fst (apply_finalized (\<lambda>_. ''error'') (\<lambda>_. None) sample_escrow 0 (sample_runs i)) = Inr 2"
    by code_simp
  have "\<exists>m. apply_finalized (\<lambda>_. ''error'') (\<lambda>_. None) sample_escrow 0 (sample_runs i) = (Inr m, sample_runs (Suc i))"
    if "i < 3" for i
  proof -
    have "i \<in> set [0, 1, 2]" using that by auto
    with ok show ?thesis
      by (intro exI [of _ 2] prod_eqI) (auto simp: sample_runs_def)
  qed
  with escrow_release_counts_every_pass [OF changes', of sample_runs 3 "\<lambda>_. ''error''" "\<lambda>_. None"] r
  show ?thesis by (simp add: sample_runs_def escrow.view_empty)
qed

section \<open>Every contract is served\<close>

text \<open>
  C8. A round serves every contract. If the connection holds up to its turn and its source answers the
  head and has new events, a contract has them stored and its cursor moved in every round, whatever
  the passes of the other contracts do, even if they fail, and even if its own projections fail;
  nothing that was stored is lost.
\<close>

theorem round_serves_every_contract:
  assumes "jobs = before @ (cid, pull, Inr h) # after" and "distinct (map fst jobs)"
    and "budget (indexer_round text_of uuid before db) = None"
    and "pull cid (cursor_of db cid) = Inr evs" and "evs \<noteq> []"
  shows "cursor_of (indexer_round text_of uuid jobs db) cid = event_pos (last evs)
    \<and> natural_key ` set evs \<subseteq> natural_key ` set (indexed_events (indexer_round text_of uuid jobs db))
    \<and> set (indexed_events db) \<subseteq> set (indexed_events (indexer_round text_of uuid jobs db))"
proof -
  let ?db1 = "indexer_round text_of uuid before db"
  let ?db2 = "snd (ingest text_of uuid pull (Inr h) cid ?db1)"
  have others: "cid \<notin> fst ` set before" "cid \<notin> fst ` set after" using assms(1,2) by auto
  have round: "indexer_round text_of uuid jobs db = indexer_round text_of uuid after ?db2"
    by (simp add: assms(1) indexer_round_append)
  have pull: "pull cid (cursor_of ?db1 cid) = Inr evs"
    using round_of_others [of db text_of uuid before cid] others assms(4) by simp
  have "ingest text_of uuid pull (Inr h) cid ?db1 = (fst (ingest text_of uuid pull (Inr h) cid ?db1), ?db2)" by simp
  from healthy_pass_effect [where pull = pull, OF assms(3) pull assms(5) this]
  have ev: "indexed_events ?db2 = insert_events evs (indexed_events ?db1)"
    and "cursor_of ?db2 cid = event_pos (last evs)" by simp_all
  moreover have "natural_key ` set evs \<subseteq> natural_key ` set (indexed_events ?db2)"
    "set (indexed_events ?db1) \<subseteq> set (indexed_events ?db2)"
    unfolding ev using insert_events_keys [of evs "indexed_events ?db1"] insert_events_mono [of "indexed_events ?db1" evs]
    by blast+
  moreover have "set (indexed_events ?db2) \<subseteq> set (indexed_events (indexer_round text_of uuid after ?db2))"
    "set (indexed_events db) \<subseteq> set (indexed_events ?db1)"
    "cursor_of (indexer_round text_of uuid after ?db2) cid = cursor_of ?db2 cid"
    using round_of_others [of db text_of uuid before cid] round_of_others [of ?db2 text_of uuid after cid] others
    by simp_all
  ultimately show ?thesis
    unfolding round by (metis image_mono order_trans)
qed

text \<open>A contract whose source is down goes first.\<close>

theorem round_serves_every_contract_witness:
  "let jobs = [(''D'', \<lambda>_ _. Inl (Unavailable ''down''), Inr 20), (''C'', sample_pull sample_verification, Inr 20)]
   in cursor_of (indexer_round (\<lambda>_. ''error'') (\<lambda>_. None) jobs empty_pg) ''C'' = Cursor 6 0 0"
proof -
  let ?down = "(''D'', \<lambda>_ _. Inl (Unavailable ''down''), Inr 20)"
  have h: "budget (indexer_round (\<lambda>_. ''error'') (\<lambda>_. None) [?down] empty_pg) = None"
    and pull: "sample_pull sample_verification ''C'' (cursor_of empty_pg ''C'') = Inr sample_verification"
    and last: "event_pos (last sample_verification) = Cursor 6 0 0" "sample_verification \<noteq> []"
    by code_simp+
  from round_serves_every_contract [where before = "[?down]" and after = "[]" and cid = "''C''"
      and pull = "sample_pull sample_verification" and h = 20, OF refl _ h pull last(2)] last(1)
  show ?thesis by (simp add: Let_def)
qed

end
