(* ===== verification/Rewind_Properties.thy ===== *)
theory Rewind_Properties
  imports Pass_Properties
begin

text \<open>
  The properties of \<open>rewind\<close>, the re-org operation, and end-to-end runs in which a repeated pass
  or a broken rewind leaves a wrong state.
\<close>

text \<open>
  C10. A rewind that fails nowhere removes exactly the stored events of its contract at or after
  the ledger, resets the contract's cursor to the very start (not to the ledger), and touches no
  other contract, no other cursor and no projection.
\<close>

theorem rewind_exact:
  assumes "budget db = None"
  shows "fst (rewind cid l db) = Inr ()
    \<and> stored (snd (rewind cid l db)) cid = filter (\<lambda>e. ledger_sequence e < l) (stored db cid)
    \<and> cursor_of (snd (rewind cid l db)) cid = START
    \<and> (\<forall>c. c \<noteq> cid \<longrightarrow> stored (snd (rewind cid l db)) c = stored db c
        \<and> cursor_of (snd (rewind cid l db)) c = cursor_of db c)
    \<and> same_tables db (snd (rewind cid l db))"
proof -
  let ?db = "db\<lparr>indexed_events :=
      filter (\<lambda>e. \<not> (contract_id e = cid \<and> ledger_sequence e \<ge> l)) (indexed_events db),
    indexer_cursors := filter (\<lambda>row. fst row \<noteq> cid) (indexer_cursors db)\<rparr>"
  have run: "rewind cid l db = (Inr (), ?db)" by (rule rewind_healthy [OF assms])
  have "stored ?db c = (if c = cid then filter (\<lambda>e. ledger_sequence e < l) (stored db c) else stored db c)" for c
    by (rule stored_deleted) simp
  moreover have "cursor_of ?db c = (if c = cid then START else cursor_of db c)" for c
    by (rule cursor_deleted) simp
  ultimately show ?thesis unfolding run by (simp add: same_tables_def)
qed

definition sample_ingested :: pg where
  "sample_ingested = snd (sample_pass sample_verification 20 empty_pg)"

theorem rewind_exact_witness:
  "map ledger_sequence (stored (snd (rewind ''C'' 6 sample_ingested)) ''C'') = [5]
    \<and> cursor_of (snd (rewind ''C'' 6 sample_ingested)) ''C'' = START
    \<and> same_tables sample_ingested (snd (rewind ''C'' 6 sample_ingested))"
proof -
  have "budget sample_ingested = None"
    and "map ledger_sequence (filter (\<lambda>e. ledger_sequence e < 6) (stored sample_ingested ''C'')) = [5]"
    by code_simp+
  with rewind_exact [of sample_ingested "''C''" 6] show ?thesis by simp
qed

text \<open>
  C9. A rewind repairs a re-org. In every reachable world, if the rewind succeeds from a ledger
  no later than the one the chain changed from, the next successful pass that pulls something
  leaves in the event store exactly the events of the new chain.
\<close>

theorem rewind_recovers:
  assumes reach: "world_reach text_of uuid name_of frame w"
    and rewound: "rewind cid l (w_db w) = (Inr (), db1)"
    and early: "\<forall>l'. w_orphan w cid = Some l' \<longrightarrow> l \<le> l'"
    and pull: "answers (w_log w) pull cid (cursor_of db1 cid)"
    and run: "ingest text_of uuid pull head cid db1 = (Inr n, db2)" and n: "0 < n"
  shows "set (stored db2 cid) = set (w_log w cid)"
proof -
  have clear: "clear_orphan l (w_orphan w cid) = None"
    using early by (auto simp: clear_orphan_def split: option.split)
  define w1 where "w1 = w\<lparr> w_orphan := (w_orphan w)(cid := clear_orphan l (w_orphan w cid)),
      w_gap := (w_gap w)(cid := clear_orphan l (w_orphan w cid) \<noteq> None), w_db := db1 \<rparr>"
  have inv: "world_inv name_of w1"
    unfolding w1_def by (rule world_inv_rewind(2) [OF world_reach_inv [OF reach] rewound refl])
  have w1: "\<not> w_gap w1 cid" "w_db w1 = db1" "w_log w1 = w_log w"
    by (simp_all add: w1_def clear)
  show ?thesis
    using pass_stores_chain [where w = w1 and cid = cid and pull = pull, OF inv w1(1), unfolded w1, OF pull run n] .
qed

text \<open>The sample chain after a re-org that dropped the revocation.\<close>

lemma sample_ingested_reach:
  "world_reach (\<lambda>_. ''error'') (\<lambda>_. None) (named_only ''verification'') frame
    ((sample_world sample_verification)\<lparr> w_head := 15,
       w_db := snd (sample_pass sample_verification 15 empty_pg) \<rparr>)"
  using world_reach.pass [OF samples_reach(1) [of "\<lambda>_. ''error''" "\<lambda>_. None" frame],
      where pull = "sample_pull sample_verification" and cid = "''C''" and h = 15 and head = "Inr 15"]
  by (simp add: sample_world_def sample_answers sample_pass_def)

lemma sample_reorg_reach:
  "world_reach (\<lambda>_. ''error'') (\<lambda>_. None) (named_only ''verification'') frame
    \<lparr> w_log = (sample_log sample_verification)(''C'' := [hd sample_verification]), w_head = 15,
      w_orphan = (\<lambda>_. None)(''C'' := Some 6), w_gap = (\<lambda>_. False)(''C'' := True),
      w_db = snd (sample_pass sample_verification 15 empty_pg) \<rparr>"
proof -
  have "filter (\<lambda>e. ledger_sequence e < 6) sample_verification = [hd sample_verification]"
    by (simp add: sample_verification_def sample_event_def)
  with world_reach.reorg [OF sample_ingested_reach [of frame], where l = 6 and cid = "''C''"] show ?thesis
    by (simp add: sample_world_def sample_log_def merge_orphan_def TRUSTED_CUTOFF_def)
qed

theorem rewind_recovers_witness:
  "\<exists>db1 db2. rewind ''C'' 6 (snd (sample_pass sample_verification 15 empty_pg)) = (Inr (), db1)
    \<and> sample_pass [hd sample_verification] 20 db1 = (Inr 1, db2)
    \<and> set (stored db2 ''C'') = {hd sample_verification}"
proof -
  let ?db = "snd (sample_pass sample_verification 15 empty_pg)"
  let ?db1 = "snd (rewind ''C'' 6 ?db)" let ?db2 = "snd (sample_pass [hd sample_verification] 20 ?db1)"
  have "fst (rewind ''C'' 6 ?db) = Inr ()" "fst (sample_pass [hd sample_verification] 20 ?db1) = Inr 1"
    by code_simp+
  then have runs: "rewind ''C'' 6 ?db = (Inr (), ?db1)" "sample_pass [hd sample_verification] 20 ?db1 = (Inr 1, ?db2)"
    by (simp_all add: prod_eq_iff)
  with rewind_recovers [OF sample_reorg_reach, where cid = "''C''" and l = 6 and n = 1
      and pull = "sample_pull [hd sample_verification]" and head = "Inr 20" and ?db1.0 = ?db1 and ?db2.0 = ?db2]
  have "set (stored ?db2 ''C'') = {hd sample_verification}"
    by (simp add: sample_pass_def answers_def sample_pull_def sample_log_def)
  with runs show ?thesis by blast
qed

text \<open>
  A rewind is two statements and no transaction: if the connection breaks between them, the
  events are gone and the cursor stays. Passes on the sound source then return zero and the
  event at ledger 6, at or before the cursor, is never stored again.
\<close>

theorem broken_rewind_loses_events:
  "let db = snd (rewind ''C'' 6 (sample_ingested\<lparr>budget := Some 1\<rparr>))\<lparr>budget := None\<rparr> in
     fst (rewind ''C'' 6 (sample_ingested\<lparr>budget := Some 1\<rparr>)) = Inl Io
     \<and> cursor_of db ''C'' = Cursor 6 0 0
     \<and> map ledger_sequence (stored db ''C'') = [5]
     \<and> map ledger_sequence (stored (passes (\<lambda>_. ''error'') (\<lambda>_. None) (sample_pull sample_verification)
          [21, 22, 23] ''C'' db) ''C'') = [5]"
  by code_simp

definition sample_escrow_later :: "chain_event list" where
  "sample_escrow_later = sample_escrow @ [sample_event ''escrow'' ''EscrowNoted'' 7 []]"

text \<open>
  The escrow bug end to end: a contract creates an escrow of 100 and releases 50 of it; a
  later event of another kind makes the indexer run a second pass. The chain describes 50
  released and an open escrow; the row says 100 released and \<open>released\<close>.
\<close>

theorem escrow_released_twice:
  "let db = snd (sample_pass sample_escrow_later 21 (snd (sample_pass sample_escrow 20 empty_pg)));
       k = ''va:escrow:000000000001'' in
     map_option (\<lambda>r. (esc_amount r, esc_released_amount r, esc_status r)) (escrow_view db k)
       = Some (100, 100, ''released'')
     \<and> map_option (\<lambda>r. (esc_amount r, esc_released_amount r, esc_status r))
         (project escrow_change escrow_target (escrow_upd (\<lambda>_. None)) k sample_escrow_later)
       = Some (100, 50, ''open'')"
  by code_simp

end
