(* ===== verification/Rpc_Values.thy ===== *)
theory Rpc_Values
  imports Event_Source Ids "HOL-Library.Word" "HOL-Library.Monad_Syntax"
begin

unbundle bit_operations_syntax

text \<open>
  \<open>src/indexer/rpc.rs\<close>, the decoding half: contract values to JSON, 128-bit amounts, addresses,
  and a raw RPC event to the event of the store. Machine integers keep their width. The XDR, strkey
  and hex encodings and the \<open>Debug\<close> texts belong to crates: they are the fields of \<open>xdr\<close>.
\<close>

section \<open>Contract values\<close>

datatype sc_address =
    Account string
  | ContractAddress string
  | MuxedAccount "64 word" string
  | OtherAddress string

datatype scval =
    ScBool bool
  | ScVoid
  | ScError string
  | ScU32 "32 word"
  | ScI32 "32 word"
  | ScU64 "64 word"
  | ScI64 "64 word"
  | ScTimepoint "64 word"
  | ScDuration "64 word"
  | ScU128 "64 word" "64 word"
  | ScI128 "64 word" "64 word"
  | ScU256 "64 word list"
  | ScI256 "64 word list"
  | ScBytes string
  | ScString string
  | ScSymbol string
  | ScVec "scval list option"
  | ScMap "(scval \<times> scval) list option"
  | ScAddress sc_address
  | ScContractInstance
  | ScLedgerKeyContractInstance
  | ScLedgerKeyNonce "64 word"

text \<open>
  \<open>ScError\<close> and \<open>OtherAddress\<close> carry their value's \<open>Debug\<close> text, the only thing the code takes
  of them. \<open>xd_text\<close> is \<open>to_string\<close> of an XDR string; \<open>xd_cursor\<close> is \<open>Event::parse_cursor\<close>
  (a \<open>u64\<close> and an \<open>i32\<close>) of the event's id.
\<close>

record xdr =
  xd_scval :: "string \<Rightarrow> scval option"
  xd_debug :: "scval \<Rightarrow> string"
  xd_text :: "string \<Rightarrow> string"
  xd_hex :: "string \<Rightarrow> string"
  xd_account :: "string \<Rightarrow> string"
  xd_contract :: "string \<Rightarrow> string"
  xd_muxed :: "64 word \<Rightarrow> string \<Rightarrow> string"
  xd_cursor :: "string \<Rightarrow> (64 word \<times> 32 word) option"

section \<open>Numbers\<close>

definition int_text :: "int \<Rightarrow> string" where
  "int_text v = (if v < 0 then CHR ''-'' # decimal (nat (- v)) else decimal (nat v))"

definition u128_of :: "64 word \<Rightarrow> 64 word \<Rightarrow> 128 word" where
  "u128_of hi lo = push_bit 64 (ucast hi) OR ucast lo"

definition i128_of :: "64 word \<Rightarrow> 64 word \<Rightarrow> 128 word" where
  "i128_of hi lo = push_bit 64 (scast hi) OR ucast lo"

definition u128_json :: "64 word \<Rightarrow> 64 word \<Rightarrow> json" where
  "u128_json hi lo =
    (let v = uint (u128_of hi lo) in if v < 2 ^ 64 then JInt v else JStr (int_text v))"

definition i128_json :: "64 word \<Rightarrow> 64 word \<Rightarrow> json" where
  "i128_json hi lo =
    (let v = sint (i128_of hi lo) in if in_i64 v then JInt v else JStr (int_text v))"

section \<open>Values to JSON\<close>

fun address_strkey :: "xdr \<Rightarrow> sc_address \<Rightarrow> string" where
  "address_strkey x (Account bytes) = xd_account x bytes"
| "address_strkey x (ContractAddress bytes) = xd_contract x bytes"
| "address_strkey x (MuxedAccount muxed_id bytes) = xd_muxed x muxed_id bytes"
| "address_strkey x (OtherAddress debug) = debug"

fun symbol_to_string :: "xdr \<Rightarrow> scval \<Rightarrow> string option" where
  "symbol_to_string x (ScSymbol s) = Some (xd_text x s)"
| "symbol_to_string x (ScString s) = Some (xd_text x s)"
| "symbol_to_string x _ = None"

definition map_key :: "xdr \<Rightarrow> scval \<Rightarrow> chain_events_error + string" where
  "map_key x key =
    (case key of
       ScSymbol s \<Rightarrow> Inr (xd_text x s)
     | ScString s \<Rightarrow> Inr (xd_text x s)
     | other \<Rightarrow> Inl (ChainInternal (''unexpected map key '' @ xd_debug x other)))"

text \<open>\<open>vec_to_json\<close> and \<open>map_to_json\<close> are the two loops of \<open>scval_to_json\<close>; both stop at an error.\<close>

fun scval_to_json :: "xdr \<Rightarrow> scval \<Rightarrow> chain_events_error + json"
  and vec_to_json :: "xdr \<Rightarrow> scval list \<Rightarrow> chain_events_error + json list"
  and map_to_json :: "xdr \<Rightarrow> (scval \<times> scval) list \<Rightarrow> (string \<times> json) list \<Rightarrow>
    chain_events_error + (string \<times> json) list" where
  "scval_to_json x (ScBool b) = Inr (JBool b)"
| "scval_to_json x ScVoid = Inr JNull"
| "scval_to_json x (ScError debug) = Inr (JStr debug)"
| "scval_to_json x (ScU32 u) = Inr (JInt (uint u))"
| "scval_to_json x (ScI32 i) = Inr (JInt (sint i))"
| "scval_to_json x (ScU64 u) = Inr (JInt (uint u))"
| "scval_to_json x (ScI64 i) = Inr (JInt (sint i))"
| "scval_to_json x (ScTimepoint t) = Inr (JInt (uint t))"
| "scval_to_json x (ScDuration d) = Inr (JInt (uint d))"
| "scval_to_json x (ScU128 hi lo) = Inr (u128_json hi lo)"
| "scval_to_json x (ScI128 hi lo) = Inr (i128_json hi lo)"
| "scval_to_json x (ScU256 parts) = Inr JNull"
| "scval_to_json x (ScI256 parts) = Inr JNull"
| "scval_to_json x (ScBytes b) = Inr (JStr (xd_hex x b))"
| "scval_to_json x (ScString s) = Inr (JStr (xd_text x s))"
| "scval_to_json x (ScSymbol s) = Inr (JStr (xd_text x s))"
| "scval_to_json x (ScVec None) = Inr JNull"
| "scval_to_json x (ScVec (Some v)) =
    (case vec_to_json x v of Inl e \<Rightarrow> Inl e | Inr js \<Rightarrow> Inr (JArr js))"
| "scval_to_json x (ScMap None) = Inr JNull"
| "scval_to_json x (ScMap (Some m)) =
    (case map_to_json x m [] of Inl e \<Rightarrow> Inl e | Inr obj \<Rightarrow> Inr (JObj obj))"
| "scval_to_json x (ScAddress a) = Inr (JStr (address_strkey x a))"
| "scval_to_json x ScContractInstance = Inr JNull"
| "scval_to_json x ScLedgerKeyContractInstance = Inr JNull"
| "scval_to_json x (ScLedgerKeyNonce n) = Inr JNull"
| "vec_to_json x [] = Inr []"
| "vec_to_json x (v # rest) =
    (case scval_to_json x v of
       Inl e \<Rightarrow> Inl e
     | Inr j \<Rightarrow> (case vec_to_json x rest of Inl e \<Rightarrow> Inl e | Inr js \<Rightarrow> Inr (j # js)))"
| "map_to_json x [] obj = Inr obj"
| "map_to_json x ((k, v) # rest) obj =
    (case map_key x k of
       Inl e \<Rightarrow> Inl e
     | Inr key \<Rightarrow>
        (case scval_to_json x v of
           Inl e \<Rightarrow> Inl e
         | Inr j \<Rightarrow> map_to_json x rest (bt_insert key j obj)))"

section \<open>Events\<close>

record rpc_event =
  re_contract_id :: string
  re_id :: string
  re_ledger :: nat
  re_topic :: "string list"
  re_value :: string

definition operation_of :: "64 word \<Rightarrow> int" where
  "operation_of toid = sint (ucast (toid AND 0xFFFFFFFF) :: 32 word)"

definition ledger_of :: "64 word \<Rightarrow> int" where
  "ledger_of toid = sint (drop_bit 32 toid)"

text \<open>\<open>Result::ok\<close>.\<close>

definition result_ok :: "'e + 'a \<Rightarrow> 'a option" where
  "result_ok r = (case r of Inl _ \<Rightarrow> None | Inr a \<Rightarrow> Some a)"

fun decode_topics :: "xdr \<Rightarrow> string list \<Rightarrow> json list option" where
  "decode_topics x [] = Some []"
| "decode_topics x (raw # rest) = do {
     scval \<leftarrow> xd_scval x raw;
     j \<leftarrow> result_ok (scval_to_json x scval);
     js \<leftarrow> decode_topics x rest;
     Some (j # js) }"

definition decode_rpc_event :: "xdr \<Rightarrow> rpc_event \<Rightarrow> string \<Rightarrow> chain_event option" where
  "decode_rpc_event x ev cname = do {
     first \<leftarrow> get_nth (re_topic ev) 0;
     event_scval \<leftarrow> xd_scval x first;
     ename \<leftarrow> symbol_to_string x event_scval;
     (toid, index) \<leftarrow> xd_cursor x (re_id ev);
     decoded_topics \<leftarrow> decode_topics x (drop 1 (re_topic ev));
     value_scval \<leftarrow> xd_scval x (re_value ev);
     d \<leftarrow> result_ok (scval_to_json x value_scval);
     Some \<lparr> contract_id = re_contract_id ev, contract_name = cname, event_name = ename,
            ledger_sequence = ledger_of toid, operation_index = operation_of toid,
            event_index = sint index, topics = JArr decoded_topics, data = d \<rparr> }"

section \<open>Lemmas\<close>

lemma result_ok_simps [simp]: "result_ok (Inr a) = Some a" "result_ok (Inl e) = None"
  by (simp_all add: result_ok_def)

lemma result_ok_Some [simp]: "result_ok r = Some a \<longleftrightarrow> r = Inr a"
  by (cases r) (auto simp: result_ok_def)

text \<open>The two halves of a 128-bit value do not overlap.\<close>

lemma halves_add:
  fixes a b :: int
  assumes "0 \<le> b" and "b < 2 ^ 64"
  shows "push_bit 64 a OR b = a * 2 ^ 64 + b"
proof -
  have "b = take_bit 64 b" using assms by (simp add: take_bit_int_eq_self)
  then have "bit (push_bit 64 a) n \<longrightarrow> \<not> bit b n" for n
    by (metis bit_push_bit_iff bit_take_bit_iff not_le)
  then have "push_bit 64 a + b = push_bit 64 a OR b"
    by (intro disjunctive_add) blast
  then show ?thesis by (simp add: push_bit_eq_mult)
qed

lemma uint_u128_of: "uint (u128_of hi lo) = uint hi * 2 ^ 64 + uint lo"
proof -
  have "uint (u128_of hi lo) = push_bit 64 (uint hi) OR uint lo"
    by (rule bit_eqI) (auto simp: u128_of_def bit_simps dest: bit_imp_le_length)
  then show ?thesis using uint_lt2p [of lo] by (simp add: halves_add)
qed

lemma sint_i128_of: "sint (i128_of hi lo) = sint hi * 2 ^ 64 + uint lo"
proof -
  have "sint (i128_of hi lo) = push_bit 64 (sint hi) OR uint lo"
    by (rule bit_eqI) (auto simp: i128_of_def bit_simps min_def dest: bit_imp_le_length)
  then show ?thesis using uint_lt2p [of lo] by (simp add: halves_add)
qed

lemma as_i64_i128_json:
  "as_i64 (i128_json hi lo) = checked_i64 (sint hi * 2 ^ 64 + uint lo)"
  by (simp add: i128_json_def sint_i128_of checked_i64_def Let_def)

lemma as_u64_u128_json:
  "as_u64 (u128_json hi lo) = (if hi = 0 then Some (unat lo) else None)"
proof (cases "hi = 0")
  case True
  then show ?thesis
    using uint_lt2p [of lo] by (simp add: u128_json_def uint_u128_of u64_bound_def Let_def)
next
  case False
  then have "1 \<le> uint hi" using uint_0_iff [of hi] uint_ge_0 [of hi] by linarith
  then have "1 * 2 ^ 64 \<le> uint hi * 2 ^ 64" by (rule mult_right_mono) simp
  then have "\<not> uint hi * 2 ^ 64 + uint lo < 2 ^ 64" using uint_ge_0 [of lo] by linarith
  with False show ?thesis by (simp add: u128_json_def uint_u128_of Let_def)
qed

text \<open>The two halves of a TOID: the ledger, and the low word as an \<open>i32\<close>.\<close>

lemma ledger_of_eq: "ledger_of toid = uint toid div 2 ^ 32"
proof -
  have u: "uint (drop_bit 32 toid) = uint toid div 2 ^ 32"
    using uint_lt2p [of toid]
    by (intro trans [OF unsigned_drop_bit_eq]) (simp add: drop_bit_eq_div take_bit_int_eq_self)
  moreover have "uint toid div 2 ^ 32 < 2 ^ 63" using uint_lt2p [of toid] by simp
  ultimately have "uint (drop_bit 32 toid) < 2 ^ 63" by simp
  then have "sint (drop_bit 32 toid) = uint (drop_bit 32 toid)"
    by (simp add: sint_uint signed_take_bit_eq_take_bit_shift take_bit_int_eq_self)
  with u show ?thesis by (simp add: ledger_of_def)
qed

lemma operation_of_eq: "operation_of toid = as_i32 (uint toid mod 2 ^ 32)"
proof -
  have m: "(0xFFFFFFFF :: 64 word) = mask 32" by (simp add: mask_eq_exp_minus_1)
  have "uint (ucast (toid AND 0xFFFFFFFF) :: 32 word) = take_bit 32 (uint toid)"
    unfolding m by (rule bit_eqI) (auto simp: bit_simps)
  then show ?thesis
    by (simp add: operation_of_def sint_uint signed_take_bit_eq_take_bit_shift as_i32_def take_bit_eq_mod)
qed

lemma operation_of_small:
  "uint toid mod 2 ^ 32 < 2 ^ 31 \<Longrightarrow> operation_of toid = uint toid mod 2 ^ 32"
  by (simp add: operation_of_eq as_i32_id in_i32_def)

text \<open>With the sign bit of the low half clear, positions are ordered as the TOIDs are.\<close>

lemma toid_order:
  assumes "uint t mod 2 ^ 32 < 2 ^ 31" and "uint u mod 2 ^ 32 < 2 ^ 31"
  shows "Cursor (ledger_of t) (operation_of t) i < Cursor (ledger_of u) (operation_of u) j
    \<longleftrightarrow> uint t < uint u \<or> t = u \<and> i < j"
proof -
  have split: "x = 4294967296 * (x div 2 ^ 32) + x mod 2 ^ 32" "0 \<le> x mod 2 ^ 32"
    "x mod 2 ^ 32 < 4294967296" for x :: int by simp_all
  have less: "a < b \<longleftrightarrow> q < q' \<or> q = q' \<and> r < r'" and same: "a = b \<longleftrightarrow> q = q' \<and> r = r'"
    if "a = 4294967296 * q + r" "0 \<le> r" "r < 4294967296" "b = 4294967296 * q' + r'" "0 \<le> r'" "r' < 4294967296"
    for a b q q' r r' :: int using that by (cases q q' rule: linorder_cases; linarith)+
  note lt = less [OF split [of "uint t"] split [of "uint u"]]
    and eq = same [OF split [of "uint t"] split [of "uint u"], folded word_uint_eq_iff]
  show ?thesis
    using assms by (auto simp: cursor_less_iff ledger_of_eq operation_of_small eq lt)
qed

end
