(* ===== verification/Rpc_Source.thy ===== *)
theory Rpc_Source
  imports Rpc_Values
begin

text \<open>
  \<open>src/indexer/rpc.rs\<close>, the source half: \<open>RpcEventSource\<close> with its paging loop, and the
  interpretation of the \<open>ChainEvents\<close> contract on it. The RPC server answers the \<open>n\<close>-th request
  of a call with \<open>get_events n\<close>, so its log may grow while a call pages through it. The loop ends
  only when a page is short, so a call has an optional result: \<open>None\<close> is a call that never
  returns.
\<close>

section \<open>The source\<close>

datatype event_start = FromLedger "32 word" | FromCursor string

record rpc_page =
  pe_events :: "rpc_event list"
  pe_cursor :: string

record rpc_source =
  rs_contracts :: "(string \<times> string) list"
  rs_page_limit :: nat

text \<open>\<open>client\<close> is the result of \<open>Client::new_with_headers\<close>.\<close>

definition rpc_new :: "string + unit \<Rightarrow> (string \<times> string) list \<Rightarrow> chain_events_error + rpc_source" where
  "rpc_new client contracts =
    (case client of
       Inl e \<Rightarrow> Inl (Unavailable e)
     | Inr _ \<Rightarrow> Inr \<lparr> rs_contracts = contracts, rs_page_limit = 100 \<rparr>)"

text \<open>The loop over the events of a page: what does not decode and what is not new is skipped.\<close>

fun kept :: "xdr \<Rightarrow> string \<Rightarrow> cursor \<Rightarrow> rpc_event list \<Rightarrow> chain_event list" where
  "kept x cname cur [] = []"
| "kept x cname cur (ev # rest) =
    (case decode_rpc_event x ev cname of
       None \<Rightarrow> kept x cname cur rest
     | Some chain \<Rightarrow>
        if is_after (Cursor (ledger_sequence chain) (operation_index chain) (event_index chain)) cur
        then chain # kept x cname cur rest
        else kept x cname cur rest)"

partial_function (option) fetch_pages ::
  "xdr \<Rightarrow> (nat \<Rightarrow> event_start \<Rightarrow> string + rpc_page) \<Rightarrow> nat \<Rightarrow> string \<Rightarrow> cursor \<Rightarrow> event_start \<Rightarrow>
    nat \<Rightarrow> string option \<Rightarrow> chain_event list \<Rightarrow> (chain_events_error + chain_event list) option" where
  "fetch_pages x get_events limit cname cur start n page_cursor decoded =
    (case get_events n (case page_cursor of Some c \<Rightarrow> FromCursor c | None \<Rightarrow> start) of
       Inl e \<Rightarrow> Some (Inl (ChainInternal e))
     | Inr resp \<Rightarrow>
        if length (pe_events resp) < limit
        then Some (Inr (decoded @ kept x cname cur (pe_events resp)))
        else fetch_pages x get_events limit cname cur start (Suc n) (Some (pe_cursor resp))
               (decoded @ kept x cname cur (pe_events resp)))"

declare fetch_pages.simps [code]

definition rpc_events_after ::
  "xdr \<Rightarrow> (string \<Rightarrow> nat \<Rightarrow> nat \<Rightarrow> event_start \<Rightarrow> string + rpc_page) \<Rightarrow> rpc_source \<Rightarrow> string \<Rightarrow> cursor \<Rightarrow>
    (chain_events_error + chain_event list) option" where
  "rpc_events_after x client src cid cur =
    (let cname = (case map_of (rs_contracts src) cid of Some s \<Rightarrow> s | None \<Rightarrow> ''unknown'');
         start = FromLedger (word_of_int (max (cur_ledger cur) 1))
     in fetch_pages x (client cid (rs_page_limit src)) (rs_page_limit src) cname cur start 0 None [])"

definition rpc_head_ledger :: "string + 32 word \<Rightarrow> chain_events_error + int" where
  "rpc_head_ledger latest =
    (case latest of Inl e \<Rightarrow> Inl (ChainInternal e) | Inr sequence \<Rightarrow> Inr (uint sequence))"

section \<open>What getEvents documents\<close>

text \<open>
  \<open>pages_of log position limit get_events\<close>: at request \<open>n\<close> the contract's log is \<open>log n\<close>, which only
  grows. A request from a ledger answers with the first \<open>limit\<close> events at or after that ledger, a
  request from a cursor with the first \<open>limit\<close> events behind it; \<open>position c\<close> is the number of log
  events up to the cursor \<open>c\<close>, and a page's cursor stands behind its last event.
\<close>

definition first_from :: "rpc_event list \<Rightarrow> 32 word \<Rightarrow> nat" where
  "first_from log l = length (takeWhile (\<lambda>e. re_ledger e < unat l) log)"

definition page_at :: "rpc_event list \<Rightarrow> (string \<Rightarrow> nat) \<Rightarrow> nat \<Rightarrow> nat \<Rightarrow> rpc_page \<Rightarrow> bool" where
  "page_at log position limit i p \<longleftrightarrow>
    pe_events p = take limit (drop i log) \<and> position (pe_cursor p) = i + length (pe_events p)"

definition pages_of ::
  "(nat \<Rightarrow> rpc_event list) \<Rightarrow> (string \<Rightarrow> nat) \<Rightarrow> nat \<Rightarrow> (nat \<Rightarrow> event_start \<Rightarrow> string + rpc_page) \<Rightarrow> bool" where
  "pages_of log position limit get_events \<longleftrightarrow>
    (\<forall>n. \<exists>new. log (Suc n) = log n @ new)
    \<and> (\<forall>n l p. get_events n (FromLedger l) = Inr p \<longrightarrow> page_at (log n) position limit (first_from (log n) l) p)
    \<and> (\<forall>n c p. get_events n (FromCursor c) = Inr p \<longrightarrow> page_at (log n) position limit (position c) p)"

section \<open>The loop\<close>

text \<open>The decoded log of a contract, and the kept events as its part behind the cursor.\<close>

definition decoded_log :: "xdr \<Rightarrow> string \<Rightarrow> rpc_event list \<Rightarrow> chain_event list" where
  "decoded_log x cname evs = List.map_filter (\<lambda>ev. decode_rpc_event x ev cname) evs"

lemma kept_eq: "kept x cname cur evs = filter (\<lambda>e. is_after (event_pos e) cur) (decoded_log x cname evs)"
  by (induction evs) (simp_all add: decoded_log_def event_pos_def split: option.split)

lemma kept_append: "kept x cname cur (a @ b) = kept x cname cur a @ kept x cname cur b"
  by (induction a) (auto split: option.split)

lemma fetch_pages_step:
  "get_events n (case pc of Some c \<Rightarrow> FromCursor c | None \<Rightarrow> start) = Inr p \<Longrightarrow>
    fetch_pages x get_events limit cname cur start n pc acc =
      (if length (pe_events p) < limit then Some (Inr (acc @ kept x cname cur (pe_events p)))
       else fetch_pages x get_events limit cname cur start (Suc n) (Some (pe_cursor p))
              (acc @ kept x cname cur (pe_events p)))"
  by (subst fetch_pages.simps) simp

lemma fetch_pages_error:
  "get_events n (case pc of Some c \<Rightarrow> FromCursor c | None \<Rightarrow> start) = Inl e \<Longrightarrow>
    fetch_pages x get_events limit cname cur start n pc acc = Some (Inl (ChainInternal e))"
  by (subst fetch_pages.simps) simp

lemma log_grows:
  assumes "pages_of log position limit get_events" and "n \<le> m"
  shows "\<exists>new. log m = log n @ new"
  using assms(2)
proof (induction m rule: dec_induct)
  case (step m)
  with assms(1) show ?case unfolding pages_of_def by (metis append.assoc)
qed simp

text \<open>
  The requests of a call: the first from \<open>start\<close>, each later one from the cursor of the page before,
  as long as that page is full. \<open>last_request\<close> is the one that ends the call.
\<close>

fun request_at ::
  "(nat \<Rightarrow> event_start \<Rightarrow> string + rpc_page) \<Rightarrow> nat \<Rightarrow> event_start \<Rightarrow> nat \<Rightarrow> event_start option" where
  "request_at get_events limit start 0 = Some start"
| "request_at get_events limit start (Suc n) =
    (case request_at get_events limit start n of
       None \<Rightarrow> None
     | Some r \<Rightarrow>
        (case get_events n r of
           Inl e \<Rightarrow> None
         | Inr p \<Rightarrow> if length (pe_events p) < limit then None else Some (FromCursor (pe_cursor p))))"

definition last_request ::
  "(nat \<Rightarrow> event_start \<Rightarrow> string + rpc_page) \<Rightarrow> nat \<Rightarrow> event_start \<Rightarrow> nat \<Rightarrow> event_start \<Rightarrow> bool" where
  "last_request get_events limit start m r \<longleftrightarrow>
    request_at get_events limit start m = Some r \<and> request_at get_events limit start (Suc m) = None"

text \<open>
  A call that reads from position \<open>i\<close> of a bounded log returns at its last request: with the error
  that this is answered with, or with everything kept of the log from \<open>i\<close> on, as the log then is.
\<close>

lemma fetch_pages_total:
  assumes laws: "pages_of log position limit get_events" and "0 < limit"
    and bound: "\<forall>n. length (log n) \<le> bnd"
    and at: "\<forall>p. get_events n (case pc of Some c \<Rightarrow> FromCursor c | None \<Rightarrow> start) = Inr p \<longrightarrow>
      page_at (log n) position limit i p"
    and asked: "request_at get_events limit start n = Some (case pc of Some c \<Rightarrow> FromCursor c | None \<Rightarrow> start)"
  shows "\<exists>m r. n \<le> m \<and> last_request get_events limit start m r
    \<and> (case get_events m r of
         Inl e \<Rightarrow> fetch_pages x get_events limit cname cur start n pc acc = Some (Inl (ChainInternal e))
       | Inr p \<Rightarrow> fetch_pages x get_events limit cname cur start n pc acc =
           Some (Inr (acc @ kept x cname cur (drop i (log m)))))"
  using at asked
proof (induction "bnd - i" arbitrary: i n pc acc rule: less_induct)
  case less
  let ?req = "case pc of Some c \<Rightarrow> FromCursor c | None \<Rightarrow> start"
  show ?case
  proof (cases "get_events n ?req")
    case (Inl e)
    with less.prems(2) show ?thesis
      by (intro exI [of _ n] exI [of _ ?req]) (simp add: last_request_def fetch_pages_error)
  next
    case (Inr p)
    with less.prems(1) have p: "pe_events p = take limit (drop i (log n))"
      and c: "position (pe_cursor p) = i + length (pe_events p)" by (auto simp: page_at_def)
    show ?thesis
    proof (cases "length (pe_events p) < limit")
      case True
      with p have "pe_events p = drop i (log n)" by simp
      with True Inr less.prems(2) show ?thesis
        by (intro exI [of _ n] exI [of _ ?req]) (simp add: last_request_def fetch_pages_step)
    next
      case False
      let ?j = "i + limit" and ?acc = "acc @ kept x cname cur (pe_events p)"
      from False p have len: "length (pe_events p) = limit" and "i + limit \<le> length (log n)"
        using \<open>0 < limit\<close> by (auto simp: min_def split: if_splits)
      with bound \<open>0 < limit\<close> have less': "bnd - ?j < bnd - i" by (metis add_leE diff_less_mono2 le_trans less_add_same_cancel1 less_le_trans)
      have next_page: "\<forall>q. get_events (Suc n) (FromCursor (pe_cursor p)) = Inr q \<longrightarrow>
          page_at (log (Suc n)) position limit (position (pe_cursor p)) q"
        using laws unfolding pages_of_def by blast
      have at': "\<forall>q. get_events (Suc n) (case Some (pe_cursor p) of Some c \<Rightarrow> FromCursor c | None \<Rightarrow> start) = Inr q \<longrightarrow>
          page_at (log (Suc n)) position limit ?j q"
        using next_page c len by simp
      have asked': "request_at get_events limit start (Suc n) =
          Some (case Some (pe_cursor p) of Some c \<Rightarrow> FromCursor c | None \<Rightarrow> start)"
        using less.prems(2) Inr False by simp
      have rest: "fetch_pages x get_events limit cname cur start n pc acc =
          fetch_pages x get_events limit cname cur start (Suc n) (Some (pe_cursor p)) ?acc"
        using False Inr by (simp add: fetch_pages_step)
      have split: "drop i (log m) = pe_events p @ drop ?j (log m)" if "Suc n \<le> m" for m
      proof -
        obtain new where "log m = log n @ new" using log_grows [OF laws, of n m] \<open>Suc n \<le> m\<close> by auto
        then have "take limit (drop i (log m)) = pe_events p"
          using p \<open>i + limit \<le> length (log n)\<close> by simp
        then show ?thesis by (metis append_take_drop_id drop_drop add.commute)
      qed
      from less.hyps [OF less' at' asked', of ?acc] obtain m r where m: "Suc n \<le> m" "last_request get_events limit start m r"
        and out: "case get_events m r of
           Inl e \<Rightarrow> fetch_pages x get_events limit cname cur start (Suc n) (Some (pe_cursor p)) ?acc = Some (Inl (ChainInternal e))
         | Inr q \<Rightarrow> fetch_pages x get_events limit cname cur start (Suc n) (Some (pe_cursor p)) ?acc =
             Some (Inr (?acc @ kept x cname cur (drop ?j (log m))))" by blast
      from out have "case get_events m r of
           Inl e \<Rightarrow> fetch_pages x get_events limit cname cur start n pc acc = Some (Inl (ChainInternal e))
         | Inr q \<Rightarrow> fetch_pages x get_events limit cname cur start n pc acc =
             Some (Inr (acc @ kept x cname cur (drop i (log m))))"
        by (simp add: rest split [OF m(1)] kept_append split: sum.splits)
      with m show ?thesis by (intro exI [of _ m] exI [of _ r]) simp
    qed
  qed
qed

section \<open>The contract of ChainEvents\<close>

text \<open>
  A contract's log as the chain numbers it: every event of the contract, its id parses to a TOID
  and an index, the upper half of the TOID is the ledger (from 1 on), the lower half fits an \<open>i32\<close>,
  and the ids increase.
\<close>

definition id_less :: "xdr \<Rightarrow> rpc_event \<Rightarrow> rpc_event \<Rightarrow> bool" where
  "id_less x a b \<longleftrightarrow>
    (case (xd_cursor x (re_id a), xd_cursor x (re_id b)) of
       (Some (t, i), Some (u, j)) \<Rightarrow> uint t < uint u \<or> t = u \<and> sint i < sint j
     | _ \<Rightarrow> False)"

definition numbered :: "xdr \<Rightarrow> string \<Rightarrow> rpc_event \<Rightarrow> bool" where
  "numbered x cid e \<longleftrightarrow> re_contract_id e = cid \<and> 1 \<le> re_ledger e
    \<and> (case xd_cursor x (re_id e) of
         None \<Rightarrow> False
       | Some (t, j) \<Rightarrow> uint t div 2 ^ 32 = int (re_ledger e) \<and> uint t mod 2 ^ 32 < 2 ^ 31)"

definition well_numbered :: "xdr \<Rightarrow> string \<Rightarrow> rpc_event list \<Rightarrow> bool" where
  "well_numbered x cid log \<longleftrightarrow> list_all (numbered x cid) log \<and> sorted_wrt (id_less x) log"

text \<open>A source with the server it talks to.\<close>

record rpc_chain =
  rc_source :: rpc_source
  rc_xdr :: xdr
  rc_client :: "string \<Rightarrow> nat \<Rightarrow> nat \<Rightarrow> event_start \<Rightarrow> string + rpc_page"
  rc_latest :: "string + 32 word"
  rc_log :: "string \<Rightarrow> rpc_event list"
  rc_position :: "string \<Rightarrow> nat"

definition rpc_name :: "rpc_source \<Rightarrow> string \<Rightarrow> string" where
  "rpc_name src cid = (case map_of (rs_contracts src) cid of Some s \<Rightarrow> s | None \<Rightarrow> ''unknown'')"

definition rpc_valid :: "rpc_chain \<Rightarrow> bool" where
  "rpc_valid c \<longleftrightarrow> 0 < rs_page_limit (rc_source c)
    \<and> (\<forall>cid. well_numbered (rc_xdr c) cid (rc_log c cid)
        \<and> pages_of (\<lambda>_. rc_log c cid) (rc_position c) (rs_page_limit (rc_source c))
            (rc_client c cid (rs_page_limit (rc_source c))))"

definition rpc_log :: "rpc_chain \<Rightarrow> string \<Rightarrow> chain_event list" where
  "rpc_log c cid = decoded_log (rc_xdr c) (rpc_name (rc_source c) cid) (rc_log c cid)"

definition rpc_pull :: "rpc_chain \<Rightarrow> string \<Rightarrow> cursor \<Rightarrow> chain_events_error + chain_event list" where
  "rpc_pull c cid cur = the (rpc_events_after (rc_xdr c) (rc_client c) (rc_source c) cid cur)"

definition rpc_head :: "rpc_chain \<Rightarrow> chain_events_error + int" where
  "rpc_head c = rpc_head_ledger (rc_latest c)"

lemma decode_pos:
  "decode_rpc_event x ev cname = Some e \<Longrightarrow>
    \<exists>t j. xd_cursor x (re_id ev) = Some (t, j)
      \<and> event_pos e = Cursor (ledger_of t) (operation_of t) (sint j)
      \<and> contract_id e = re_contract_id ev \<and> contract_name e = cname"
  by (auto simp: decode_rpc_event_def event_pos_def Option.bind_eq_Some_conv split: sum.splits)

lemma decoded_log_Cons:
  "decoded_log x cname (ev # evs) =
    (case decode_rpc_event x ev cname of Some e \<Rightarrow> [e] | None \<Rightarrow> []) @ decoded_log x cname evs"
  by (simp add: decoded_log_def split: option.split)

lemma decoded_log_Nil: "decoded_log x cname [] = []"
  by (simp add: decoded_log_def)

lemma set_decoded_log:
  "e \<in> set (decoded_log x cname evs) \<longleftrightarrow> (\<exists>ev \<in> set evs. decode_rpc_event x ev cname = Some e)"
  by (induction evs) (auto simp: decoded_log_Cons decoded_log_Nil split: option.split)

lemma id_less_pos:
  assumes "id_less x a b" and "numbered x cid a" and "numbered x cid b"
    and "decode_rpc_event x a cname = Some e" and "decode_rpc_event x b cname = Some e'"
  shows "event_pos e < event_pos e'"
  using assms decode_pos [OF assms(4)] decode_pos [OF assms(5)]
  by (auto simp: id_less_def numbered_def toid_order)

lemma decoded_log_ordered:
  "well_numbered x cid evs \<Longrightarrow> ordered_events (decoded_log x cname evs)"
proof (induction evs)
  case (Cons ev evs)
  then have ord: "ordered_events (decoded_log x cname evs)" by (simp add: well_numbered_def)
  show ?case
  proof (cases "decode_rpc_event x ev cname")
    case (Some e)
    have "event_pos e < event_pos e'" if "e' \<in> set (decoded_log x cname evs)" for e'
      using that Cons.prems Some id_less_pos [of x ev _ cid cname e e']
      by (auto simp: set_decoded_log well_numbered_def list_all_iff)
    with ord Some show ?thesis by (auto simp: decoded_log_Cons)
  qed (use ord in \<open>simp add: decoded_log_Cons\<close>)
qed (simp add: decoded_log_Nil)

lemma decoded_ledger:
  "numbered x cid ev \<Longrightarrow> decode_rpc_event x ev cname = Some e \<Longrightarrow> ledger_sequence e = int (re_ledger ev)"
  using decode_pos [of x ev cname e] by (auto simp: numbered_def ledger_of_eq event_pos_def)

text \<open>What lies before the ledger a call starts from is not after its cursor.\<close>

lemma kept_before_start:
  assumes "well_numbered x cid log" and "l = word_of_int (max (cur_ledger cur) 1)"
  shows "kept x cname cur (take (first_from log l) log) = []"
proof -
  have before: "int (re_ledger ev) < cur_ledger cur" if "ev \<in> set (take (first_from log l) log)" for ev
  proof -
    from that have small: "re_ledger ev < unat l" and "ev \<in> set log"
      unfolding first_from_def takeWhile_eq_take [symmetric] by (auto dest: set_takeWhileD)
    then have one: "1 \<le> re_ledger ev" using assms(1) by (auto simp: well_numbered_def list_all_iff numbered_def)
    have "int (unat l) \<le> max (cur_ledger cur) 1"
      unfolding assms(2) by (simp add: uint_word_of_int zmod_le_nonneg_dividend)
    with small one show ?thesis by linarith
  qed
  then have "\<not> is_after (event_pos e) cur"
    if "e \<in> set (decoded_log x cname (take (first_from log l) log))" for e
  proof -
    from that obtain ev where ev: "ev \<in> set (take (first_from log l) log)" "decode_rpc_event x ev cname = Some e"
      by (auto simp: set_decoded_log)
    then have "ev \<in> set log" by (meson in_set_takeD)
    then have "ledger_sequence e = int (re_ledger ev)"
      using assms(1) ev(2) decoded_ledger [of x cid ev cname e] by (auto simp: well_numbered_def list_all_iff)
    with before [OF ev(1)] show ?thesis by (auto simp: cursor_less_iff event_pos_def)
  qed
  then show ?thesis by (simp add: kept_eq filter_empty_conv)
qed

text \<open>
  A whole call over a bounded log that grows while it pages: it returns at its last request, with the
  error of this request or with the events behind the cursor of the log as this request saw it.
\<close>

definition call_start :: "cursor \<Rightarrow> event_start" where
  "call_start cur = FromLedger (word_of_int (max (cur_ledger cur) 1))"

lemma rpc_call_total:
  assumes laws: "pages_of log position (rs_page_limit src) (client cid (rs_page_limit src))"
    and "0 < rs_page_limit src" and "\<forall>n. length (log n) \<le> bnd" and "well_numbered x cid (log 0)"
  shows "\<exists>m r. last_request (client cid (rs_page_limit src)) (rs_page_limit src) (call_start cur) m r
    \<and> rpc_events_after x client src cid cur = Some
        (case client cid (rs_page_limit src) m r of
           Inl e \<Rightarrow> Inl (ChainInternal e)
         | Inr p \<Rightarrow> Inr (filter (\<lambda>e. is_after (event_pos e) cur) (decoded_log x (rpc_name src cid) (log m))))"
proof -
  let ?l = "word_of_int (max (cur_ledger cur) 1) :: 32 word"
  let ?i = "first_from (log 0) ?l"
  have page: "\<forall>p. client cid (rs_page_limit src) 0 (case None of Some c \<Rightarrow> FromCursor c | None \<Rightarrow> call_start cur) = Inr p
      \<longrightarrow> page_at (log 0) position (rs_page_limit src) ?i p"
    using laws by (simp add: pages_of_def call_start_def)
  have asked: "request_at (client cid (rs_page_limit src)) (rs_page_limit src) (call_start cur) 0 =
      Some (case None of Some c \<Rightarrow> FromCursor c | None \<Rightarrow> call_start cur)" by simp
  have whole: "kept x (rpc_name src cid) cur (drop ?i (log m)) = kept x (rpc_name src cid) cur (log m)" for m
  proof -
    obtain new where "log m = log 0 @ new" using log_grows [OF laws, of 0 m] by auto
    moreover have "?i \<le> length (log 0)" by (simp add: first_from_def length_takeWhile_le)
    ultimately have "take ?i (log m) = take ?i (log 0)" by simp
    then have "log m = take ?i (log 0) @ drop ?i (log m)" by (metis append_take_drop_id)
    then show ?thesis
      using kept_before_start [OF assms(4) refl, of "rpc_name src cid" cur] kept_append by (metis append_Nil)
  qed
  have call: "rpc_events_after x client src cid cur = fetch_pages x (client cid (rs_page_limit src)) (rs_page_limit src)
      (rpc_name src cid) cur (call_start cur) 0 None []"
    by (simp add: rpc_events_after_def Let_def rpc_name_def call_start_def)
  from fetch_pages_total [OF laws assms(2,3) page asked, of x "rpc_name src cid" cur "[]"]
  obtain m r where final: "last_request (client cid (rs_page_limit src)) (rs_page_limit src) (call_start cur) m r"
    and out: "case client cid (rs_page_limit src) m r of
       Inl e \<Rightarrow> rpc_events_after x client src cid cur = Some (Inl (ChainInternal e))
     | Inr p \<Rightarrow> rpc_events_after x client src cid cur =
         Some (Inr ([] @ kept x (rpc_name src cid) cur (drop ?i (log m))))"
    unfolding call by blast
  from out [unfolded whole, unfolded kept_eq append_Nil] final show ?thesis
    by (intro exI [of _ m] exI [of _ r]) (simp split: sum.splits)
qed

lemma rpc_call:
  assumes "rpc_valid c"
  shows "(\<exists>e. rpc_events_after (rc_xdr c) (rc_client c) (rc_source c) cid cur = Some (Inl e))
    \<or> rpc_events_after (rc_xdr c) (rc_client c) (rc_source c) cid cur =
        Some (Inr (filter (\<lambda>e. is_after (event_pos e) cur) (rpc_log c cid)))"
proof -
  obtain m r where "rpc_events_after (rc_xdr c) (rc_client c) (rc_source c) cid cur = Some
      (case rc_client c cid (rs_page_limit (rc_source c)) m r of
         Inl e \<Rightarrow> Inl (ChainInternal e)
       | Inr p \<Rightarrow> Inr (filter (\<lambda>e. is_after (event_pos e) cur) (rpc_log c cid)))"
    using assms rpc_call_total [of "\<lambda>_. rc_log c cid" "rc_position c" "rc_source c" "rc_client c" cid
        "length (rc_log c cid)" "rc_xdr c" cur]
    unfolding rpc_valid_def rpc_log_def by blast
  then show ?thesis
    by (cases "rc_client c cid (rs_page_limit (rc_source c)) m r") simp_all
qed

lemma rpc_pull_Inr:
  assumes "rpc_valid c" and "rpc_pull c cid cur = Inr evs"
  shows "evs = filter (\<lambda>e. is_after (event_pos e) cur) (rpc_log c cid)"
  using rpc_call [OF assms(1), of cid cur] assms(2) by (auto simp: rpc_pull_def)

interpretation rpc: event_source rpc_valid rpc_log rpc_pull rpc_head
proof unfold_locales
  fix c cid
  assume "rpc_valid c"
  then show "ordered_events (rpc_log c cid)"
    using decoded_log_ordered [of "rc_xdr c" cid "rc_log c cid"] by (simp add: rpc_valid_def rpc_log_def)
next
  fix c e cid
  assume "rpc_valid c" and "e \<in> set (rpc_log c cid)"
  then show "contract_id e = cid"
    by (auto simp: rpc_valid_def rpc_log_def set_decoded_log well_numbered_def list_all_iff numbered_def
        dest: decode_pos)
qed (fact rpc_pull_Inr)

end
