(* ===== verification/Rpc_Properties.thy ===== *)
theory Rpc_Properties
  imports Rpc_Source Pass_Properties
begin

text \<open>
  Properties of the RPC event source: its calls return the contract's chain behind the cursor, in the
  order and with the amounts of the chain, and what happens when the server cannot serve the cursor.
\<close>

section \<open>A reference server and a sample chain\<close>

text \<open>
  A server whose cursors are unary numbers, one mark for every event before them; it is only used
  to show that the hypotheses on a server can be met.
\<close>

definition serve :: "rpc_event list \<Rightarrow> nat \<Rightarrow> nat \<Rightarrow> event_start \<Rightarrow> string + rpc_page" where
  "serve log limit n start =
    (let i = (case start of FromLedger l \<Rightarrow> first_from log l | FromCursor c \<Rightarrow> length c);
         evs = take limit (drop i log)
     in Inr \<lparr> pe_events = evs, pe_cursor = replicate (i + length evs) CHR ''.'' \<rparr>)"

lemma serve_pages: "pages_of (\<lambda>_. log) length limit (serve log limit)"
  by (auto simp: pages_of_def page_at_def serve_def Let_def)

definition sample_rpc_event :: "string \<Rightarrow> nat \<Rightarrow> string \<Rightarrow> string \<Rightarrow> rpc_event" where
  "sample_rpc_event ident l topic v =
    \<lparr> re_contract_id = ''C'', re_id = ident, re_ledger = l, re_topic = [topic, ''subject''], re_value = v \<rparr>"

definition sample_rpc_log :: "rpc_event list" where
  "sample_rpc_log =
    [sample_rpc_event ''5'' 5 ''created'' ''creation'', sample_rpc_event ''6'' 6 ''revoked'' ''revocation'']"

definition sample_xdr :: xdr where
  "sample_xdr =
    \<lparr> xd_scval = map_of
        [(''created'', ScSymbol ''VerificationCreated''), (''revoked'', ScSymbol ''VerificationRevoked''),
         (''subject'', ScString ''GA''),
         (''creation'', ScVec (Some [ScU64 1, ScString ''b'', ScString ''s'', ScString ''h'', ScString ''i'', ScU32 5])),
         (''revocation'', ScVec (Some [ScU64 1, ScString ''s'', ScString ''i'', ScU32 6]))],
      xd_debug = \<lambda>_. ''value'', xd_text = id, xd_hex = id, xd_account = id, xd_contract = id,
      xd_muxed = \<lambda>_ b. b,
      xd_cursor = map_of [(''5'', (21474836480, 0)), (''6'', (25769803776, 0))] \<rparr>"

definition sample_source :: rpc_source where
  "sample_source = \<lparr> rs_contracts = [(''C'', ''verification'')], rs_page_limit = 1 \<rparr>"

definition sample_rpc :: rpc_chain where
  "sample_rpc =
    \<lparr> rc_source = sample_source, rc_xdr = sample_xdr,
      rc_client = \<lambda>cid limit. serve (if cid = ''C'' then sample_rpc_log else []) limit,
      rc_latest = Inr 20, rc_log = \<lambda>cid. if cid = ''C'' then sample_rpc_log else [],
      rc_position = length \<rparr>"

lemma sample_rpc_decoded:
  "decoded_log sample_xdr ''verification'' sample_rpc_log = sample_verification"
  by (simp add: decoded_log_def sample_rpc_log_def sample_xdr_def sample_rpc_event_def decode_rpc_event_def
      get_nth_def sample_verification_def sample_event_def ledger_of_eq operation_of_eq as_i32_def List.map_filter_def)

lemma sample_rpc_numbered: "well_numbered sample_xdr ''C'' sample_rpc_log"
  by (simp add: well_numbered_def numbered_def id_less_def sample_rpc_log_def sample_xdr_def sample_rpc_event_def)

lemma sample_rpc_valid: "rpc_valid sample_rpc"
  using sample_rpc_numbered
  by (simp add: rpc_valid_def sample_rpc_def sample_source_def serve_pages well_numbered_def)

lemma sample_rpc_chain: "rpc_log sample_rpc = sample_log sample_verification"
  by (rule ext) (simp add: rpc_log_def sample_rpc_def sample_log_def rpc_name_def sample_source_def
      sample_rpc_decoded decoded_log_Nil)

section \<open>Paging\<close>

text \<open>
  C7. A call of the RPC source returns and is exact. Whatever pages the server serves by the documented
  rules, and although the log grows while the call pages through it, a call over a bounded log
  returns at a last request, the first one to be answered with an error or with a page that is not
  full (each request but the first asks from the cursor of the page before): with that error, or
  else with precisely the decoded events behind the cursor of the log as that request saw it.
\<close>

theorem rpc_call_returns:
  assumes "pages_of log position (rs_page_limit src) (client cid (rs_page_limit src))"
    and "0 < rs_page_limit src" and "\<forall>n. length (log n) \<le> bnd" and "well_numbered x cid (log 0)"
  shows "\<exists>m r. last_request (client cid (rs_page_limit src)) (rs_page_limit src) (call_start cur) m r
    \<and> rpc_events_after x client src cid cur = Some
        (case client cid (rs_page_limit src) m r of
           Inl e \<Rightarrow> Inl (ChainInternal e)
         | Inr p \<Rightarrow> Inr (filter (\<lambda>e. is_after (event_pos e) cur) (decoded_log x (rpc_name src cid) (log m))))"
  using assms by (rule rpc_call_total)

text \<open>Pages of one event: the second request is the first to be answered with a page that is not full.\<close>

theorem rpc_call_returns_witness:
  "rpc_events_after sample_xdr (rc_client sample_rpc) sample_source ''C'' (Cursor 6 0 0) =
      Some (Inr (filter (\<lambda>e. is_after (event_pos e) (Cursor 6 0 0)) sample_verification))
    \<and> last_request (rc_client sample_rpc ''C'' 1) 1 (call_start (Cursor 6 0 0)) 1 (FromCursor ''..'')"
proof -
  let ?client = "rc_client sample_rpc ''C'' 1" and ?start = "call_start (Cursor 6 0 0)"
  have reqs: "request_at ?client 1 ?start 1 = Some (FromCursor ''..'')" "request_at ?client 1 ?start 2 = None"
    by code_simp+
  have none: "request_at ?client 1 ?start k = None" if "2 \<le> k" for k
    using that reqs(2) by (induction k rule: dec_induct) auto
  have first: "request_at ?client 1 ?start 0 = Some ?start" by simp
  have unique: "m = 1" if "last_request ?client 1 ?start m r" for m r
  proof (rule ccontr)
    assume "m \<noteq> 1"
    then consider "m = 0" | "2 \<le> m" by linarith
    then show False
      using that none [of m] reqs(1) by cases (auto simp: last_request_def simp del: request_at.simps)
  qed
  have "\<not> isl (?client 1 (FromCursor ''..''))" by code_simp
  then obtain p where p: "?client 1 (FromCursor ''..'') = Inr p" by (auto simp: isl_def) (metis sum.exhaust)
  have pages: "pages_of (\<lambda>_. sample_rpc_log) length (rs_page_limit sample_source)
      (rc_client sample_rpc ''C'' (rs_page_limit sample_source))"
    by (simp add: sample_rpc_def serve_pages)
  have "0 < rs_page_limit sample_source" "\<forall>n :: nat. length sample_rpc_log \<le> 2"
    by (simp_all add: sample_source_def sample_rpc_log_def)
  from rpc_call_returns [where client = "rc_client sample_rpc" and cur = "Cursor 6 0 0", OF pages this sample_rpc_numbered]
  obtain m r where m: "last_request ?client 1 ?start m r"
    and run: "rpc_events_after sample_xdr (rc_client sample_rpc) sample_source ''C'' (Cursor 6 0 0) = Some
      (case ?client m r of Inl e \<Rightarrow> Inl (ChainInternal e)
       | Inr p \<Rightarrow> Inr (filter (\<lambda>e. is_after (event_pos e) (Cursor 6 0 0))
           (decoded_log sample_xdr (rpc_name sample_source ''C'') sample_rpc_log)))"
    by (auto simp: sample_source_def)
  have "rpc_name sample_source ''C'' = ''verification''" by (simp add: rpc_name_def sample_source_def)
  note run = run [unfolded this sample_rpc_decoded]
  from unique [OF m] m reqs(1) have "m = 1" "r = FromCursor ''..''" by (auto simp: last_request_def)
  with run p m show ?thesis by simp
qed

lemma fetch_pages_full:
  assumes "\<forall>n start. \<exists>p. get_events n start = Inr p \<and> limit \<le> length (pe_events p)"
  shows "fetch_pages x get_events limit cname cur start n pc acc = None"
proof (rule ccontr)
  let ?full = "\<lambda>get (limit :: nat). \<forall>(n :: nat) (start :: event_start). \<exists>p. get n start = Inr p \<and> limit \<le> length (pe_events p)"
  assume "fetch_pages x get_events limit cname cur start n pc acc \<noteq> None"
  then obtain r where ret: "fetch_pages x get_events limit cname cur start n pc acc = Some r" by blast
  have "\<not> ?full get_events limit"
  proof (rule fetch_pages.raw_induct [where
        xa = "((((((((x, get_events), limit), cname), cur), start), n), pc), acc)"
        and P = "\<lambda>x get limit cname cur start n pc acc r. \<not> ?full get limit", unfolded prod.case, OF _ ret])
    fix f :: "xdr \<Rightarrow> (nat \<Rightarrow> event_start \<Rightarrow> string + rpc_page) \<Rightarrow> nat \<Rightarrow> string \<Rightarrow> cursor \<Rightarrow> event_start \<Rightarrow>
        nat \<Rightarrow> string option \<Rightarrow> chain_event list \<Rightarrow> (chain_events_error + chain_event list) option"
      and x get limit cname cur start n pc acc r
    assume IH: "\<And>x get limit cname cur start n pc acc r.
        f x get limit cname cur start n pc acc = Some r \<Longrightarrow> \<not> ?full get limit"
      and run: "(case get n (case pc of None \<Rightarrow> start | Some c \<Rightarrow> FromCursor c) of
          Inl e \<Rightarrow> Some (Inl (ChainInternal e))
        | Inr resp \<Rightarrow>
            if length (pe_events resp) < limit then Some (Inr (acc @ kept x cname cur (pe_events resp)))
            else f x get limit cname cur start (Suc n) (Some (pe_cursor resp))
                   (acc @ kept x cname cur (pe_events resp))) = Some r"
    show "\<not> ?full get limit"
    proof
      assume full: "?full get limit"
      then obtain p where "get n (case pc of None \<Rightarrow> start | Some c \<Rightarrow> FromCursor c) = Inr p"
        and "limit \<le> length (pe_events p)" by blast
      with run have "f x get limit cname cur start (Suc n) (Some (pe_cursor p))
          (acc @ kept x cname cur (pe_events p)) = Some r" by simp
      from IH [OF this] full show False by contradiction
    qed
  qed
  with assms show False by contradiction
qed

text \<open>
  A page limit alone does not end a call: against a server that answers every request with a
  full page, whatever its cursor, the loop never returns.
\<close>

theorem rpc_full_pages_diverge:
  assumes "\<forall>n start. \<exists>p. client cid (rs_page_limit src) n start = Inr p
    \<and> rs_page_limit src \<le> length (pe_events p)"
  shows "rpc_events_after x client src cid cur = None"
  using fetch_pages_full [OF assms] by (simp add: rpc_events_after_def Let_def)

section \<open>The indexer on the RPC source\<close>

text \<open>
  C6. The production pipeline: in every world the indexer can reach over chains served by an RPC
  server, a successful pass with the RPC source that stored something leaves in the event store
  exactly the decoded chain of the contract, provided the contract has no unrepaired gap.
\<close>

theorem rpc_pass_stores_chain:
  assumes "rpc_valid c" and "world_reach text_of uuid (rpc_name (rc_source c)) frame w" and "w_log w = rpc_log c"
    and "\<not> w_gap w cid" and "ingest text_of uuid (rpc_pull c) head cid (w_db w) = (Inr n, db')" and "0 < n"
  shows "set (stored db' cid) = set (rpc_log c cid)"
proof -
  have "answers (w_log w) (rpc_pull c) cid (cursor_of (w_db w) cid)"
    using rpc.pulled [OF assms(1)] by (simp add: answers_def assms(3))
  from pass_stores_chain [OF world_reach_inv [OF assms(2)] assms(4) this assms(5,6)] show ?thesis
    by (simp add: assms(3))
qed

lemma sample_rpc_name: "rpc_name (rc_source sample_rpc) ''C'' = ''verification''"
  by (simp add: rpc_name_def sample_rpc_def sample_source_def)

theorem rpc_pass_stores_chain_witness:
  "\<exists>db. ingest (\<lambda>_. ''error'') (\<lambda>_. None) (rpc_pull sample_rpc) (Inr 20) ''C'' empty_pg = (Inr 2, db)
    \<and> set (stored db ''C'') = set sample_verification"
proof -
  let ?run = "ingest (\<lambda>_. ''error'') (\<lambda>_. None) (rpc_pull sample_rpc) (Inr 20) ''C'' empty_pg"
  have "fst ?run = Inr 2" by code_simp
  then have run: "?run = (Inr 2, snd ?run)" by (simp add: prod_eq_iff)
  have "world_reach t u (rpc_name (rc_source sample_rpc)) frame (sample_world sample_verification)" for t u frame
    by (rule sample_reach [OF _ samples_ordered(1)])
      (simp add: sample_rpc_name, simp add: sample_verification_def sample_event_def event_pos_def START_def cursor_less_iff)
  from rpc_pass_stores_chain [OF sample_rpc_valid this [of "\<lambda>_. ''error''" "\<lambda>_. None" "\<lambda>_ _. False"],
      where cid = "''C''" and head = "Inr 20" and n = 2 and db' = "snd ?run"]
  have "set (stored (snd ?run) ''C'') = set sample_verification"
    using run by (simp add: sample_world_def sample_rpc_chain sample_log_def)
  with run show ?thesis by blast
qed

text \<open>
  C37. The retention window: a server that refuses requests from ledgers before its oldest one
  fails every pass of a contract whose cursor lies before that ledger, for ever: the pass returns
  the server's error and changes nothing. An indexer whose contract has no cursor yet starts from
  ledger 1.
\<close>

theorem rpc_window_stall:
  assumes "\<forall>n l. unat l < oldest \<longrightarrow> (\<exists>e. rc_client c cid (rs_page_limit (rc_source c)) n (FromLedger l) = Inl e)"
    and "max (cur_ledger (cursor_of db cid)) 1 < int oldest" and "int oldest < 2 ^ 32" and "budget db = None"
  shows "\<exists>e. passes text_of uuid (rpc_pull c) heads cid db = db
    \<and> ingest text_of uuid (rpc_pull c) head cid db = (Inl (ChainInternal e), db)"
proof -
  let ?l = "word_of_int (max (cur_ledger (cursor_of db cid)) 1) :: 32 word"
  have "unat ?l = nat (max (cur_ledger (cursor_of db cid)) 1)"
    using assms(2,3) by (simp add: unat_eq_nat_uint uint_word_of_int)
  then have "unat ?l < oldest" using assms(2) by linarith
  with assms(1) obtain e where "rc_client c cid (rs_page_limit (rc_source c)) 0 (FromLedger ?l) = Inl e" by blast
  then have pull: "rpc_pull c cid (cursor_of db cid) = Inl (ChainInternal e)"
    by (simp add: rpc_pull_def rpc_events_after_def Let_def fetch_pages_error)
  have pass: "ingest text_of uuid (rpc_pull c) head cid db = (Inl (ChainInternal e), db)" for head
    using assms(4) pull by (simp add: ingest_def and_then_apply internal_apply get_cursor_healthy)
  then have "passes text_of uuid (rpc_pull c) heads cid db = db"
    unfolding passes_def by (induction heads) simp_all
  with pass show ?thesis by blast
qed

text \<open>The sample server with a window that starts at ledger 4, and an indexer that starts afresh.\<close>

definition late_rpc :: rpc_chain where
  "late_rpc = sample_rpc\<lparr> rc_client := \<lambda>cid limit n start.
    (case start of
       FromLedger l \<Rightarrow> if unat l < 4 then Inl ''startLedger'' else rc_client sample_rpc cid limit n start
     | FromCursor c \<Rightarrow> rc_client sample_rpc cid limit n start) \<rparr>"

theorem rpc_window_stall_witness:
  "\<exists>e. passes (\<lambda>_. ''error'') (\<lambda>_. None) (rpc_pull late_rpc) [20, 30] ''C'' empty_pg = empty_pg
    \<and> ingest (\<lambda>_. ''error'') (\<lambda>_. None) (rpc_pull late_rpc) (Inr 40) ''C'' empty_pg = (Inl (ChainInternal e), empty_pg)"
  by (rule rpc_window_stall [where oldest = 4])
    (simp_all add: late_rpc_def cursor_of_def empty_pg_def START_def tbl_find_def)

section \<open>Amounts and positions\<close>

lemma vec_to_json_nth:
  "vec_to_json x vs = Inr js \<Longrightarrow>
    length js = length vs \<and> (\<forall>i < length vs. scval_to_json x (vs ! i) = Inr (js ! i))"
proof (induction vs arbitrary: js)
  case (Cons v vs)
  then show ?case by (fastforce simp: nth_Cons' split: sum.splits)
qed simp

text \<open>The number that an integer value of the chain stands for.\<close>

fun chain_integer :: "scval \<Rightarrow> int option" where
  "chain_integer (ScU32 u) = Some (uint u)"
| "chain_integer (ScI32 k) = Some (sint k)"
| "chain_integer (ScU64 u) = Some (uint u)"
| "chain_integer (ScI64 k) = Some (sint k)"
| "chain_integer (ScTimepoint t) = Some (uint t)"
| "chain_integer (ScDuration d) = Some (uint d)"
| "chain_integer (ScU128 hi lo) = Some (uint hi * 2 ^ 64 + uint lo)"
| "chain_integer (ScI128 hi lo) = Some (sint hi * 2 ^ 64 + uint lo)"
| "chain_integer _ = None"

lemma wide_integers:
  "as_i64 (u128_json hi lo) = checked_i64 (uint hi * 2 ^ 64 + uint lo)"
  "as_u64 (i128_json hi lo) =
    (let z = sint hi * 2 ^ 64 + uint lo in if 0 \<le> z \<and> in_i64 z then Some (nat z) else None)"
proof -
  have "in_i64 z \<Longrightarrow> z < 2 ^ 64" for z :: int by (simp add: in_i64_def)
  then show "as_i64 (u128_json hi lo) = checked_i64 (uint hi * 2 ^ 64 + uint lo)"
    by (auto simp: u128_json_def uint_u128_of checked_i64_def Let_def)
  show "as_u64 (i128_json hi lo) =
      (let z = sint hi * 2 ^ 64 + uint lo in if 0 \<le> z \<and> in_i64 z then Some (nat z) else None)"
    by (auto simp: i128_json_def sint_i128_of Let_def u64_bound_def in_i64_def)
qed

lemma in_i64_bounds: "in_i64 z \<longleftrightarrow> - 9223372036854775808 \<le> z \<and> z < 9223372036854775808"
  by (simp add: in_i64_def)

lemma word_ranges:
  "0 \<le> uint (u :: 64 word)" "uint (u :: 64 word) < 18446744073709551616"
  "in_i64 (sint (u :: 64 word))" "sint (u :: 64 word) < 18446744073709551616"
  "in_i64 (uint (w :: 32 word))" "uint (w :: 32 word) < 18446744073709551616"
  "in_i64 (sint (w :: 32 word))" "sint (w :: 32 word) < 18446744073709551616"
proof -
  have "uint u < 18446744073709551616" "- 9223372036854775808 \<le> sint u" "sint u < 9223372036854775808"
    using uint_lt2p [of u] sint_greater_eq [of u] sint_less [of u] by simp_all
  moreover have "uint w < 4294967296" "- 2147483648 \<le> sint w" "sint w < 2147483648"
    using uint_lt2p [of w] sint_greater_eq [of w] sint_less [of w] by simp_all
  moreover have "0 \<le> uint u" "0 \<le> uint w" by simp_all
  ultimately show "0 \<le> uint (u :: 64 word)" "uint (u :: 64 word) < 18446744073709551616"
    "in_i64 (sint (u :: 64 word))" "sint (u :: 64 word) < 18446744073709551616"
    "in_i64 (uint (w :: 32 word))" "uint (w :: 32 word) < 18446744073709551616"
    "in_i64 (sint (w :: 32 word))" "sint (w :: 32 word) < 18446744073709551616"
    unfolding in_i64_bounds by (linarith | (intro conjI; linarith))+
qed

lemma u128_fits: "uint hi * 2 ^ 64 + uint lo < 2 ^ 64 \<longleftrightarrow> hi = 0" for hi lo :: "64 word"
proof
  assume "uint hi * 2 ^ 64 + uint lo < 2 ^ 64"
  then have "uint hi * 18446744073709551616 + uint lo < 18446744073709551616" by simp
  then have "uint hi < 1" using uint_ge_0 [of lo] by linarith
  then have "uint hi = 0" using uint_ge_0 [of hi] by linarith
  then show "hi = 0" by (simp add: uint_0_iff)
qed (use uint_lt2p [of lo] in simp)

text \<open>The reading of an integer as an \<open>i64\<close> and as a \<open>u64\<close>.\<close>

definition reads_integer :: "json \<Rightarrow> bool \<Rightarrow> int \<Rightarrow> bool" where
  "reads_integer j narrow z \<longleftrightarrow> as_i64 j = (if in_i64 z then Some z else None)
    \<and> as_u64 j = (if 0 \<le> z \<and> z < 2 ^ 64 \<and> (narrow \<longrightarrow> in_i64 z) then Some (nat z) else None)"

lemma reads_JInt: "z < 18446744073709551616 \<Longrightarrow> reads_integer (JInt z) False z"
  by (simp add: reads_integer_def u64_bound_def)

lemma reads_u128: "reads_integer (u128_json hi lo) False (uint hi * 2 ^ 64 + uint lo)"
  unfolding reads_integer_def wide_integers as_u64_u128_json u128_fits checked_i64_def
  by simp

lemma narrow_u64:
  "(if 0 \<le> z \<and> in_i64 z then a else b) = (if 0 \<le> z \<and> z < 2 ^ 64 \<and> (True \<longrightarrow> in_i64 z) then a else b)"
proof (cases "in_i64 z")
  case True
  then have "z < 2 ^ 64" by (simp add: in_i64_def)
  with True show ?thesis by (simp only: simp_thms)
qed (simp only: simp_thms)

lemma reads_i128: "reads_integer (i128_json hi lo) True (sint hi * 2 ^ 64 + uint lo)"
proof -
  have "as_i64 (i128_json hi lo) = (let z = sint hi * 2 ^ 64 + uint lo in if in_i64 z then Some z else None)"
    by (simp only: as_i64_i128_json checked_i64_def Let_def)
  then show ?thesis
    using wide_integers(2) [of hi lo]
    by (simp only: reads_integer_def Let_def narrow_u64 simp_thms)
qed

lemma integer_readings:
  assumes "chain_integer v = Some z"
  shows "\<exists>j. scval_to_json x v = Inr j \<and> reads_integer j (\<exists>hi lo. v = ScI128 hi lo) z"
proof (cases v)
  case (ScU128 hi lo)
  with assms reads_u128 [of hi lo] show ?thesis by simp
next
  case (ScI128 hi lo)
  with assms reads_i128 [of hi lo] show ?thesis by simp
qed (use assms in \<open>auto simp: reads_JInt word_ranges\<close>)

lemma other_readings:
  assumes "chain_integer v = None" and "scval_to_json x v = Inr j"
  shows "as_i64 j = None \<and> as_u64 j = None"
proof (cases v)
  case (ScVec vs)
  with assms(2) show ?thesis by (cases vs) (auto split: sum.splits)
next
  case (ScMap m)
  with assms(2) show ?thesis by (cases m) (auto split: sum.splits)
qed (use assms in auto)

text \<open>
  C22. From the chain to the projection an integer is read exactly or not at all, but for the 32-bit
  accessor. For every element of a decoded payload that is an integer of the chain (of 32, 64 or 128
  bits, signed or not, a time point or a duration) with the value \<open>z\<close>: \<open>get_i64\<close> answers \<open>z\<close> if it
  fits an \<open>i64\<close> and nothing otherwise; \<open>get_u64\<close> answers \<open>z\<close> if it fits a \<open>u64\<close> (a signed 128-bit
  value: if it also fits an \<open>i64\<close>) and nothing otherwise; \<open>get_i32\<close> answers nothing if \<open>z\<close> does not
  fit an \<open>i64\<close> and otherwise \<open>z\<close> wrapped around to 32 bits. On an element of any other kind, a
  256-bit integer included, the three answer nothing.
\<close>

theorem rpc_amounts_exact:
  assumes "scval_to_json x (ScVec (Some vs)) = Inr d" and "i < length vs"
  shows "(\<forall>z. chain_integer (vs ! i) = Some z \<longrightarrow>
      get_i64 d i = (if in_i64 z then Some z else None)
      \<and> get_u64 d i = (if 0 \<le> z \<and> z < 2 ^ 64 \<and> ((\<exists>hi lo. vs ! i = ScI128 hi lo) \<longrightarrow> in_i64 z)
          then Some (nat z) else None)
      \<and> get_i32 d i = (if in_i64 z then Some ((z + 2 ^ 31) mod 2 ^ 32 - 2 ^ 31) else None))
    \<and> (chain_integer (vs ! i) = None \<longrightarrow> get_i64 d i = None \<and> get_u64 d i = None \<and> get_i32 d i = None)"
proof -
  from assms(1) obtain js where d: "d = JArr js" and js: "vec_to_json x vs = Inr js"
    by (auto split: sum.splits)
  from vec_to_json_nth [OF js] assms(2) have i: "i < length js" and el: "scval_to_json x (vs ! i) = Inr (js ! i)"
    by simp_all
  from i have get: "get_i64 d i = as_i64 (js ! i)" "get_u64 d i = as_u64 (js ! i)"
    "get_i32 d i = map_option as_i32 (as_i64 (js ! i))"
    by (simp_all add: d get_i64_def get_u64_def get_i32_def arr_def get_nth_def)
  show ?thesis
    unfolding get
    using integer_readings [of "vs ! i" _ x] other_readings [OF _ el] el
    by (auto simp: as_i32_def reads_integer_def simp del: in_i64_def)
qed

text \<open>An amount within \<open>i64\<close>, one beyond it, and a 32-bit field that wraps around.\<close>

theorem rpc_amounts_exact_witness:
  "let d = JArr [JInt 4294967301, i128_json 0 5000000000, i128_json 1 0] in
    get_i64 d 1 = Some 5000000000 \<and> get_i64 d 2 = None \<and> get_i32 d 0 = Some 5"
proof -
  let ?vs = "[ScU64 4294967301, ScI128 0 5000000000, ScI128 1 0]"
  have d: "scval_to_json sample_xdr (ScVec (Some ?vs)) = Inr (JArr [JInt 4294967301, i128_json 0 5000000000, i128_json 1 0])"
    by simp
  from rpc_amounts_exact [OF d, of 0] rpc_amounts_exact [OF d, of 1] rpc_amounts_exact [OF d, of 2] show ?thesis
    by (simp add: in_i64_def Let_def)
qed

text \<open>
  C23. Positions follow the chain's event ids. The position of a decoded event has the ledger of its
  TOID, and two events are ordered as their ids are, as long as the lower half of the TOID leaves
  the sign bit of an \<open>i32\<close> clear; beyond that the operation index is negative.
\<close>

theorem rpc_positions_ordered:
  assumes "decode_rpc_event x a cname = Some e" and "decode_rpc_event x b cname = Some e'"
    and "xd_cursor x (re_id a) = Some (t, i)" and "xd_cursor x (re_id b) = Some (u, j)"
  shows "ledger_sequence e = uint t div 2 ^ 32
    \<and> (uint t mod 2 ^ 32 < 2 ^ 31 \<and> uint u mod 2 ^ 32 < 2 ^ 31 \<longrightarrow>
        is_after (event_pos e') (event_pos e) = (uint t < uint u \<or> t = u \<and> sint i < sint j))
    \<and> (2 ^ 31 \<le> uint t mod 2 ^ 32 \<longrightarrow> operation_index e < 0)"
proof -
  have e: "event_pos e = Cursor (ledger_of t) (operation_of t) (sint i)"
    and e': "event_pos e' = Cursor (ledger_of u) (operation_of u) (sint j)"
    using decode_pos [OF assms(1)] decode_pos [OF assms(2)] assms(3,4) by auto
  then have "ledger_sequence e = ledger_of t" and "operation_index e = operation_of t"
    by (simp_all add: event_pos_def)
  moreover have "operation_of t < 0" if "2 ^ 31 \<le> uint t mod 2 ^ 32"
  proof -
    have "uint t mod 2 ^ 32 < 2 ^ 32" by simp
    with that have "(uint t mod 2 ^ 32 + 2 ^ 31) mod 2 ^ 32 = uint t mod 2 ^ 32 - 2 ^ 31"
      by (subst mod_pos_geq) (simp_all add: mod_pos_pos_trivial)
    then show ?thesis by (simp add: operation_of_eq as_i32_def)
  qed
  ultimately show ?thesis
    using toid_order [of t u "sint i" "sint j"] by (simp add: e e', simp add: ledger_of_eq)
qed

theorem rpc_positions_ordered_witness:
  "is_after (event_pos (sample_verification ! 1)) (event_pos (sample_verification ! 0))"
proof -
  have a: "decode_rpc_event sample_xdr (sample_rpc_log ! 0) ''verification'' = Some (sample_verification ! 0)"
    and b: "decode_rpc_event sample_xdr (sample_rpc_log ! 1) ''verification'' = Some (sample_verification ! 1)"
    and ids: "xd_cursor sample_xdr (re_id (sample_rpc_log ! 0)) = Some (21474836480, 0)"
      "xd_cursor sample_xdr (re_id (sample_rpc_log ! 1)) = Some (25769803776, 0)"
    by (simp_all add: sample_rpc_log_def sample_xdr_def sample_rpc_event_def decode_rpc_event_def get_nth_def
        sample_verification_def sample_event_def ledger_of_eq operation_of_eq as_i32_def)
  from rpc_positions_ordered [OF a b ids] show ?thesis by simp
qed

end
