(* ===== verification/Identity_Chain.thy ===== *)
theory Identity_Chain
  imports Farmer_Model
begin

text \<open>
  \<open>src/farmers/chain.rs\<close>: the \<open>IdentityChain\<close> trait as a locale, with the ghost view \<open>on_chain\<close>
  of what is registered, and its in-memory provider \<open>StubChain\<close>. \<open>valid\<close> is the invariant of
  the provider's state.
\<close>

record chain_marker =
  cm_kind :: string
  cm_issuer :: string
  cm_issued_ledger :: int

record chain_farmer =
  cf_address :: string
  cf_created_ledger :: int
  cf_updated_ledger :: int
  cf_verification_markers :: "chain_marker list"

datatype chain_error = AlreadyRegistered | ChainNotFound | ChainFailure string

section \<open>The IdentityChain trait\<close>

locale identity_chain =
  fixes valid :: "'c \<Rightarrow> bool"
    and on_chain :: "'c \<Rightarrow> string \<Rightarrow> chain_farmer option"
    and register :: "string \<Rightarrow> string \<Rightarrow> 'c \<Rightarrow> (chain_error + chain_farmer) \<times> 'c"
    and update :: "string \<Rightarrow> string \<Rightarrow> 'c \<Rightarrow> (chain_error + chain_farmer) \<times> 'c"
    and is_registered :: "string \<Rightarrow> 'c \<Rightarrow> (chain_error + bool) \<times> 'c"
  assumes register_valid: "valid c \<Longrightarrow> valid (snd (register a h c))"
    and update_valid: "valid c \<Longrightarrow> valid (snd (update a h c))"
    and register_ok: "valid c \<Longrightarrow> register a h c = (Inr f, c') \<Longrightarrow>
      on_chain c a = None \<and> on_chain c' = (on_chain c)(a \<mapsto> f) \<and> cf_address f = a"
    and register_known: "valid c \<Longrightarrow> on_chain c a \<noteq> None \<Longrightarrow> register a h c = (Inl AlreadyRegistered, c)"
    and update_ok: "valid c \<Longrightarrow> update a h c = (Inr f, c') \<Longrightarrow>
      (\<exists>g. on_chain c a = Some g \<and> cf_created_ledger f = cf_created_ledger g)
      \<and> on_chain c' = (on_chain c)(a \<mapsto> f)"
    and update_unknown: "valid c \<Longrightarrow> on_chain c a = None \<Longrightarrow> update a h c = (Inl ChainNotFound, c)"
    and query: "valid c \<Longrightarrow> is_registered a c = (Inr b, c') \<Longrightarrow> b = (on_chain c a \<noteq> None) \<and> c' = c"
begin

lemma registered_then_known:
  "valid c \<Longrightarrow> register a h c = (Inr f, c') \<Longrightarrow> register a h' c' = (Inl AlreadyRegistered, c')"
  using register_valid [of c a h] register_ok [of c a h f c'] by (intro register_known) auto

lemma registration_kept_by_update:
  "valid c \<Longrightarrow> update a h c = (Inr f, c') \<Longrightarrow> on_chain c b \<noteq> None \<Longrightarrow> on_chain c' b \<noteq> None"
  by (auto dest!: update_ok)

end

section \<open>StubChain\<close>

text \<open>The hash map as its entries; its length is the number of entries.\<close>

type_synonym stub_chain = "(string \<times> chain_farmer) list"

definition stub_chain_new :: stub_chain where
  "stub_chain_new = []"

definition stub_register ::
  "string \<Rightarrow> string \<Rightarrow> stub_chain \<Rightarrow> (chain_error + chain_farmer) \<times> stub_chain" where
  "stub_register address metadata_hash store =
    (if address \<in> fst ` set store then (Inl AlreadyRegistered, store)
     else
       (let ledger = 100000 + int (length store);
            farmer = \<lparr> cf_address = address, cf_created_ledger = ledger,
                       cf_updated_ledger = ledger, cf_verification_markers = [] \<rparr>
        in (Inr farmer, store @ [(address, farmer)])))"

definition stub_update ::
  "string \<Rightarrow> string \<Rightarrow> stub_chain \<Rightarrow> (chain_error + chain_farmer) \<times> stub_chain" where
  "stub_update address metadata_hash store =
    (case map_of store address of
       None \<Rightarrow> (Inl ChainNotFound, store)
     | Some f \<Rightarrow>
        (let farmer = f\<lparr>cf_updated_ledger := 100000 + int (length store)\<rparr>
         in (Inr farmer, map (\<lambda>(a, g). if a = address then (a, farmer) else (a, g)) store)))"

definition stub_is_registered :: "string \<Rightarrow> stub_chain \<Rightarrow> (chain_error + bool) \<times> stub_chain" where
  "stub_is_registered address store = (Inr (address \<in> fst ` set store), store)"

lemma map_of_replace:
  "map_of (map (\<lambda>(a, g). if a = k then (a, f) else (a, g)) store) =
    (if k \<in> fst ` set store then (map_of store)(k \<mapsto> f) else map_of store)"
  by (induction store) (auto simp: fun_eq_iff)

text \<open>An entry's farmer carries the key as its address, and keys are unique.\<close>

definition stub_chain_valid :: "stub_chain \<Rightarrow> bool" where
  "stub_chain_valid store \<longleftrightarrow> distinct (map fst store) \<and> (\<forall>(a, f) \<in> set store. cf_address f = a)"

lemma map_of_domain: "map_of store a = None \<longleftrightarrow> a \<notin> fst ` set store"
  by (simp add: map_of_eq_None_iff)

lemma stub_register_valid: "stub_chain_valid c \<Longrightarrow> stub_chain_valid (snd (stub_register a h c))"
  by (auto simp: stub_chain_valid_def stub_register_def Let_def)

lemma replace_keys: "map fst (map (\<lambda>(x, g). if x = a then (x, h) else (x, g)) c) = map fst c"
  by (induction c) auto

lemma stub_update_valid: "stub_chain_valid c \<Longrightarrow> stub_chain_valid (snd (stub_update a h c))"
proof (cases "map_of c a")
  case (Some f)
  assume v: "stub_chain_valid c"
  let ?f = "f\<lparr>cf_updated_ledger := 100000 + int (length c)\<rparr>"
  let ?c = "map (\<lambda>(x, g). if x = a then (x, ?f) else (x, g)) c"
  have c': "snd (stub_update a h c) = ?c"
    by (simp add: stub_update_def Some Let_def)
  have "cf_address f = a" using v map_of_SomeD [OF Some] by (auto simp: stub_chain_valid_def)
  then have "\<forall>(x, g) \<in> set ?c. cf_address g = x"
    using v by (auto simp: stub_chain_valid_def split: if_splits)
  with v show ?thesis unfolding c' stub_chain_valid_def replace_keys by simp
qed (simp add: stub_update_def)

interpretation stub_chain: identity_chain
    stub_chain_valid map_of stub_register stub_update stub_is_registered
proof unfold_locales
  fix c a h f c'
  show "stub_chain_valid c \<Longrightarrow> stub_register a h c = (Inr f, c') \<Longrightarrow>
      map_of c a = None \<and> map_of c' = (map_of c)(a \<mapsto> f) \<and> cf_address f = a"
    by (auto simp: stub_register_def Let_def map_of_domain map_add_def fun_eq_iff
        map_of_eq_None_iff [THEN iffD2] split: if_splits option.split dest: map_of_SomeD)
next
  fix c a h
  show "stub_chain_valid c \<Longrightarrow> map_of c a \<noteq> None \<Longrightarrow> stub_register a h c = (Inl AlreadyRegistered, c)"
    by (auto simp: stub_register_def map_of_domain)
next
  fix c a h f c'
  assume "stub_update a h c = (Inr f, c')"
  then obtain g where g: "map_of c a = Some g"
    and f: "f = g\<lparr>cf_updated_ledger := 100000 + int (length c)\<rparr>"
    and c': "c' = map (\<lambda>(x, g). if x = a then (x, f) else (x, g)) c"
    by (auto simp: stub_update_def Let_def split: option.splits)
  have "a \<in> fst ` set c" using g by (force dest: map_of_SomeD)
  with g f c' show "(\<exists>g. map_of c a = Some g \<and> cf_created_ledger f = cf_created_ledger g)
      \<and> map_of c' = (map_of c)(a \<mapsto> f)"
    by (simp add: map_of_replace)
next
  fix c a h
  show "map_of c a = None \<Longrightarrow> stub_update a h c = (Inl ChainNotFound, c)"
    by (simp add: stub_update_def)
next
  fix c a b c'
  show "stub_is_registered a c = (Inr b, c') \<Longrightarrow> b = (map_of c a \<noteq> None) \<and> c' = c"
    by (auto simp: stub_is_registered_def map_of_domain)
qed (auto simp: stub_register_valid stub_update_valid)

end
