(* ===== verification/Config.thy ===== *)
theory Config
  imports Rpc_Source Identity_Chain "HOL-Library.AList"
begin

text \<open>
  \<open>src/config.rs\<close>, \<open>src/state.rs\<close> and the decisions of \<open>src/lib.rs\<close> and \<open>src/main.rs\<close> that depend on
  the configuration. \<open>env\<close> is \<open>env::var\<close> (\<open>None\<close>: not set, or not Unicode); the address type and
  its parser are arguments. A \<open>HashMap\<close> is an association list without duplicate keys.
\<close>

section \<open>The contract list\<close>

fun split_on :: "char \<Rightarrow> string \<Rightarrow> string list" where
  "split_on c [] = [[]]"
| "split_on c (x # xs) =
    (if x = c then [] # split_on c xs
     else (case split_on c xs of [] \<Rightarrow> [[x]] | p # ps \<Rightarrow> (x # p) # ps))"

fun split_once :: "char \<Rightarrow> string \<Rightarrow> (string \<times> string) option" where
  "split_once c [] = None"
| "split_once c (x # xs) =
    (if x = c then Some ([], xs)
     else (case split_once c xs of None \<Rightarrow> None | Some (a, b) \<Rightarrow> Some (x # a, b)))"

definition contract_pair :: "string \<Rightarrow> (string \<times> string) option" where
  "contract_pair pair =
    (case split_once CHR '':'' pair of
       None \<Rightarrow> None
     | Some (raw_name, raw_contract) \<Rightarrow>
        (let name = trim raw_name; contract = trim raw_contract in
         if name \<noteq> [] \<and> contract \<noteq> [] then Some (contract, name) else None))"

definition parse_contracts :: "string \<Rightarrow> (string \<times> string) list" where
  "parse_contracts raw =
    fold (\<lambda>(k, v). AList.update k v) (List.map_filter contract_pair (split_on CHR '','' raw)) []"

section \<open>The configuration\<close>

record 'ip config =
  cfg_host :: 'ip
  cfg_port :: nat
  cfg_log_level :: string
  cfg_database_url :: string
  cfg_chain :: string
  cfg_domain :: string
  cfg_session_ttl :: nat
  cfg_rpc_url :: string
  cfg_indexer_contracts :: "(string \<times> string) list"

datatype config_error = MissingDatabaseUrl

definition parse_u16 :: "string \<Rightarrow> nat option" where
  "parse_u16 s = (case parse_u64 s of Some n \<Rightarrow> if n < 65536 then Some n else None | None \<Rightarrow> None)"

definition or_else :: "'a option \<Rightarrow> 'a \<Rightarrow> 'a" where
  "or_else x d = (case x of Some a \<Rightarrow> a | None \<Rightarrow> d)"

definition config_from_env ::
  "(string \<Rightarrow> 'ip option) \<Rightarrow> 'ip \<Rightarrow> (string \<Rightarrow> string option) \<Rightarrow> config_error + 'ip config" where
  "config_from_env parse_ip localhost env =
    (let host = or_else (Option.bind (env ''VERDANT_BACKEND_HOST'') parse_ip) localhost;
         port = or_else (Option.bind (env ''VERDANT_BACKEND_PORT'') parse_u16) 8080;
         log_level = or_else (env ''VERDANT_BACKEND_LOG_LEVEL'') ''info''
     in case env ''DATABASE_URL'' of
          None \<Rightarrow> Inl MissingDatabaseUrl
        | Some database_url \<Rightarrow>
           (let chain = or_else (env ''VERDANT_BACKEND_CHAIN'') ''stub'';
                domain = or_else (env ''VERDANT_BACKEND_DOMAIN'') ''app.verdant.example'';
                session_ttl_secs =
                  or_else (Option.bind (env ''VERDANT_BACKEND_SESSION_TTL_SECS'') parse_u64) (7 * 24 * 60 * 60);
                rpc_url = or_else (env ''VERDANT_BACKEND_RPC_URL'') '''';
                indexer_contracts =
                  parse_contracts (or_else (env ''VERDANT_BACKEND_INDEXER_CONTRACTS'') '''')
            in Inr \<lparr> cfg_host = host, cfg_port = port, cfg_log_level = log_level,
                     cfg_database_url = database_url, cfg_chain = chain, cfg_domain = domain,
                     cfg_session_ttl = session_ttl_secs, cfg_rpc_url = rpc_url,
                     cfg_indexer_contracts = indexer_contracts \<rparr>))"

definition config_addr :: "'ip config \<Rightarrow> 'ip \<times> nat" where
  "config_addr c = (cfg_host c, cfg_port c)"

section \<open>State and start\<close>

text \<open>The pool and the chain backend of \<open>AppState\<close> are the state the operations act on.\<close>

record app_state =
  st_domain :: string
  st_session_ttl :: nat

definition app_state_new :: app_state where
  "app_state_new = \<lparr> st_domain = ''app.verdant.example'', st_session_ttl = 7 * 24 * 60 * 60 \<rparr>"

definition with_domain :: "string \<Rightarrow> app_state \<Rightarrow> app_state" where
  "with_domain domain st = st\<lparr>st_domain := domain\<rparr>"

definition with_session_ttl :: "nat \<Rightarrow> app_state \<Rightarrow> app_state" where
  "with_session_ttl ttl st = st\<lparr>st_session_ttl := ttl\<rparr>"

definition build_chain :: "'ip config \<Rightarrow> stub_chain" where
  "build_chain c = (if cfg_chain c = ''stub'' then stub_chain_new else stub_chain_new)"

text \<open>
  The indexer \<open>main\<close> starts: none without an RPC URL or contracts, an error that ends the program
  when the client cannot be made, else the source and the contracts of the loop, in the order
  \<open>keys\<close> of the map's iteration.
\<close>

definition start_indexer ::
  "(string \<Rightarrow> string + unit) \<Rightarrow> ((string \<times> string) list \<Rightarrow> string list) \<Rightarrow> 'ip config \<Rightarrow>
    chain_events_error + (rpc_source \<times> string list) option" where
  "start_indexer new_client keys c =
    (if cfg_rpc_url c \<noteq> [] \<and> cfg_indexer_contracts c \<noteq> [] then
       (case rpc_new (new_client (cfg_rpc_url c)) (cfg_indexer_contracts c) of
          Inl e \<Rightarrow> Inl e
        | Inr source \<Rightarrow> Inr (Some (source, keys (cfg_indexer_contracts c))))
     else Inr None)"

definition state_of_config :: "'ip config \<Rightarrow> app_state" where
  "state_of_config c = with_session_ttl (cfg_session_ttl c) (with_domain (cfg_domain c) app_state_new)"

section \<open>Lemmas\<close>

lemma split_on_not_Nil: "split_on c s \<noteq> []"
  by (cases s) (auto split: list.split)

lemma split_on_plain: "c \<notin> set s \<Longrightarrow> split_on c s = [s]"
  by (induction s) auto

lemma split_on_append: "c \<notin> set s \<Longrightarrow> split_on c (s @ c # t) = s # split_on c t"
  by (induction s) auto

lemma split_once_append: "c \<notin> set s \<Longrightarrow> split_once c (s @ c # t) = Some (s, t)"
  by (induction s) auto

fun join_with :: "string \<Rightarrow> string list \<Rightarrow> string" where
  "join_with sep [] = []"
| "join_with sep [s] = s"
| "join_with sep (s # t # rest) = s @ sep @ join_with sep (t # rest)"

lemma split_join:
  "ps \<noteq> [] \<Longrightarrow> \<forall>p \<in> set ps. c \<notin> set p \<Longrightarrow> split_on c (join_with [c] ps) = ps"
  by (induction "[c]" ps rule: join_with.induct) (simp_all add: split_on_plain split_on_append)

lemma fold_update_fresh:
  "distinct (map fst kvs @ map fst acc) \<Longrightarrow> fold (\<lambda>(k, v). AList.update k v) kvs acc = acc @ kvs"
proof (induction kvs arbitrary: acc)
  case (Cons kv kvs)
  obtain k v where kv: "kv = (k, v)" by force
  with Cons.prems have "k \<notin> fst ` set acc" by auto
  then have "AList.update k v acc = acc @ [(k, v)]" by (induction acc) auto
  with Cons kv show ?case by simp
qed simp

end
