(* ===== verification/Farmer_Codec.thy ===== *)
theory Farmer_Codec
  imports Farmer_Model "HOL-Library.Monad_Syntax"
begin

text \<open>
  The JSON forms of a farmer's profile: the \<open>serde\<close> derives of \<open>src/farmers/model.rs\<close> (as they
  write the \<open>metadata\<close> column and read it and the marker column back) and the canonical form of
  \<open>src/farmers/hash.rs\<close>. \<open>serde_json::to_vec\<close> and SHA-256 with hex encoding are parameters.

  A derived \<open>Deserialize\<close> takes an object (unknown keys ignored) or an array with the fields in
  order and nothing left over. An absent or null \<open>Option\<close> is \<open>None\<close>.
\<close>

section \<open>Writing\<close>

definition skip_none :: "string \<Rightarrow> string option \<Rightarrow> (string \<times> json) list" where
  "skip_none key x = (case x of Some s \<Rightarrow> [(key, JStr s)] | None \<Rightarrow> [])"

text \<open>\<open>json!(metadata)\<close>: the fields, \<open>None\<close> skipped, collected into an ordered map.\<close>

definition metadata_fields :: "farmer_metadata \<Rightarrow> (string \<times> json) list" where
  "metadata_fields m =
    (''name'', JStr (name m)) # skip_none ''region'' (region m) @ skip_none ''district'' (district m)
      @ skip_none ''bio'' (bio m) @ skip_none ''profileImageHash'' (profile_image_hash m)"

definition metadata_to_value :: "farmer_metadata \<Rightarrow> json" where
  "metadata_to_value m = JObj (fold (\<lambda>(k, v). bt_insert k v) (metadata_fields m) [])"

section \<open>Reading\<close>

text \<open>An \<open>Option<String>\<close> field: the outer option is the decoding error.\<close>

fun opt_field :: "json option \<Rightarrow> string option option" where
  "opt_field None = Some None"
| "opt_field (Some JNull) = Some None"
| "opt_field (Some (JStr s)) = Some (Some s)"
| "opt_field (Some _) = None"

definition decode_metadata :: "(nat \<Rightarrow> json option) \<Rightarrow> farmer_metadata option" where
  "decode_metadata field = do {
     v \<leftarrow> field 0;
     n \<leftarrow> as_str v;
     r \<leftarrow> opt_field (field 1);
     d \<leftarrow> opt_field (field 2);
     b \<leftarrow> opt_field (field 3);
     h \<leftarrow> opt_field (field 4);
     Some \<lparr> name = n, region = r, district = d, bio = b, profile_image_hash = h \<rparr> }"

definition metadata_keys :: "string list" where
  "metadata_keys = [''name'', ''region'', ''district'', ''bio'', ''profileImageHash'']"

fun metadata_from_value :: "json \<Rightarrow> farmer_metadata option" where
  "metadata_from_value (JObj kvs) = decode_metadata (\<lambda>i. map_of kvs (metadata_keys ! i))"
| "metadata_from_value (JArr xs) =
    (if length xs \<le> 5 then decode_metadata (get_nth xs) else None)"
| "metadata_from_value _ = None"

text \<open>\<open>FarmerMarkerRow\<close>: its keys are in snake case.\<close>

definition decode_marker :: "(nat \<Rightarrow> json option) \<Rightarrow> verification_marker option" where
  "decode_marker field = do {
     v0 \<leftarrow> field 0; k \<leftarrow> as_str v0;
     v1 \<leftarrow> field 1; i \<leftarrow> as_str v1;
     v2 \<leftarrow> field 2; l \<leftarrow> as_i64 v2;
     Some \<lparr> marker_kind = k, marker_issuer = i, marker_issued_ledger = l \<rparr> }"

definition marker_keys :: "string list" where
  "marker_keys = [''kind'', ''issuer'', ''issued_ledger'']"

fun marker_from_value :: "json \<Rightarrow> verification_marker option" where
  "marker_from_value (JObj kvs) = decode_marker (\<lambda>i. map_of kvs (marker_keys ! i))"
| "marker_from_value (JArr xs) = (if length xs \<le> 3 then decode_marker (get_nth xs) else None)"
| "marker_from_value _ = None"

fun collect :: "('a \<Rightarrow> 'b option) \<Rightarrow> 'a list \<Rightarrow> 'b list option" where
  "collect f [] = Some []"
| "collect f (x # xs) = do { y \<leftarrow> f x; ys \<leftarrow> collect f xs; Some (y # ys) }"

fun markers_from_value :: "json \<Rightarrow> verification_marker list option" where
  "markers_from_value (JArr xs) = collect marker_from_value xs"
| "markers_from_value _ = None"

section \<open>The canonical form\<close>

definition insert_opt :: "string \<Rightarrow> string option \<Rightarrow> (string \<times> json) list \<Rightarrow> (string \<times> json) list" where
  "insert_opt key x kvs = (case x of Some s \<Rightarrow> bt_insert key (JStr s) kvs | None \<Rightarrow> kvs)"

definition canonical_map :: "farmer_metadata \<Rightarrow> (string \<times> json) list" where
  "canonical_map m =
    (let kvs = bt_insert ''name'' (JStr (name m)) [];
         kvs = insert_opt ''region'' (region m) kvs;
         kvs = insert_opt ''district'' (district m) kvs;
         kvs = insert_opt ''bio'' (bio m) kvs
     in insert_opt ''profileImageHash'' (profile_image_hash m) kvs)"

definition canonical_bytes :: "(json \<Rightarrow> string) \<Rightarrow> farmer_metadata \<Rightarrow> string" where
  "canonical_bytes to_vec m = to_vec (JObj (canonical_map m))"

definition metadata_hash_of ::
  "(json \<Rightarrow> string) \<Rightarrow> (string \<Rightarrow> string) \<Rightarrow> farmer_metadata \<Rightarrow> string" where
  "metadata_hash_of to_vec sha256_hex m = sha256_hex (canonical_bytes to_vec m)"

section \<open>Lemmas\<close>

lemma insert_opt_lookup:
  "map_of (insert_opt k x kvs) = (case x of Some s \<Rightarrow> (map_of kvs)(k \<mapsto> JStr s) | None \<Rightarrow> map_of kvs)"
  by (simp add: insert_opt_def bt_insert_lookup split: option.split)

lemma insert_opt_sorted: "bt_sorted kvs \<Longrightarrow> bt_sorted (insert_opt k x kvs)"
  by (simp add: insert_opt_def bt_insert_sorted split: option.split)

lemma canonical_map_sorted: "bt_sorted (canonical_map m)"
  by (simp add: canonical_map_def Let_def insert_opt_sorted)

lemma canonical_map_fold: "canonical_map m = fold (\<lambda>(k, v). bt_insert k v) (metadata_fields m) []"
  by (simp add: canonical_map_def metadata_fields_def skip_none_def insert_opt_def Let_def
      split: option.split)

text \<open>The bytes that are hashed are those of the value that is stored.\<close>

lemma canonical_is_stored: "metadata_to_value m = JObj (canonical_map m)"
  by (simp add: metadata_to_value_def canonical_map_fold)

lemma canonical_lookup:
  "map_of (canonical_map m) ''name'' = Some (JStr (name m))"
  "map_of (canonical_map m) ''region'' = map_option JStr (region m)"
  "map_of (canonical_map m) ''district'' = map_option JStr (district m)"
  "map_of (canonical_map m) ''bio'' = map_option JStr (bio m)"
  "map_of (canonical_map m) ''profileImageHash'' = map_option JStr (profile_image_hash m)"
  by (simp_all add: canonical_map_def Let_def insert_opt_lookup split: option.split)

lemma opt_field_map [simp]: "opt_field (map_option JStr x) = Some x"
  by (cases x) auto

lemma metadata_roundtrip: "metadata_from_value (metadata_to_value m) = Some m"
  by (simp add: canonical_is_stored decode_metadata_def metadata_keys_def canonical_lookup
      numeral_eq_Suc)

lemma canonical_map_inj: "canonical_map m = canonical_map m' \<longleftrightarrow> m = m'"
  by (metis canonical_is_stored metadata_roundtrip option.inject)

text \<open>The empty object the indexer inserts is no profile.\<close>

lemma metadata_from_empty: "metadata_from_value (JObj []) = None"
  by (simp add: decode_metadata_def)

end
