(* ===== verification/Pagination.thy ===== *)
theory Pagination
  imports Database "HOL-Library.Product_Lexorder"
begin

text \<open>
  What the list endpoints share (\<open>src/routes/projections.rs\<close>, \<open>src/farmers/service.rs\<close>): the
  normalisation of page and page size, the \<open>i64\<close> arithmetic of the offset and of the page count,
  and \<open>LIMIT/OFFSET\<close>. An overflow panics in a build with overflow checks (\<open>checks\<close>, the dev
  profile) and wraps in one without (the release profile).
\<close>

definition wrap_i64 :: "int \<Rightarrow> int" where
  "wrap_i64 x = (x + 2 ^ 63) mod 2 ^ 64 - 2 ^ 63"

definition i64_value :: "bool \<Rightarrow> int \<Rightarrow> failure + int" where
  "i64_value checks x = (if in_i64 x then Inr x else if checks then Inl Panic else Inr (wrap_i64 x))"

definition normalize_page :: "int \<Rightarrow> int" where
  "normalize_page page = max page 1"

definition normalize_page_size :: "int \<Rightarrow> int" where
  "normalize_page_size page_size = clamp 1 100 page_size"

definition page_offset :: "bool \<Rightarrow> int \<Rightarrow> int \<Rightarrow> failure + int" where
  "page_offset checks page page_size = i64_value checks ((page - 1) * page_size)"

definition total_pages_of :: "int \<Rightarrow> int \<Rightarrow> int" where
  "total_pages_of count page_size = max (trunc_div (count + page_size - 1) page_size) 1"

record pagination =
  pg_page :: int
  pg_page_size :: int
  pg_total :: int
  pg_total_pages :: int

text \<open>\<open>LIMIT l OFFSET o\<close>: PostgreSQL rejects negative values.\<close>

definition limit_offset :: "int \<Rightarrow> int \<Rightarrow> 'r list \<Rightarrow> sqlx_error + 'r list" where
  "limit_offset l off rows =
    (if l < 0 \<or> off < 0 then Inl InvalidRowCount else Inr (take (nat l) (drop (nat off) rows)))"

text \<open>A \<open>SELECT\<close> whose evaluation can fail, with the driver's error as the handlers map it.\<close>

definition select :: "(pg \<Rightarrow> sqlx_error + 'a) \<Rightarrow> (pg, failure, 'a) action" where
  "select g = map_err (\<lambda>e. Failed (Database e)) (and_then (query g) lift_result)"

text \<open>The common body of the three list handlers over the matching rows in their order.\<close>

definition list_page ::
  "bool \<Rightarrow> int \<Rightarrow> int \<Rightarrow> (pg \<Rightarrow> 'r list) \<Rightarrow> (pg, failure, 'r list \<times> pagination) action" where
  "list_page checks q_page q_page_size matching =
    (let page = normalize_page q_page; page_size = normalize_page_size q_page_size in
     and_then (lift_result (page_offset checks page page_size)) (\<lambda>offset.
     and_then (select (\<lambda>db. limit_offset page_size offset (matching db))) (\<lambda>rows.
     and_then (select (\<lambda>db. Inr (int (length (matching db))))) (\<lambda>total.
     ok (rows,
       \<lparr> pg_page = page, pg_page_size = page_size, pg_total = total,
         pg_total_pages = total_pages_of total page_size \<rparr>)))))"

lemma select_healthy: "budget db = None \<Longrightarrow>
  select g db = (case g db of Inl e \<Rightarrow> (Inl (Failed (Database e)), db) | Inr a \<Rightarrow> (Inr a, db))"
  by (simp add: select_def map_err_apply and_then_apply split: sum.split)

lemma keeps_select [keeps_intros]: "fault_blind P \<Longrightarrow> keeps P (select g)"
  by (auto simp: select_def intro!: keeps_intros)

lemma keeps_list_page [keeps_intros]: "fault_blind P \<Longrightarrow> keeps P (list_page checks p s m)"
  by (auto simp: list_page_def Let_def intro!: keeps_intros)

lemma page_size_bounds: "1 \<le> normalize_page_size s" "normalize_page_size s \<le> 100"
  by (simp_all add: normalize_page_size_def clamp_def)

lemma list_page_healthy:
  assumes "budget db = None" and "in_i64 ((normalize_page p - 1) * normalize_page_size s)"
  shows "list_page checks p s matching db =
    (Inr (take (nat (normalize_page_size s))
            (drop (nat ((normalize_page p - 1) * normalize_page_size s)) (matching db)),
      \<lparr> pg_page = normalize_page p, pg_page_size = normalize_page_size s,
        pg_total = int (length (matching db)),
        pg_total_pages = total_pages_of (int (length (matching db))) (normalize_page_size s) \<rparr>), db)"
proof -
  have "0 \<le> (normalize_page p - 1) * normalize_page_size s"
    using page_size_bounds [of s] by (simp add: normalize_page_def)
  then have "\<not> (normalize_page_size s < 0 \<or> (normalize_page p - 1) * normalize_page_size s < 0)"
    using page_size_bounds [of s] by linarith
  with assms show ?thesis
    by (simp add: list_page_def Let_def and_then_apply page_offset_def i64_value_def select_healthy
        limit_offset_def)
qed

text \<open>The page count is the least that holds all rows, and at least one.\<close>

lemma total_pages_ceil:
  assumes "0 < k"
  shows "total_pages_of (int n) (int k) = int (max ((n + k - 1) div k) 1)"
proof -
  have eq: "int n + int k - 1 = int (n + k - 1)" using assms by simp
  have "trunc_div (int (n + k - 1)) (int k) = int ((n + k - 1) div k)"
    using assms by (subst trunc_div_nonneg) (simp_all add: zdiv_int del: of_nat_add)
  then show ?thesis unfolding total_pages_of_def eq by simp
qed

lemma pages_concat:
  "0 < k \<Longrightarrow> length xs \<le> m * k \<Longrightarrow> concat (map (\<lambda>i. take k (drop (i * k) xs)) [0..<m]) = xs"
proof (induction m arbitrary: xs)
  case (Suc m)
  have "map (\<lambda>i. take k (drop (i * k) xs)) [0..<Suc m] =
      take k xs # map (\<lambda>i. take k (drop (i * k) (drop k xs))) [0..<m]"
    by (simp add: upt_conv_Cons map_Suc_upt [symmetric] add.commute del: upt_Suc)
  with Suc.IH [of "drop k xs"] Suc.prems show ?case by simp
qed simp

section \<open>All pages of a query\<close>

text \<open>What a client reads from a response: the rows, the number of matches and the number of pages.\<close>

definition listed :: "(failure + 'r list \<times> pagination) \<times> pg \<Rightarrow> 'r list" where
  "listed response = (case fst response of Inr (rows, p) \<Rightarrow> rows | Inl e \<Rightarrow> [])"

definition reported_total :: "(failure + 'r list \<times> pagination) \<times> pg \<Rightarrow> int" where
  "reported_total response = (case fst response of Inr (rows, p) \<Rightarrow> pg_total p | Inl e \<Rightarrow> 0)"

definition reported_pages :: "(failure + 'r list \<times> pagination) \<times> pg \<Rightarrow> int" where
  "reported_pages response = (case fst response of Inr (rows, p) \<Rightarrow> pg_total_pages p | Inl e \<Rightarrow> 0)"

text \<open>The pages from 1 to the page count that the first response reports, concatenated.\<close>

definition all_pages :: "(int \<Rightarrow> (pg, failure, 'r list \<times> pagination) action) \<Rightarrow> pg \<Rightarrow> 'r list" where
  "all_pages request db =
    concat (map (\<lambda>i. listed (request (int i + 1) db)) [0..<nat (reported_pages (request 1 db))])"

lemma page_offsets_fit:
  fixes k :: nat
  assumes "0 < k" "k \<le> 100" and "n < 2 ^ 62" and "i < max ((n + k - 1) div k) 1"
  shows "in_i64 (int i * int k)"
proof -
  have "i \<le> (n + k - 1) div k" using assms(4) by (auto simp: max_def split: if_splits)
  then have "i * k \<le> n + k - 1" by (metis div_mult_mod_eq le_add1 mult_le_mono1 order_trans)
  then have "i * k < 2 ^ 62 + 100" using assms(2,3) by linarith
  then have "int (i * k) < int (2 ^ 62 + 100)" by (simp only: of_nat_less_iff)
  then have "int i * int k < 2 ^ 63" by simp
  moreover have "- (2 ^ 63) \<le> int i * int k" by (rule order_trans [of _ 0]) simp_all
  ultimately show ?thesis by (simp only: in_i64_def simp_thms)
qed

text \<open>An endpoint that answers each page by its slice answers all rows in all pages.\<close>

lemma all_pages_exact:
  fixes k :: nat
  assumes "0 < k" "k \<le> 100" and "length rows < 2 ^ 62"
    and "\<And>i. in_i64 (int i * int k) \<Longrightarrow> \<exists>p. fst (request (int i + 1) db) = Inr (take k (drop (i * k) rows), p)
      \<and> pg_total p = int (length rows) \<and> pg_total_pages p = total_pages_of (int (length rows)) (int k)"
  shows "all_pages request db = rows \<and> reported_total (request 1 db) = int (length rows)"
proof -
  let ?pages = "max ((length rows + k - 1) div k) 1"
  have "in_i64 (int 0 * int k)" by (simp add: in_i64_def)
  from assms(4) [OF this] obtain p where first: "fst (request 1 db) = Inr (take k rows, p)"
    "pg_total p = int (length rows)" "pg_total_pages p = total_pages_of (int (length rows)) (int k)" by auto
  then have pages: "nat (reported_pages (request 1 db)) = ?pages"
    by (simp only: reported_pages_def total_pages_ceil [OF assms(1)] sum.case prod.case nat_int)
  have "length rows \<le> ((length rows + k - 1) div k) * k"
    using assms(1) div_mult_mod_eq [of "length rows + k - 1" k] mod_less_divisor [OF assms(1), of "length rows + k - 1"]
    by linarith
  then have enough: "length rows \<le> ?pages * k" by (metis max.cobounded1 mult_le_mono1 order_trans)
  have item: "listed (request (int i + 1) db) = take k (drop (i * k) rows)" if "i < ?pages" for i
    using assms(4) [OF page_offsets_fit [OF assms(1-3) that]] by (auto simp: listed_def)
  have "all_pages request db = concat (map (\<lambda>i. take k (drop (i * k) rows)) [0..<?pages])"
    unfolding all_pages_def pages by (intro arg_cong [where f = concat] map_cong) (simp_all add: item)
  also have "\<dots> = rows" by (rule pages_concat [OF assms(1) enough])
  finally show ?thesis using first by (simp add: reported_total_def)
qed

lemma list_pages_complete:
  assumes "budget db = None" and "length (matching db) < 2 ^ 62"
  shows "all_pages (\<lambda>p. list_page checks p s matching) db = matching db
    \<and> reported_total (list_page checks 1 s matching db) = int (length (matching db))"
proof (rule all_pages_exact [where k = "nat (normalize_page_size s)"])
  show "0 < nat (normalize_page_size s)" "nat (normalize_page_size s) \<le> 100"
    using page_size_bounds [of s] by simp_all
  have size: "int (nat (normalize_page_size s)) = normalize_page_size s" using page_size_bounds [of s] by simp
  fix i assume "in_i64 (int i * int (nat (normalize_page_size s)))"
  then have "in_i64 (int i * normalize_page_size s)" by (simp only: size)
  then have fits: "in_i64 ((normalize_page (int i + 1) - 1) * normalize_page_size s)"
    by (simp add: normalize_page_def)
  have "nat (int i * normalize_page_size s) = i * nat (normalize_page_size s)" by (simp add: nat_mult_distrib)
  then show "\<exists>p. fst (list_page checks (int i + 1) s matching db) =
        Inr (take (nat (normalize_page_size s)) (drop (i * nat (normalize_page_size s)) (matching db)), p)
      \<and> pg_total p = int (length (matching db))
      \<and> pg_total_pages p = total_pages_of (int (length (matching db))) (int (nat (normalize_page_size s)))"
    using list_page_healthy [OF assms(1) fits, of checks matching] size by (simp add: normalize_page_def)
qed (rule assms(2))

section \<open>Offsets that overflow\<close>

text \<open>
  What a list endpoint answers to a page whose offset is not an \<open>i64\<close>: a build with overflow checks
  panics, one without takes the offset modulo \<open>2 ^ 64\<close>, which PostgreSQL refuses if it is negative.
\<close>

definition overflow_answers ::
  "(bool \<Rightarrow> (pg, failure, 'r list \<times> pagination) action) \<Rightarrow> int \<Rightarrow> int \<Rightarrow> 'r list \<Rightarrow> pg \<Rightarrow> bool" where
  "overflow_answers request page per_page rows db \<longleftrightarrow>
    (let k = clamp 1 100 per_page; off = (max page 1 - 1) * k; wrapped = (off + 2 ^ 63) mod 2 ^ 64 - 2 ^ 63 in
     2 ^ 63 \<le> off \<longrightarrow>
       request True db = (Inl Panic, db)
       \<and> (if wrapped < 0 then request False db = (Inl (Failed (Database InvalidRowCount)), db)
          else listed (request False db) = take (nat k) (drop (nat wrapped) rows)))"

lemma list_page_overflow:
  assumes "budget db = None"
  shows "overflow_answers (\<lambda>checks. list_page checks page per_page matching) page per_page (matching db) db"
proof -
  have k: "\<not> clamp 1 100 per_page < 0" by (simp add: clamp_def)
  show ?thesis
    using assms k
    by (auto simp: overflow_answers_def Let_def list_page_def and_then_apply page_offset_def i64_value_def
        in_i64_def wrap_i64_def normalize_page_def normalize_page_size_def select_healthy limit_offset_def
        listed_def)
qed

end
