(* ===== verification/Farmer_Service.thy ===== *)
theory Farmer_Service
  imports Farmer_Codec Identity_Chain Pagination Event_Store
begin

text \<open>
  \<open>src/farmers/service.rs\<close>. The state of an operation is the chain backend (any provider of
  \<open>IdentityChain\<close>, the type \<open>'c\<close>) and the database. \<open>hash\<close> is \<open>metadata_hash\<close> with its
  cryptography fixed. \<open>arrange\<close> is the order in which the server reads the rows, which decides
  between rows created at the same time, \<open>ilike\<close> its \<open>ILIKE\<close> and \<open>as_text\<close> the text of a JSON value for \<open>->>\<close>.
\<close>

type_synonym ('c, 'a) service = "('c \<times> pg, app_error, 'a) action"

definition on_pg :: "(pg, 'e, 'a) action \<Rightarrow> ('c \<times> pg, 'e, 'a) action" where
  "on_pg m = (\<lambda>(c, db). case m db of (r, db') \<Rightarrow> (r, (c, db')))"

definition on_backend :: "('c \<Rightarrow> ('e + 'a) \<times> 'c) \<Rightarrow> ('c \<times> pg, 'e, 'a) action" where
  "on_backend m = (\<lambda>(c, db). case m c of (r, c') \<Rightarrow> (r, (c', db)))"

definition ERR_UNAUTHORIZED_ACTOR :: string where
  "ERR_UNAUTHORIZED_ACTOR = ''caller is not the addressed farmer''"

fun map_chain_error :: "chain_error \<Rightarrow> app_error" where
  "map_chain_error AlreadyRegistered = Conflict ''farmer already registered''"
| "map_chain_error ChainNotFound = NotFound ''farmer not found on-chain''"
| "map_chain_error (ChainFailure msg) = InternalError msg"

section \<open>Registration\<close>

definition new_farmer_row :: "int \<Rightarrow> string \<Rightarrow> farmer_metadata \<Rightarrow> string \<Rightarrow> chain_farmer \<Rightarrow> farmer_row" where
  "new_farmer_row now address m h cf =
    \<lparr> fa_address = address, fa_id = farmer_id address, fa_metadata = metadata_to_value m,
      fa_metadata_hash = h, fa_registered = True,
      fa_created_ledger = Some (cf_created_ledger cf), fa_updated_ledger = Some (cf_updated_ledger cf),
      fa_verification_markers = JArr [], fa_created_at = now \<rparr>"

text \<open>An \<open>INSERT\<close> without conflict clause: both unique constraints are errors.\<close>

definition insert_farmer_strict :: "farmer_row \<Rightarrow> farmer_row list \<Rightarrow> sqlx_error + farmer_row list" where
  "insert_farmer_strict new t =
    (if fa_address new \<in> fa_address ` set t then Inl (UniqueViolation ''farmers_pkey'')
     else if fa_id new \<in> fa_id ` set t then Inl (UniqueViolation ''farmers_id_key'')
     else Inr (t @ [new]))"

definition insert_farmer ::
  "string \<Rightarrow> farmer_metadata \<Rightarrow> string \<Rightarrow> chain_farmer \<Rightarrow> unit statement" where
  "insert_farmer address m h cf =
    execute (\<lambda>db.
      case insert_farmer_strict (new_farmer_row (pg_now db) address m h cf) (farmers db) of
        Inl e \<Rightarrow> Inl e
      | Inr t \<Rightarrow> Inr (db\<lparr>farmers := t\<rparr>))"

definition register_farmer ::
  "(string \<Rightarrow> bool) \<Rightarrow> (farmer_metadata \<Rightarrow> string) \<Rightarrow>
    (string \<Rightarrow> string \<Rightarrow> 'c \<Rightarrow> (chain_error + chain_farmer) \<times> 'c) \<Rightarrow>
    register_farmer_request \<Rightarrow> string \<Rightarrow> ('c, farmer) service" where
  "register_farmer is_pk hash chain_register req actor =
    (case parse_farmer_identifier is_pk (req_address req) of
       Inl e \<Rightarrow> fail e
     | Inr address \<Rightarrow>
        if actor \<noteq> address then fail (Unauthorized ERR_UNAUTHORIZED_ACTOR)
        else if trim (name (req_metadata req)) = [] then
          fail (BadRequest ''metadata.name must be non-empty'')
        else
          (let canonical_hash = hash (req_metadata req) in
           if (case req_metadata_hash req of Some provided \<Rightarrow> provided \<noteq> canonical_hash | None \<Rightarrow> False)
           then fail (BadRequest ''provided metadataHash does not match canonical hash'')
           else
             and_then (map_err map_chain_error (on_backend (chain_register address canonical_hash)))
               (\<lambda>chain_farmer.
             let ident = farmer_id address in
             and_then (on_pg (map_err Database
               (insert_farmer address (req_metadata req) canonical_hash chain_farmer))) (\<lambda>_.
             ok \<lparr> f_address = address, f_id = ident, f_registered = True,
                  f_created_ledger = Some (cf_created_ledger chain_farmer),
                  f_updated_ledger = Some (cf_updated_ledger chain_farmer),
                  f_metadata = req_metadata req, f_metadata_hash = canonical_hash,
                  f_verification_markers = [] \<rparr>))))"

section \<open>Lookup\<close>

text \<open>What is read from a row; the texts of the decoders' errors are left out of the messages.\<close>

definition farmer_of_row :: "farmer_row \<Rightarrow> app_error + farmer" where
  "farmer_of_row row =
    (case metadata_from_value (fa_metadata row) of
       None \<Rightarrow> Inl (InternalError ''metadata decode'')
     | Some m \<Rightarrow>
        (case markers_from_value (fa_verification_markers row) of
           None \<Rightarrow> Inl (InternalError ''markers decode'')
         | Some ms \<Rightarrow>
            Inr \<lparr> f_address = fa_address row, f_id = fa_id row, f_registered = fa_registered row,
                  f_created_ledger = fa_created_ledger row, f_updated_ledger = fa_updated_ledger row,
                  f_metadata = m, f_metadata_hash = fa_metadata_hash row,
                  f_verification_markers = ms \<rparr>))"

definition get_farmer :: "(string \<Rightarrow> bool) \<Rightarrow> string \<Rightarrow> (pg, app_error, farmer) action" where
  "get_farmer is_pk input =
    (case parse_farmer_identifier is_pk input of
       Inl e \<Rightarrow> fail e
     | Inr address \<Rightarrow>
        and_then (map_err Database (query (\<lambda>db. tbl_find fa_address (farmers db) address))) (\<lambda>row.
        case row of
          None \<Rightarrow> fail (NotFound (''farmer '' @ address @ '' not found''))
        | Some r \<Rightarrow> lift_result (farmer_of_row r)))"

section \<open>Update\<close>

definition metadata_set :: "farmer_metadata \<Rightarrow> string \<Rightarrow> chain_farmer \<Rightarrow> farmer_row \<Rightarrow> farmer_row" where
  "metadata_set m h cf r =
    r\<lparr> fa_metadata := metadata_to_value m, fa_metadata_hash := h,
       fa_updated_ledger := Some (cf_updated_ledger cf) \<rparr>"

definition update_farmer_row ::
  "string \<Rightarrow> farmer_metadata \<Rightarrow> string \<Rightarrow> chain_farmer \<Rightarrow> unit statement" where
  "update_farmer_row address m h cf =
    execute (\<lambda>db. Inr (db\<lparr>farmers :=
      tbl_update fa_address address (metadata_set m h cf) (farmers db)\<rparr>))"

definition update_metadata ::
  "(string \<Rightarrow> bool) \<Rightarrow> (farmer_metadata \<Rightarrow> string) \<Rightarrow>
    (string \<Rightarrow> string \<Rightarrow> 'c \<Rightarrow> (chain_error + chain_farmer) \<times> 'c) \<Rightarrow>
    string \<Rightarrow> farmer_metadata \<Rightarrow> string \<Rightarrow> ('c, farmer) service" where
  "update_metadata is_pk hash chain_update input m actor =
    (case parse_farmer_identifier is_pk input of
       Inl e \<Rightarrow> fail e
     | Inr address \<Rightarrow>
        if actor \<noteq> address then fail (Unauthorized ERR_UNAUTHORIZED_ACTOR)
        else if trim (name m) = [] then fail (BadRequest ''metadata.name must be non-empty'')
        else
          (let canonical_hash = hash m in
           and_then (map_err map_chain_error (on_backend (chain_update address canonical_hash)))
             (\<lambda>chain_farmer.
           and_then (on_pg (map_err Database
             (update_farmer_row address m canonical_hash chain_farmer))) (\<lambda>_.
           on_pg (get_farmer is_pk address)))))"

section \<open>Search\<close>

record farmer_search_item =
  si_address :: string
  si_id :: string
  si_name :: string
  si_region :: "string option"
  si_district :: "string option"
  si_verification_count :: int

definition search_item :: "farmer_row \<Rightarrow> farmer_search_item" where
  "search_item row =
    (let m = (case metadata_from_value (fa_metadata row) of Some m \<Rightarrow> m
              | None \<Rightarrow> \<lparr> name = [], region = None, district = None, bio = None,
                          profile_image_hash = None \<rparr>);
         markers = (case markers_from_value (fa_verification_markers row) of Some ms \<Rightarrow> ms | None \<Rightarrow> [])
     in \<lparr> si_address = fa_address row, si_id = fa_id row, si_name = name m, si_region = region m,
          si_district = district m, si_verification_count = int (length markers) \<rparr>)"

text \<open>\<open>metadata->>'key'\<close>: \<open>NULL\<close> when the key is absent or its value is null.\<close>

definition arrow_text :: "(json \<Rightarrow> string) \<Rightarrow> json \<Rightarrow> string \<Rightarrow> string option" where
  "arrow_text as_text v key =
    (case get_key v key of
       None \<Rightarrow> None
     | Some JNull \<Rightarrow> None
     | Some (JStr s) \<Rightarrow> Some s
     | Some other \<Rightarrow> Some (as_text other))"

definition matches_pattern ::
  "(json \<Rightarrow> string) \<Rightarrow> (string \<Rightarrow> string \<Rightarrow> bool) \<Rightarrow> string \<Rightarrow> farmer_row \<Rightarrow> bool" where
  "matches_pattern as_text ilike like_pattern row \<longleftrightarrow>
    (\<exists>key \<in> set [''name'', ''region'', ''district''].
      case arrow_text as_text (fa_metadata row) key of Some t \<Rightarrow> ilike t like_pattern | None \<Rightarrow> False)"

definition matching_farmers ::
  "(json \<Rightarrow> string) \<Rightarrow> (string \<Rightarrow> string \<Rightarrow> bool) \<Rightarrow> string \<Rightarrow> pg \<Rightarrow> farmer_row list" where
  "matching_farmers as_text ilike search_pattern db =
    (if search_pattern = [] then farmers db
     else filter (matches_pattern as_text ilike (''%'' @ search_pattern @ ''%'')) (farmers db))"

text \<open>\<open>ORDER BY created_at DESC\<close>.\<close>

definition newest_first :: "(farmer_row list \<Rightarrow> farmer_row list) \<Rightarrow> farmer_row list \<Rightarrow> farmer_row list" where
  "newest_first arrange rows = sort_key (\<lambda>r. - fa_created_at r) (arrange rows)"

definition search_farmers ::
  "bool \<Rightarrow> (json \<Rightarrow> string) \<Rightarrow> (string \<Rightarrow> string \<Rightarrow> bool) \<Rightarrow> (farmer_row list \<Rightarrow> farmer_row list) \<Rightarrow>
    string option \<Rightarrow> int \<Rightarrow> int \<Rightarrow> (pg, failure, farmer_search_item list \<times> pagination) action" where
  "search_farmers checks as_text ilike arrange q q_page q_page_size =
    (let page = max q_page 1; page_size = clamp 1 100 q_page_size in
     and_then (lift_result (page_offset checks page page_size)) (\<lambda>offset.
     let search_pattern = (case q of Some s \<Rightarrow> s | None \<Rightarrow> []) in
     and_then (select (\<lambda>db. Inr (int (length (matching_farmers as_text ilike search_pattern db))))) (\<lambda>total.
     and_then (select (\<lambda>db. limit_offset page_size offset
         (newest_first arrange (matching_farmers as_text ilike search_pattern db)))) (\<lambda>rows.
     ok (map search_item rows,
       \<lparr> pg_page = page, pg_page_size = page_size, pg_total = total,
         pg_total_pages = total_pages_of total page_size \<rparr>)))))"

section \<open>Invariant of the farmers table\<close>

text \<open>The primary key holds, and the second unique column is a function of it.\<close>

definition farmers_ok :: "pg \<Rightarrow> bool" where
  "farmers_ok db \<longleftrightarrow> tbl_ok fa_address (farmers db)
    \<and> (\<forall>r \<in> set (farmers db). fa_id r = farmer_id (fa_address r))"

lemma farmers_ok_blind: "fault_blind farmers_ok"
  by (simp add: fault_blind_def farmers_ok_def)

text \<open>With the invariant, only the primary key can be violated.\<close>

lemma insert_farmer_strict_ok:
  assumes "farmers_ok db" and "fa_id new = farmer_id (fa_address new)"
  shows "insert_farmer_strict new (farmers db) =
    (if fa_address new \<in> fa_address ` set (farmers db) then Inl (UniqueViolation ''farmers_pkey'')
     else Inr (farmers db @ [new]))"
  using assms by (auto simp: insert_farmer_strict_def farmers_ok_def image_iff)

lemma keeps_insert_farmer: "keeps farmers_ok (insert_farmer a m h cf)"
  unfolding insert_farmer_def
proof (rule keeps_execute [OF farmers_ok_blind])
  fix db db'
  assume ok: "farmers_ok db" and "(case insert_farmer_strict (new_farmer_row (pg_now db) a m h cf) (farmers db) of
      Inl e \<Rightarrow> Inl e | Inr t \<Rightarrow> Inr (db\<lparr>farmers := t\<rparr>)) = Inr db'"
  then show "farmers_ok db'"
    by (subst (asm) insert_farmer_strict_ok)
      (auto simp: new_farmer_row_def farmers_ok_def split: if_splits)
qed

lemma keeps_update_farmer_row: "keeps farmers_ok (update_farmer_row a m h cf)"
  unfolding update_farmer_row_def
proof (rule keeps_execute [OF farmers_ok_blind])
  fix db db'
  assume ok: "farmers_ok db" and "Inr (db\<lparr>farmers :=
      tbl_update fa_address a (metadata_set m h cf) (farmers db)\<rparr>) = Inr db'"
  then have db': "farmers db' = tbl_update fa_address a (metadata_set m h cf) (farmers db)" by auto
  have "tbl_ok fa_address (farmers db')"
    using ok unfolding db' farmers_ok_def by (intro tbl_ok_update) (auto simp: metadata_set_def)
  with ok show "farmers_ok db'"
    by (auto simp: farmers_ok_def db' tbl_update_def metadata_set_def)
qed

lemma keeps_get_farmer: "fault_blind P \<Longrightarrow> keeps P (get_farmer is_pk input)"
  by (auto simp: get_farmer_def intro!: keeps_intros split: sum.split)

lemma on_pg_apply: "on_pg m (c, db) = (case m db of (r, db') \<Rightarrow> (r, (c, db')))"
  by (simp add: on_pg_def)

lemma on_backend_apply: "on_backend m (c, db) = (case m c of (r, c') \<Rightarrow> (r, (c', db)))"
  by (simp add: on_backend_def)

lemma keeps_on_pg: "keeps P m \<Longrightarrow> keeps (\<lambda>s. P (snd s)) (on_pg m)"
  by (auto simp: keeps_def on_pg_def split: prod.splits)

lemma keeps_on_backend: "keeps (\<lambda>s. P (snd s)) (on_backend m)"
  by (auto simp: keeps_def on_backend_def split: prod.splits)

lemma keeps_register:
  "keeps (\<lambda>s. farmers_ok (snd s)) (register_farmer is_pk hash reg req actor)"
  unfolding register_farmer_def Let_def
  by (auto intro!: keeps_intros keeps_on_backend keeps_on_pg keeps_insert_farmer split: sum.split)

lemma keeps_update:
  "keeps (\<lambda>s. farmers_ok (snd s)) (update_metadata is_pk hash upd input m actor)"
  unfolding update_metadata_def Let_def
  by (auto intro!: keeps_intros keeps_on_backend keeps_on_pg keeps_update_farmer_row
      keeps_get_farmer farmers_ok_blind split: sum.split)

end
