(* ===== verification/Auth_Service.thy ===== *)
theory Auth_Service
  imports Database
begin

text \<open>
  \<open>src/auth/service.rs\<close> and \<open>src/auth/extractor.rs\<close>: the SEP-40 challenge, its verification, the
  session lookup and the bearer token of a request. The cryptography, the text renderings and the
  calendar of other crates are the fields of \<open>crypto\<close> (\<open>cr_add_date\<close> is \<open>DateTime + TimeDelta\<close> of
  \<open>chrono\<close>, which panics, \<open>None\<close>, when the date leaves its range); the random nonce, the random token
  and each reading of the clock are arguments. Times are microseconds, as PostgreSQL stores them.

  \<open>verify\<close> is the composition of its reads and checks (\<open>verify_check\<close>) and its writes
  (\<open>verify_commit\<close>), so that interleavings of two requests can be stated.
\<close>

record ('k, 'g) crypto =
  cr_public_key :: "string \<Rightarrow> string + string"
  cr_base64 :: "string \<Rightarrow> string + string"
  cr_signature :: "string \<Rightarrow> string + 'g"
  cr_verifying_key :: "string \<Rightarrow> string + 'k"
  cr_verify :: "'k \<Rightarrow> string \<Rightarrow> 'g \<Rightarrow> string + unit"
  cr_sha256_hex :: "string \<Rightarrow> string"
  cr_rfc3339 :: "int \<Rightarrow> string"
  cr_add_date :: "int \<Rightarrow> int \<Rightarrow> int option"

record challenge =
  cl_domain :: string
  cl_nonce :: string
  cl_timestamp :: string
  cl_address :: string

record verify_request =
  rq_address :: string
  rq_domain :: string
  rq_nonce :: string
  rq_timestamp :: string
  rq_signature :: string

record session =
  sn_token :: string
  sn_address :: string
  sn_roles :: "string list"
  sn_expires_at :: int

definition CHALLENGE_TTL_MINUTES :: int where
  "CHALLENGE_TTL_MINUTES = 5"

definition minutes :: "int \<Rightarrow> int" where
  "minutes n = n * 60 * 1000000"

definition ERR_NONCE_UNUSED_OR_EXPIRED :: string where
  "ERR_NONCE_UNUSED_OR_EXPIRED = ''nonce missing, already used, or expired''"

definition validate_address :: "('k, 'g) crypto \<Rightarrow> string \<Rightarrow> app_error + unit" where
  "validate_address cr address =
    (case cr_public_key cr address of
       Inl e \<Rightarrow> Inl (BadRequest (''invalid stellar address: '' @ e))
     | Inr _ \<Rightarrow> Inr ())"

definition hash_token :: "('k, 'g) crypto \<Rightarrow> string \<Rightarrow> string" where
  "hash_token cr token = cr_sha256_hex cr token"

definition newline :: string where
  "newline = [CHR 0x0A]"

definition sep40_message :: "string \<Rightarrow> string \<Rightarrow> string \<Rightarrow> string \<Rightarrow> string" where
  "sep40_message domain address nonce timestamp =
    domain @ '' wants you to sign in with your Stellar account:'' @ newline @ address @ newline
      @ newline @ ''Nonce: '' @ nonce @ newline @ ''Issued At: '' @ timestamp @ newline"

definition verify_signature ::
  "('k, 'g) crypto \<Rightarrow> string \<Rightarrow> string \<Rightarrow> string \<Rightarrow> string + unit" where
  "verify_signature cr address signature_b64 message =
    (case cr_base64 cr signature_b64 of
       Inl e \<Rightarrow> Inl (''base64: '' @ e)
     | Inr raw \<Rightarrow>
        (case cr_signature cr raw of
           Inl e \<Rightarrow> Inl (''signature length: '' @ e)
         | Inr sig \<Rightarrow>
            (case cr_public_key cr address of
               Inl e \<Rightarrow> Inl (''address: '' @ e)
             | Inr pubkey \<Rightarrow>
                (case cr_verifying_key cr pubkey of
                   Inl e \<Rightarrow> Inl (''verifying key: '' @ e)
                 | Inr key \<Rightarrow>
                    (case cr_verify cr key message sig of
                       Inl e \<Rightarrow> Inl (''ed25519: '' @ e)
                     | Inr _ \<Rightarrow> Inr ())))))"

section \<open>Operations\<close>

definition insert_challenge :: "challenge_row \<Rightarrow> unit statement" where
  "insert_challenge row =
    execute (\<lambda>db.
      if ch_nonce row \<in> ch_nonce ` set (auth_challenges db)
      then Inl (UniqueViolation ''auth_challenges_pkey'')
      else Inr (db\<lparr>auth_challenges := auth_challenges db @ [row]\<rparr>))"

definition issue_challenge ::
  "('k, 'g) crypto \<Rightarrow> string \<Rightarrow> string \<Rightarrow> string \<Rightarrow> int \<Rightarrow> (pg, app_error, challenge) action" where
  "issue_challenge cr domain address nonce now =
    and_then (lift_result (validate_address cr address)) (\<lambda>_.
    let expires_at = now + minutes CHALLENGE_TTL_MINUTES in
    and_then (map_err Database (insert_challenge
      \<lparr> ch_nonce = nonce, ch_domain = domain, ch_address = address, ch_issued_at = now,
        ch_expires_at = expires_at, ch_used = False \<rparr>)) (\<lambda>_.
    ok \<lparr> cl_domain = domain, cl_nonce = nonce, cl_timestamp = cr_rfc3339 cr now,
         cl_address = address \<rparr>))"

definition find_challenge :: "verify_request \<Rightarrow> pg \<Rightarrow> challenge_row option" where
  "find_challenge req db =
    find (\<lambda>r. ch_nonce r = rq_nonce req \<and> ch_address r = rq_address req \<and> ch_domain r = rq_domain req)
      (auth_challenges db)"

definition verify_check ::
  "('k, 'g) crypto \<Rightarrow> string \<Rightarrow> verify_request \<Rightarrow> int \<Rightarrow> (pg, app_error, unit) action" where
  "verify_check cr domain req now =
    and_then (lift_result (validate_address cr (rq_address req))) (\<lambda>_.
    and_then (map_err Database (query (find_challenge req))) (\<lambda>row.
    case row of
      None \<Rightarrow> fail (Conflict ERR_NONCE_UNUSED_OR_EXPIRED)
    | Some nonce_row \<Rightarrow>
        if ch_used nonce_row \<or> ch_expires_at nonce_row \<le> now then
          fail (Conflict ERR_NONCE_UNUSED_OR_EXPIRED)
        else if ch_domain nonce_row \<noteq> domain then
          fail (BadRequest ''challenge issued for a different domain'')
        else
          (let message = sep40_message (rq_domain req) (rq_address req) (rq_nonce req) (rq_timestamp req)
           in case verify_signature cr (rq_address req) (rq_signature req) message of
                Inl e \<Rightarrow> fail (Unauthorized (''invalid signature: '' @ e))
              | Inr _ \<Rightarrow> ok ())))"

definition consume_nonce :: "string \<Rightarrow> unit statement" where
  "consume_nonce nonce =
    execute (\<lambda>db. Inr (db\<lparr>auth_challenges :=
      tbl_update ch_nonce nonce (\<lambda>r. r\<lparr>ch_used := True\<rparr>) (auth_challenges db)\<rparr>))"

definition insert_session :: "session_row \<Rightarrow> unit statement" where
  "insert_session row =
    execute (\<lambda>db.
      if se_token_hash row \<in> se_token_hash ` set (auth_sessions db)
      then Inl (UniqueViolation ''auth_sessions_token_hash_key'')
      else Inr (db\<lparr>auth_sessions := auth_sessions db @ [row]\<rparr>))"

text \<open>\<open>ttl\<close> is the result of \<open>Duration::from_std(session_ttl)\<close>.\<close>

definition verify_commit ::
  "('k, 'g) crypto \<Rightarrow> string + int \<Rightarrow> verify_request \<Rightarrow> string \<Rightarrow> int \<Rightarrow> (pg, failure, session) action" where
  "verify_commit cr ttl req token now =
    and_then (map_err (\<lambda>e. Failed (Database e)) (consume_nonce (rq_nonce req))) (\<lambda>_.
    let token_hash = hash_token cr token in
    case ttl of
      Inl e \<Rightarrow> fail (Failed (InternalError e))
    | Inr session_ttl \<Rightarrow>
        (case cr_add_date cr now session_ttl of
           None \<Rightarrow> fail Panic
         | Some expires_at \<Rightarrow>
             and_then (map_err (\<lambda>e. Failed (Database e)) (insert_session
               \<lparr> se_token_hash = token_hash, se_address = rq_address req, se_roles = [''farmer''],
                 se_expires_at = expires_at \<rparr>)) (\<lambda>_.
             ok \<lparr> sn_token = token, sn_address = rq_address req, sn_roles = [''farmer''],
                  sn_expires_at = expires_at \<rparr>)))"

definition verify ::
  "('k, 'g) crypto \<Rightarrow> string \<Rightarrow> string + int \<Rightarrow> verify_request \<Rightarrow> string \<Rightarrow> int \<Rightarrow> int \<Rightarrow>
    (pg, failure, session) action" where
  "verify cr domain ttl req token now1 now2 =
    and_then (map_err Failed (verify_check cr domain req now1)) (\<lambda>_. verify_commit cr ttl req token now2)"

definition session_by_token ::
  "('k, 'g) crypto \<Rightarrow> string \<Rightarrow> int \<Rightarrow> (pg, app_error, session_row) action" where
  "session_by_token cr token now =
    (let token_hash = hash_token cr token in
     and_then (map_err Database (query (\<lambda>db. tbl_find se_token_hash (auth_sessions db) token_hash)))
       (\<lambda>row.
     case row of
       None \<Rightarrow> fail (Unauthorized ''no session for token'')
     | Some r \<Rightarrow>
        if se_expires_at r \<le> now then fail (Unauthorized ''session expired'') else ok r))"

section \<open>The bearer token\<close>

definition BEARER_PREFIX :: string where
  "BEARER_PREFIX = ''Bearer ''"

text \<open>\<open>HeaderValue::to_str\<close>: visible ASCII and tabs.\<close>

definition header_text :: "string \<Rightarrow> string option" where
  "header_text value =
    (if list_all (\<lambda>c. c = CHR 0x09 \<or> CHR 0x20 \<le> c \<and> c < CHR 0x7F) value then Some value else None)"

definition bearer_token :: "string option \<Rightarrow> app_error + string" where
  "bearer_token header =
    (case header of
       None \<Rightarrow> Inl (Unauthorized ''missing Authorization header'')
     | Some value \<Rightarrow>
        (case header_text value of
           None \<Rightarrow> Inl (Unauthorized ''invalid Authorization header'')
         | Some text \<Rightarrow>
            (case strip_prefix BEARER_PREFIX text of
               None \<Rightarrow> Inl (Unauthorized ''expected Bearer token'')
             | Some token \<Rightarrow>
                if token = [] then Inl (Unauthorized ''empty bearer token'') else Inr token)))"

record auth_user =
  au_address :: string
  au_roles :: "string list"

definition from_request_parts ::
  "('k, 'g) crypto \<Rightarrow> string option \<Rightarrow> int \<Rightarrow> (pg, app_error, auth_user) action" where
  "from_request_parts cr header now =
    and_then (lift_result (bearer_token header)) (\<lambda>token.
    and_then (session_by_token cr token now) (\<lambda>session.
    ok \<lparr> au_address = se_address session, au_roles = se_roles session \<rparr>))"

section \<open>Lemmas\<close>

lemma insert_challenge_healthy:
  "budget db = None \<Longrightarrow> insert_challenge row db =
    (if ch_nonce row \<in> ch_nonce ` set (auth_challenges db)
     then (Inl (UniqueViolation ''auth_challenges_pkey''), db)
     else (Inr (), db\<lparr>auth_challenges := auth_challenges db @ [row]\<rparr>))"
  by (simp add: insert_challenge_def)

lemma insert_session_healthy:
  "budget db = None \<Longrightarrow> insert_session row db =
    (if se_token_hash row \<in> se_token_hash ` set (auth_sessions db)
     then (Inl (UniqueViolation ''auth_sessions_token_hash_key''), db)
     else (Inr (), db\<lparr>auth_sessions := auth_sessions db @ [row]\<rparr>))"
  by (simp add: insert_session_def)

definition used_nonce :: "string \<Rightarrow> pg \<Rightarrow> pg" where
  "used_nonce nonce db = db\<lparr>auth_challenges :=
      tbl_update ch_nonce nonce (\<lambda>r. r\<lparr>ch_used := True\<rparr>) (auth_challenges db)\<rparr>"

lemma used_nonce_sel [simp]:
  "budget (used_nonce n db) = budget db"
  "auth_sessions (used_nonce n db) = auth_sessions db"
  by (simp_all add: used_nonce_def)

lemma consume_nonce_healthy: "budget db = None \<Longrightarrow> consume_nonce nonce db = (Inr (), used_nonce nonce db)"
  by (simp add: consume_nonce_def used_nonce_def)

text \<open>The conditions under which a request passes the check, and that it changes nothing.\<close>

definition acceptable ::
  "('k, 'g) crypto \<Rightarrow> string \<Rightarrow> verify_request \<Rightarrow> int \<Rightarrow> pg \<Rightarrow> bool" where
  "acceptable cr domain req now db \<longleftrightarrow>
    validate_address cr (rq_address req) = Inr ()
    \<and> (case find_challenge req db of
         None \<Rightarrow> False
       | Some r \<Rightarrow> \<not> ch_used r \<and> now < ch_expires_at r \<and> ch_domain r = domain)
    \<and> verify_signature cr (rq_address req) (rq_signature req)
        (sep40_message (rq_domain req) (rq_address req) (rq_nonce req) (rq_timestamp req)) = Inr ()"

lemma verify_check_healthy:
  assumes "budget db = None"
  shows "verify_check cr domain req now db = (Inr (), db) \<longleftrightarrow> acceptable cr domain req now db"
    and "snd (verify_check cr domain req now db) = db"
  using assms
  by (auto simp: verify_check_def acceptable_def and_then_apply map_err_apply Let_def
      split: sum.splits option.splits)

lemma verify_check_query:
  assumes "verify_check cr domain req now db = (Inr u, db')"
  shows "\<exists>b. db' = db\<lparr>budget := b\<rparr> \<and> acceptable cr domain req now db'"
  using assms
  by (auto simp: verify_check_def acceptable_def and_then_apply map_err_apply Let_def query_def
      split: sum.splits option.splits if_splits dest: tick_Some)

lemma verify_check_state: "\<exists>b. snd (verify_check cr domain req now db) = db\<lparr>budget := b\<rparr>"
  by (auto simp: verify_check_def and_then_apply map_err_apply Let_def query_def
      split: sum.splits option.splits if_splits dest: tick_Some intro: exI [of _ "budget db"])

lemma find_challenge_budget [simp]: "find_challenge req (db\<lparr>budget := b\<rparr>) = find_challenge req db"
  by (simp add: find_challenge_def)

lemma acceptable_budget [simp]:
  "acceptable cr domain req now (db\<lparr>budget := b\<rparr>) = acceptable cr domain req now db"
  by (simp add: acceptable_def)

end
