(* ===== verification/Routes_App.thy ===== *)
theory Routes_App
  imports Config Farmer_Service Auth_Service
begin

text \<open>
  \<open>src/routes/farmers.rs\<close>, \<open>src/routes/auth.rs\<close> and \<open>src/routes/health.rs\<close>: the handlers over the
  services, with the extraction of the authenticated user where a handler asks for it. A handler's
  result is the value it answers with; \<open>respond\<close> turns it into a status and a body. Decoding the
  request's body and path is the framework's.
\<close>

section \<open>Authentication routes\<close>

definition challenge_handler ::
  "('k, 'g) crypto \<Rightarrow> app_state \<Rightarrow> string \<Rightarrow> string \<Rightarrow> int \<Rightarrow> (pg, app_error, challenge) action" where
  "challenge_handler cr st address nonce now = issue_challenge cr (st_domain st) address nonce now"

text \<open>\<open>from_std\<close> is \<open>Duration::from_std\<close>, from seconds to microseconds.\<close>

definition verify_handler ::
  "('k, 'g) crypto \<Rightarrow> (nat \<Rightarrow> string + int) \<Rightarrow> app_state \<Rightarrow> verify_request \<Rightarrow> string \<Rightarrow> int \<Rightarrow> int \<Rightarrow>
    (pg, failure, session) action" where
  "verify_handler cr from_std st req token now1 now2 =
    verify cr (st_domain st) (from_std (st_session_ttl st)) req token now1 now2"

definition session_handler :: "('k, 'g) crypto \<Rightarrow> string \<Rightarrow> int \<Rightarrow> (pg, app_error, session_row) action" where
  "session_handler cr token now = session_by_token cr token now"

section \<open>Farmer routes\<close>

record search_query =
  sq_q :: "string option"
  sq_page :: int
  sq_page_size :: int

definition default_page :: int where
  "default_page = 1"

definition default_page_size :: int where
  "default_page_size = 20"

text \<open>The query as deserialized: a missing page or page size takes its default.\<close>

definition search_query_of :: "string option \<Rightarrow> int option \<Rightarrow> int option \<Rightarrow> search_query" where
  "search_query_of q p s =
    \<lparr> sq_q = q, sq_page = or_else p default_page, sq_page_size = or_else s default_page_size \<rparr>"

definition get_farmer_handler :: "(string \<Rightarrow> bool) \<Rightarrow> string \<Rightarrow> (pg, app_error, farmer) action" where
  "get_farmer_handler is_pk address = get_farmer is_pk address"

definition register_farmer_handler ::
  "('k, 'g) crypto \<Rightarrow> (string \<Rightarrow> bool) \<Rightarrow> (farmer_metadata \<Rightarrow> string) \<Rightarrow>
    (string \<Rightarrow> string \<Rightarrow> 'c \<Rightarrow> (chain_error + chain_farmer) \<times> 'c) \<Rightarrow>
    string option \<Rightarrow> int \<Rightarrow> register_farmer_request \<Rightarrow> ('c, nat \<times> farmer) service" where
  "register_farmer_handler cr is_pk hash chain_register header now req =
    and_then (on_pg (from_request_parts cr header now)) (\<lambda>actor.
    and_then (register_farmer is_pk hash chain_register req (au_address actor)) (\<lambda>farmer.
    ok (201, farmer)))"

definition update_metadata_handler ::
  "('k, 'g) crypto \<Rightarrow> (string \<Rightarrow> bool) \<Rightarrow> (farmer_metadata \<Rightarrow> string) \<Rightarrow>
    (string \<Rightarrow> string \<Rightarrow> 'c \<Rightarrow> (chain_error + chain_farmer) \<times> 'c) \<Rightarrow>
    string option \<Rightarrow> int \<Rightarrow> string \<Rightarrow> farmer_metadata \<Rightarrow> ('c, farmer) service" where
  "update_metadata_handler cr is_pk hash chain_update header now address m =
    and_then (on_pg (from_request_parts cr header now)) (\<lambda>actor.
    update_metadata is_pk hash chain_update address m (au_address actor))"

definition search_farmers_handler ::
  "bool \<Rightarrow> (json \<Rightarrow> string) \<Rightarrow> (string \<Rightarrow> string \<Rightarrow> bool) \<Rightarrow> (farmer_row list \<Rightarrow> farmer_row list) \<Rightarrow>
    search_query \<Rightarrow> (pg, failure, farmer_search_item list \<times> pagination) action" where
  "search_farmers_handler checks as_text ilike arrange sq =
    search_farmers checks as_text ilike arrange (sq_q sq) (sq_page sq) (sq_page_size sq)"

section \<open>Health\<close>

record health_report =
  he_status :: string
  he_database :: string

text \<open>The only statement whose failure is not an error of the request.\<close>

definition health :: "(pg, app_error, health_report) action" where
  "health db =
    (case query (\<lambda>_. 1 :: int) db of (answer, db') \<Rightarrow>
       let database_up = (case answer of Inl _ \<Rightarrow> False | Inr _ \<Rightarrow> True) in
       (Inr \<lparr> he_status = (if database_up then ''ok'' else ''degraded''),
              he_database = (if database_up then ''up'' else ''down'') \<rparr>, db'))"

section \<open>Responses\<close>

definition marker_json :: "verification_marker \<Rightarrow> json" where
  "marker_json m = JObj
    [(''kind'', JStr (marker_kind m)), (''issuer'', JStr (marker_issuer m)),
     (''issuedLedger'', JInt (marker_issued_ledger m))]"

definition ledger_json :: "int option \<Rightarrow> json" where
  "ledger_json x = (case x of Some n \<Rightarrow> JInt n | None \<Rightarrow> JNull)"

definition farmer_json :: "farmer \<Rightarrow> json" where
  "farmer_json f = JObj
    [(''address'', JStr (f_address f)), (''id'', JStr (f_id f)), (''registered'', JBool (f_registered f)),
     (''createdLedger'', ledger_json (f_created_ledger f)),
     (''updatedLedger'', ledger_json (f_updated_ledger f)),
     (''metadata'', JObj (metadata_fields (f_metadata f))), (''metadataHash'', JStr (f_metadata_hash f)),
     (''verificationMarkers'', JArr (map marker_json (f_verification_markers f)))]"

definition respond :: "(sqlx_error \<Rightarrow> string) \<Rightarrow> ('a \<Rightarrow> nat \<times> json) \<Rightarrow> app_error + 'a \<Rightarrow> nat \<times> json" where
  "respond text_of success r =
    (case r of
       Inr a \<Rightarrow> success a
     | Inl e \<Rightarrow>
        (case into_response text_of e of (status, message) \<Rightarrow>
           (status, JObj [(''error'', JStr message)])))"

end
