(* ===== verification/Routes_Projections.thy ===== *)
theory Routes_Projections
  imports Pagination Projections
begin

text \<open>
  \<open>src/routes/projections.rs\<close>: the read-only endpoints over the projection tables. A handler's
  result is the row or the rows it selects; \<open>..._json\<close> converts a row to the response struct and
  renders it with the \<open>serde\<close> names. \<open>ORDER BY id\<close> compares the bytes.
\<close>

section \<open>Identifiers\<close>

definition normalize_counter_id :: "string \<Rightarrow> string \<Rightarrow> string \<Rightarrow> app_error + string" where
  "normalize_counter_id prefix kind input =
    (case strip_prefix (prefix @ '':'') input of
       Some counter_part \<Rightarrow>
        (if parse_u64 counter_part \<noteq> None then Inr input
         else Inl (BadRequest (''invalid '' @ kind @ '' id: '' @ input)))
     | None \<Rightarrow>
        (case parse_u64 input of
           Some counter \<Rightarrow> Inr (counter_id prefix counter)
         | None \<Rightarrow> Inl (BadRequest (''invalid '' @ kind @ '' id: '' @ input))))"

definition normalize_verification_id :: "string \<Rightarrow> app_error + string" where
  "normalize_verification_id input = normalize_counter_id ''va:verification'' ''verification'' input"

definition normalize_escrow_id :: "string \<Rightarrow> app_error + string" where
  "normalize_escrow_id input = normalize_counter_id ''va:escrow'' ''escrow'' input"

definition normalize_financing_id :: "string \<Rightarrow> app_error + string" where
  "normalize_financing_id input = normalize_counter_id ''va:financing'' ''financing'' input"

section \<open>Responses\<close>

definition opt_str :: "string option \<Rightarrow> json" where
  "opt_str x = (case x of Some s \<Rightarrow> JStr s | None \<Rightarrow> JNull)"

definition opt_int :: "int option \<Rightarrow> json" where
  "opt_int x = (case x of Some n \<Rightarrow> JInt n | None \<Rightarrow> JNull)"

text \<open>
  The response structs, the conversions of the rows (\<open>From\<close>) and the derived renderings.
\<close>

record verification =
  vf_id :: string
  vf_contract_id :: string
  vf_batch_id :: string
  vf_subject :: string
  vf_proof_hash :: string
  vf_issuer :: string
  vf_issued_ledger :: int
  vf_revoked :: bool
  vf_revoked_ledger :: "int option"

definition verification_of_row :: "verification_row \<Rightarrow> verification" where
  "verification_of_row r =
    \<lparr> vf_id = ver_id r, vf_contract_id = ver_contract_id r, vf_batch_id = ver_batch_id r,
      vf_subject = ver_subject r, vf_proof_hash = ver_proof_hash r, vf_issuer = ver_issuer r,
      vf_issued_ledger = ver_issued_ledger r, vf_revoked = ver_revoked r,
      vf_revoked_ledger = ver_revoked_ledger r \<rparr>"

definition verification_response_json :: "verification \<Rightarrow> json" where
  "verification_response_json v = JObj
    [(''id'', JStr (vf_id v)), (''contractId'', JStr (vf_contract_id v)),
      (''batchId'', JStr (vf_batch_id v)), (''subject'', JStr (vf_subject v)),
      (''proofHash'', JStr (vf_proof_hash v)), (''issuer'', JStr (vf_issuer v)),
      (''issuedLedger'', JInt (vf_issued_ledger v)), (''revoked'', JBool (vf_revoked v)),
      (''revokedLedger'', opt_int (vf_revoked_ledger v))]"

text \<open>What a handler answers for a row.\<close>

definition verification_json :: "verification_row \<Rightarrow> json" where
  "verification_json r = verification_response_json (verification_of_row r)"

record escrow =
  ew_id :: string
  ew_contract_id :: string
  ew_depositor :: string
  ew_beneficiary :: string
  ew_amount :: int
  ew_released_amount :: int
  ew_booking_ref :: "string option"
  ew_condition_kind :: int
  ew_condition_releaser :: "string option"
  ew_condition_timeout_ledger :: "int option"
  ew_created_ledger :: int
  ew_updated_ledger :: int
  ew_status :: string

definition escrow_of_row :: "escrow_row \<Rightarrow> escrow" where
  "escrow_of_row r =
    \<lparr> ew_id = esc_id r, ew_contract_id = esc_contract_id r, ew_depositor = esc_depositor r,
      ew_beneficiary = esc_beneficiary r, ew_amount = esc_amount r,
      ew_released_amount = esc_released_amount r, ew_booking_ref = esc_booking_ref r,
      ew_condition_kind = esc_condition_kind r, ew_condition_releaser = esc_condition_releaser r,
      ew_condition_timeout_ledger = esc_condition_timeout_ledger r,
      ew_created_ledger = esc_created_ledger r, ew_updated_ledger = esc_updated_ledger r,
      ew_status = esc_status r \<rparr>"

definition escrow_response_json :: "escrow \<Rightarrow> json" where
  "escrow_response_json v = JObj
    [(''id'', JStr (ew_id v)), (''contractId'', JStr (ew_contract_id v)),
      (''depositor'', JStr (ew_depositor v)), (''beneficiary'', JStr (ew_beneficiary v)),
      (''amount'', JInt (ew_amount v)), (''releasedAmount'', JInt (ew_released_amount v)),
      (''bookingRef'', opt_str (ew_booking_ref v)),
      (''conditionKind'', JInt (ew_condition_kind v)),
      (''conditionReleaser'', opt_str (ew_condition_releaser v)),
      (''conditionTimeoutLedger'', opt_int (ew_condition_timeout_ledger v)),
      (''createdLedger'', JInt (ew_created_ledger v)),
      (''updatedLedger'', JInt (ew_updated_ledger v)), (''status'', JStr (ew_status v))]"

definition escrow_json :: "escrow_row \<Rightarrow> json" where
  "escrow_json r = escrow_response_json (escrow_of_row r)"

record financing =
  fg_id :: string
  fg_contract_id :: string
  fg_funder :: string
  fg_beneficiary :: string
  fg_total_amount :: int
  fg_drawn_amount :: int
  fg_milestone_count :: int
  fg_milestones :: json
  fg_drawn_ledger :: "int option"
  fg_repaid_amount :: int
  fg_defaulted :: bool
  fg_defaulted_ledger :: "int option"
  fg_updated_ledger :: "int option"
  fg_status :: string

definition financing_of_row :: "financing_row \<Rightarrow> financing" where
  "financing_of_row r =
    \<lparr> fg_id = fin_id r, fg_contract_id = fin_contract_id r, fg_funder = fin_funder r,
      fg_beneficiary = fin_beneficiary r, fg_total_amount = fin_total_amount r,
      fg_drawn_amount = fin_drawn_amount r, fg_milestone_count = fin_milestone_count r,
      fg_milestones = fin_milestones r, fg_drawn_ledger = fin_drawn_ledger r,
      fg_repaid_amount = fin_repaid_amount r, fg_defaulted = fin_defaulted r,
      fg_defaulted_ledger = fin_defaulted_ledger r, fg_updated_ledger = fin_updated_ledger r,
      fg_status = fin_status r \<rparr>"

definition financing_response_json :: "financing \<Rightarrow> json" where
  "financing_response_json v = JObj
    [(''id'', JStr (fg_id v)), (''contractId'', JStr (fg_contract_id v)),
      (''funder'', JStr (fg_funder v)), (''beneficiary'', JStr (fg_beneficiary v)),
      (''totalAmount'', JInt (fg_total_amount v)), (''drawnAmount'', JInt (fg_drawn_amount v)),
      (''milestoneCount'', JInt (fg_milestone_count v)), (''milestones'', fg_milestones v),
      (''drawnLedger'', opt_int (fg_drawn_ledger v)),
      (''repaidAmount'', JInt (fg_repaid_amount v)), (''defaulted'', JBool (fg_defaulted v)),
      (''defaultedLedger'', opt_int (fg_defaulted_ledger v)),
      (''updatedLedger'', opt_int (fg_updated_ledger v)), (''status'', JStr (fg_status v))]"

definition financing_json :: "financing_row \<Rightarrow> json" where
  "financing_json r = financing_response_json (financing_of_row r)"

definition pagination_json :: "pagination \<Rightarrow> json" where
  "pagination_json p = JObj
    [(''page'', JInt (pg_page p)), (''pageSize'', JInt (pg_page_size p)),
     (''total'', JInt (pg_total p)), (''totalPages'', JInt (pg_total_pages p))]"

definition list_json :: "('r \<Rightarrow> json) \<Rightarrow> 'r list \<times> pagination \<Rightarrow> json" where
  "list_json item = (\<lambda>(items, p).
    JObj [(''items'', JArr (map item items)), (''pagination'', pagination_json p)])"

text \<open>\<open>VerificationListResponse\<close>, \<open>EscrowListResponse\<close> and \<open>FinancingListResponse\<close>.\<close>

definition verification_list_json :: "verification_row list \<times> pagination \<Rightarrow> json" where
  "verification_list_json = list_json verification_json"

definition escrow_list_json :: "escrow_row list \<times> pagination \<Rightarrow> json" where
  "escrow_list_json = list_json escrow_json"

definition financing_list_json :: "financing_row list \<times> pagination \<Rightarrow> json" where
  "financing_list_json = list_json financing_json"

section \<open>Lookup by id\<close>

definition get_by_id ::
  "(string \<Rightarrow> app_error + string) \<Rightarrow> string \<Rightarrow> (pg \<Rightarrow> string \<Rightarrow> 'r option) \<Rightarrow> string \<Rightarrow>
    (pg, failure, 'r) action" where
  "get_by_id norm_id kind lookup raw =
    (case norm_id raw of
       Inl e \<Rightarrow> fail (Failed e)
     | Inr normalized \<Rightarrow>
        and_then (select (\<lambda>db. Inr (lookup db normalized))) (\<lambda>row.
        case row of
          None \<Rightarrow> fail (Failed (NotFound (kind @ '' '' @ raw @ '' not found'')))
        | Some r \<Rightarrow> ok r))"

definition get_verification_handler :: "string \<Rightarrow> (pg, failure, verification_row) action" where
  "get_verification_handler raw =
    get_by_id normalize_verification_id ''verification''
      (\<lambda>db. tbl_find ver_id (verification_projection db)) raw"

definition get_escrow_handler :: "string \<Rightarrow> (pg, failure, escrow_row) action" where
  "get_escrow_handler raw =
    get_by_id normalize_escrow_id ''escrow'' (\<lambda>db. tbl_find esc_id (escrow_projection db)) raw"

definition get_financing_handler :: "string \<Rightarrow> (pg, failure, financing_row) action" where
  "get_financing_handler raw =
    get_by_id normalize_financing_id ''financing''
      (\<lambda>db. tbl_find fin_id (financing_projection db)) raw"

section \<open>Lists\<close>

text \<open>\<open>$i IS NULL OR column = $i\<close>.\<close>

definition filter_eq :: "'a option \<Rightarrow> 'a \<Rightarrow> bool" where
  "filter_eq arg column \<longleftrightarrow> (case arg of None \<Rightarrow> True | Some x \<Rightarrow> column = x)"

text \<open>A nullable column never equals a value when it is \<open>NULL\<close>.\<close>

definition filter_eq_null :: "'a option \<Rightarrow> 'a option \<Rightarrow> bool" where
  "filter_eq_null arg column \<longleftrightarrow> (case arg of None \<Rightarrow> True | Some x \<Rightarrow> column = Some x)"

record verifications_query =
  vq_batch_id :: "string option"
  vq_subject :: "string option"
  vq_issuer :: "string option"
  vq_revoked :: "bool option"
  vq_page :: int
  vq_page_size :: int

definition matching_verifications :: "verifications_query \<Rightarrow> pg \<Rightarrow> verification_row list" where
  "matching_verifications q db =
    sort_key (\<lambda>r. (- ver_issued_ledger r, ver_id r))
      (filter (\<lambda>r. filter_eq (vq_batch_id q) (ver_batch_id r) \<and> filter_eq (vq_subject q) (ver_subject r)
          \<and> filter_eq (vq_issuer q) (ver_issuer r) \<and> filter_eq (vq_revoked q) (ver_revoked r))
        (verification_projection db))"

definition list_verifications_handler ::
  "bool \<Rightarrow> verifications_query \<Rightarrow> (pg, failure, verification_row list \<times> pagination) action" where
  "list_verifications_handler checks q =
    list_page checks (vq_page q) (vq_page_size q) (matching_verifications q)"

record escrows_query =
  eq_depositor :: "string option"
  eq_beneficiary :: "string option"
  eq_booking_ref :: "string option"
  eq_status :: "string option"
  eq_page :: int
  eq_page_size :: int

definition matching_escrows :: "escrows_query \<Rightarrow> pg \<Rightarrow> escrow_row list" where
  "matching_escrows q db =
    sort_key (\<lambda>r. (- esc_created_ledger r, esc_id r))
      (filter (\<lambda>r. filter_eq (eq_depositor q) (esc_depositor r)
          \<and> filter_eq (eq_beneficiary q) (esc_beneficiary r)
          \<and> filter_eq_null (eq_booking_ref q) (esc_booking_ref r) \<and> filter_eq (eq_status q) (esc_status r))
        (escrow_projection db))"

definition list_escrows_handler ::
  "bool \<Rightarrow> escrows_query \<Rightarrow> (pg, failure, escrow_row list \<times> pagination) action" where
  "list_escrows_handler checks q =
    list_page checks (eq_page q) (eq_page_size q) (matching_escrows q)"

record financings_query =
  fq_funder :: "string option"
  fq_beneficiary :: "string option"
  fq_status :: "string option"
  fq_page :: int
  fq_page_size :: int

text \<open>\<open>ORDER BY updated_ledger DESC NULLS LAST, id ASC\<close>.\<close>

definition nulls_last_desc :: "int option \<Rightarrow> bool \<times> int" where
  "nulls_last_desc x = (case x of None \<Rightarrow> (True, 0) | Some n \<Rightarrow> (False, - n))"

definition matching_financings :: "financings_query \<Rightarrow> pg \<Rightarrow> financing_row list" where
  "matching_financings q db =
    sort_key (\<lambda>r. (nulls_last_desc (fin_updated_ledger r), fin_id r))
      (filter (\<lambda>r. filter_eq (fq_funder q) (fin_funder r)
          \<and> filter_eq (fq_beneficiary q) (fin_beneficiary r) \<and> filter_eq (fq_status q) (fin_status r))
        (financing_projection db))"

definition list_financings_handler ::
  "bool \<Rightarrow> financings_query \<Rightarrow> (pg, failure, financing_row list \<times> pagination) action" where
  "list_financings_handler checks q =
    list_page checks (fq_page q) (fq_page_size q) (matching_financings q)"

section \<open>Lemmas\<close>

lemma counter_id_prefix: "counter_id p n = (p @ '':'') @ zero_padded 12 n"
  by (simp add: counter_id_def)

lemma normalize_counter_id_canonical:
  "n < u64_bound \<Longrightarrow> normalize_counter_id p k (counter_id p n) = Inr (counter_id p n)"
  unfolding normalize_counter_id_def counter_id_prefix strip_prefix_append
  by (simp add: parse_u64_padded)

text \<open>A decimal number starts with a digit, so it has none of the prefixes.\<close>

lemma normalize_counter_id_bare:
  assumes "parse_u64 s = Some n" and "strip_prefix (p @ '':'') s = None"
  shows "normalize_counter_id p k s = Inr (counter_id p n)"
  using assms by (simp add: normalize_counter_id_def)

lemma bare_not_prefixed:
  "parse_u64 s = Some n \<Longrightarrow> p = CHR ''v'' # q \<Longrightarrow> strip_prefix (p @ '':'') s = None"
  by (cases s) (auto simp: parse_u64_def char_digit_def split: if_splits option.splits)

lemma normalize_counter_id_bare_v:
  "parse_u64 s = Some n \<Longrightarrow> p = CHR ''v'' # q \<Longrightarrow>
    normalize_counter_id p k s = Inr (counter_id p n)"
  using bare_not_prefixed normalize_counter_id_bare by blast

lemma normalize_counter_id_error:
  "normalize_counter_id p k s = Inl e \<Longrightarrow> status_of e = 400"
  by (auto simp: normalize_counter_id_def split: option.splits if_splits)

text \<open>Every accepted input is a bare counter or carries the prefix and a number.\<close>

lemma normalize_counter_id_Inr:
  "normalize_counter_id p k s = Inr r \<Longrightarrow>
    (\<exists>n. parse_u64 s = Some n \<and> r = counter_id p n)
    \<or> (\<exists>t n. s = p @ '':'' @ t \<and> parse_u64 t = Some n \<and> r = s)"
  by (auto simp: normalize_counter_id_def strip_prefix_Some split: option.splits if_splits)

lemma get_by_id_healthy:
  "budget db = None \<Longrightarrow> norm_id raw = Inr k \<Longrightarrow>
    get_by_id norm_id kind lookup raw db =
      ((case lookup db k of
          None \<Rightarrow> Inl (Failed (NotFound (kind @ '' '' @ raw @ '' not found'')))
        | Some r \<Rightarrow> Inr r), db)"
  by (simp add: get_by_id_def and_then_apply select_healthy split: option.split)

lemma get_by_id_invalid:
  "norm_id raw = Inl e \<Longrightarrow> get_by_id norm_id kind lookup raw db = (Inl (Failed e), db)"
  by (simp add: get_by_id_def)

text \<open>No handler here changes a table.\<close>

lemma keeps_get_by_id: "fault_blind P \<Longrightarrow> keeps P (get_by_id norm_id kind lookup raw)"
  by (auto simp: get_by_id_def intro!: keeps_intros split: sum.split)

end
