(* ===== verification/Backend.thy ===== *)
theory Backend
  imports Routes_App Routes_Projections Indexer
begin

text \<open>
  The whole service: the requests the routers of \<open>src/routes/\<close> dispatch, with what a handler is
  given and answers, and the steps of the running program, in which requests, ingestion passes,
  rewinds, the clock and faults interleave.

  Matching a path and decoding a body are axum's; a request is the handler it reaches with the
  decoded arguments, and \<open>..._endpoint\<close> the method and path it is registered under.
\<close>

section \<open>Requests\<close>

datatype farmers_request =
    SearchFarmers search_query
  | GetFarmer string
  | RegisterFarmer "string option" register_farmer_request
  | UpdateMetadata "string option" string farmer_metadata

datatype auth_request =
    PostChallenge string
  | PostVerify verify_request
  | GetSession string

datatype projections_request =
    GetVerification string
  | ListVerifications verifications_query
  | GetEscrow string
  | ListEscrows escrows_query
  | GetFinancing string
  | ListFinancings financings_query

datatype request =
    HealthRequest
  | FarmersRequest farmers_request
  | AuthRequest auth_request
  | ProjectionsRequest projections_request

fun farmers_endpoint :: "farmers_request \<Rightarrow> string \<times> string" where
  "farmers_endpoint (SearchFarmers q) = (''GET'', ''/api/v1/farmers'')"
| "farmers_endpoint (GetFarmer address) = (''GET'', ''/api/v1/farmers/{address}'')"
| "farmers_endpoint (RegisterFarmer header req) = (''POST'', ''/api/v1/farmers/register'')"
| "farmers_endpoint (UpdateMetadata header address m) = (''PUT'', ''/api/v1/farmers/{address}/metadata'')"

fun auth_endpoint :: "auth_request \<Rightarrow> string \<times> string" where
  "auth_endpoint (PostChallenge address) = (''POST'', ''/api/v1/auth/challenge'')"
| "auth_endpoint (PostVerify req) = (''POST'', ''/api/v1/auth/verify'')"
| "auth_endpoint (GetSession token) = (''GET'', ''/api/v1/auth/session'')"

fun projections_endpoint :: "projections_request \<Rightarrow> string \<times> string" where
  "projections_endpoint (GetVerification row_id) = (''GET'', ''/api/v1/verifications/{id}'')"
| "projections_endpoint (ListVerifications q) = (''GET'', ''/api/v1/verifications'')"
| "projections_endpoint (GetEscrow row_id) = (''GET'', ''/api/v1/escrows/{id}'')"
| "projections_endpoint (ListEscrows q) = (''GET'', ''/api/v1/escrows'')"
| "projections_endpoint (GetFinancing row_id) = (''GET'', ''/api/v1/financings/{id}'')"
| "projections_endpoint (ListFinancings q) = (''GET'', ''/api/v1/financings'')"

fun endpoint :: "request \<Rightarrow> string \<times> string" where
  "endpoint HealthRequest = (''GET'', ''/health'')"
| "endpoint (FarmersRequest r) = farmers_endpoint r"
| "endpoint (AuthRequest r) = auth_endpoint r"
| "endpoint (ProjectionsRequest r) = projections_endpoint r"

section \<open>Response bodies\<close>

definition health_json :: "health_report \<Rightarrow> json" where
  "health_json h = JObj [(''status'', JStr (he_status h)), (''database'', JStr (he_database h))]"

definition challenge_json :: "challenge \<Rightarrow> json" where
  "challenge_json c = JObj
    [(''domain'', JStr (cl_domain c)), (''nonce'', JStr (cl_nonce c)),
     (''timestamp'', JStr (cl_timestamp c)), (''address'', JStr (cl_address c))]"

text \<open>\<open>time\<close> is the rendering of a \<open>DateTime<Utc>\<close> by \<open>serde\<close>.\<close>

definition session_json :: "(int \<Rightarrow> string) \<Rightarrow> session \<Rightarrow> json" where
  "session_json time s = JObj
    [(''token'', JStr (sn_token s)), (''address'', JStr (sn_address s)),
     (''roles'', JArr (map JStr (sn_roles s))), (''expires_at'', JStr (time (sn_expires_at s)))]"

definition session_row_json :: "(int \<Rightarrow> string) \<Rightarrow> session_row \<Rightarrow> json" where
  "session_row_json time s = JObj
    [(''address'', JStr (se_address s)), (''roles'', JArr (map JStr (se_roles s))),
     (''expires_at'', JStr (time (se_expires_at s)))]"

text \<open>\<open>skip_serializing_if = "Option::is_none"\<close>.\<close>

definition optional_field :: "string \<Rightarrow> string option \<Rightarrow> (string \<times> json) list" where
  "optional_field key x = (case x of None \<Rightarrow> [] | Some s \<Rightarrow> [(key, JStr s)])"

definition search_item_json :: "farmer_search_item \<Rightarrow> json" where
  "search_item_json i = JObj
    ([(''address'', JStr (si_address i)), (''id'', JStr (si_id i)), (''name'', JStr (si_name i))]
      @ optional_field ''region'' (si_region i) @ optional_field ''district'' (si_district i)
      @ [(''verificationCount'', JInt (si_verification_count i))])"

text \<open>\<open>FarmerSearchResponse\<close>.\<close>

definition search_response_json :: "farmer_search_item list \<times> pagination \<Rightarrow> json" where
  "search_response_json = list_json search_item_json"

section \<open>The service\<close>

text \<open>
  What is fixed while the program runs: third-party code, the state shared by the handlers, the
  chain backend's operations and the build profile (\<open>checks\<close>).
\<close>

record ('c, 'k, 'g) backend =
  be_crypto :: "('k, 'g) crypto"
  be_state :: app_state
  be_is_pk :: "string \<Rightarrow> bool"
  be_hash :: "farmer_metadata \<Rightarrow> string"
  be_register :: "string \<Rightarrow> string \<Rightarrow> 'c \<Rightarrow> (chain_error + chain_farmer) \<times> 'c"
  be_update :: "string \<Rightarrow> string \<Rightarrow> 'c \<Rightarrow> (chain_error + chain_farmer) \<times> 'c"
  be_from_std :: "nat \<Rightarrow> string + int"
  be_checks :: bool
  be_as_text :: "json \<Rightarrow> string"
  be_ilike :: "string \<Rightarrow> string \<Rightarrow> bool"
  be_arrange :: "farmer_row list \<Rightarrow> farmer_row list"
  be_time :: "int \<Rightarrow> string"
  be_sqlx_text :: "sqlx_error \<Rightarrow> string"
  be_uuid :: "string \<Rightarrow> string option"

text \<open>What a request draws: the random nonce and token, and its two readings of the clock.\<close>

record draw =
  dr_nonce :: string
  dr_token :: string
  dr_now1 :: int
  dr_now2 :: int

text \<open>A panic ends the request without a response.\<close>

datatype response = Answer nat json | Aborted

definition answer :: "('c, 'k, 'g) backend \<Rightarrow> ('a \<Rightarrow> nat \<times> json) \<Rightarrow> app_error + 'a \<Rightarrow> response" where
  "answer b success r = (case respond (be_sqlx_text b) success r of (status, body) \<Rightarrow> Answer status body)"

definition answer_or_abort :: "('c, 'k, 'g) backend \<Rightarrow> ('a \<Rightarrow> json) \<Rightarrow> failure + 'a \<Rightarrow> response" where
  "answer_or_abort b body r =
    (case r of
       Inl Panic \<Rightarrow> Aborted
     | Inl (Failed e) \<Rightarrow> answer b (\<lambda>a. (200, body a)) (Inl e)
     | Inr a \<Rightarrow> answer b (\<lambda>a. (200, body a)) (Inr a))"

definition reply :: "('r \<Rightarrow> 'q) \<Rightarrow> 'r \<times> 's \<Rightarrow> 'q \<times> 's" where
  "reply f rs = (f (fst rs), snd rs)"

fun serve_farmers ::
  "('c, 'k, 'g) backend \<Rightarrow> draw \<Rightarrow> farmers_request \<Rightarrow> 'c \<times> pg \<Rightarrow> response \<times> 'c \<times> pg" where
  "serve_farmers b d (SearchFarmers q) s =
    reply (answer_or_abort b search_response_json)
      (on_pg (search_farmers_handler (be_checks b) (be_as_text b) (be_ilike b) (be_arrange b) q) s)"
| "serve_farmers b d (GetFarmer address) s =
    reply (answer b (\<lambda>f. (200, farmer_json f))) (on_pg (get_farmer_handler (be_is_pk b) address) s)"
| "serve_farmers b d (RegisterFarmer header req) s =
    reply (answer b (\<lambda>(status, f). (status, farmer_json f)))
      (register_farmer_handler (be_crypto b) (be_is_pk b) (be_hash b) (be_register b) header (dr_now1 d) req s)"
| "serve_farmers b d (UpdateMetadata header address m) s =
    reply (answer b (\<lambda>f. (200, farmer_json f)))
      (update_metadata_handler (be_crypto b) (be_is_pk b) (be_hash b) (be_update b) header (dr_now1 d)
        address m s)"

fun serve_auth ::
  "('c, 'k, 'g) backend \<Rightarrow> draw \<Rightarrow> auth_request \<Rightarrow> 'c \<times> pg \<Rightarrow> response \<times> 'c \<times> pg" where
  "serve_auth b d (PostChallenge address) s =
    reply (answer b (\<lambda>c. (200, challenge_json c)))
      (on_pg (challenge_handler (be_crypto b) (be_state b) address (dr_nonce d) (dr_now1 d)) s)"
| "serve_auth b d (PostVerify req) s =
    reply (answer_or_abort b (session_json (be_time b)))
      (on_pg (verify_handler (be_crypto b) (be_from_std b) (be_state b) req (dr_token d) (dr_now1 d)
        (dr_now2 d)) s)"
| "serve_auth b d (GetSession token) s =
    reply (answer b (\<lambda>x. (200, session_row_json (be_time b) x)))
      (on_pg (session_handler (be_crypto b) token (dr_now1 d)) s)"

fun serve_projections ::
  "('c, 'k, 'g) backend \<Rightarrow> projections_request \<Rightarrow> 'c \<times> pg \<Rightarrow> response \<times> 'c \<times> pg" where
  "serve_projections b (GetVerification row_id) s =
    reply (answer_or_abort b verification_json) (on_pg (get_verification_handler row_id) s)"
| "serve_projections b (ListVerifications q) s =
    reply (answer_or_abort b verification_list_json) (on_pg (list_verifications_handler (be_checks b) q) s)"
| "serve_projections b (GetEscrow row_id) s =
    reply (answer_or_abort b escrow_json) (on_pg (get_escrow_handler row_id) s)"
| "serve_projections b (ListEscrows q) s =
    reply (answer_or_abort b escrow_list_json) (on_pg (list_escrows_handler (be_checks b) q) s)"
| "serve_projections b (GetFinancing row_id) s =
    reply (answer_or_abort b financing_json) (on_pg (get_financing_handler row_id) s)"
| "serve_projections b (ListFinancings q) s =
    reply (answer_or_abort b financing_list_json) (on_pg (list_financings_handler (be_checks b) q) s)"

fun serve :: "('c, 'k, 'g) backend \<Rightarrow> draw \<Rightarrow> request \<Rightarrow> 'c \<times> pg \<Rightarrow> response \<times> 'c \<times> pg" where
  "serve b d HealthRequest s = reply (answer b (\<lambda>h. (200, health_json h))) (on_pg health s)"
| "serve b d (FarmersRequest r) s = serve_farmers b d r s"
| "serve b d (AuthRequest r) s = serve_auth b d r s"
| "serve b d (ProjectionsRequest r) s = serve_projections b r s"

section \<open>The running program\<close>

text \<open>
  The steps of the program and of what surrounds it. Requests and passes run to completion one after
  another; a connection is lost (\<open>fault\<close>) or restored between them, the database clock advances,
  the chain backend changes by itself.
\<close>

inductive backend_step ::
  "('c, 'k, 'g) backend \<Rightarrow> 'c \<times> pg \<Rightarrow> 'c \<times> pg \<Rightarrow> bool" for b where
  request: "backend_step b s (snd (serve b d r s))"
| pass: "backend_step b (c, db) (c, snd (ingest (be_sqlx_text b) (be_uuid b) pull head cid db))"
| rewound: "backend_step b (c, db) (c, snd (rewind cid from_ledger db))"
| fault: "backend_step b (c, db) (c, db\<lparr>budget := n, ack_lost := lost, pg_now := now\<rparr>)"
| chain: "backend_step b (c, db) (c', db)"

inductive backend_reach :: "('c, 'k, 'g) backend \<Rightarrow> 'c \<times> pg \<Rightarrow> bool" for b where
  start: "backend_reach b (c, empty_pg)"
| step: "backend_reach b s \<Longrightarrow> backend_step b s s' \<Longrightarrow> backend_reach b s'"

lemma reply_state [simp]: "snd (reply f rs) = snd rs"
  by (simp add: reply_def)

lemma on_pg_state: "snd (on_pg m (c, db)) = (c, snd (m db))"
  by (simp add: on_pg_def split: prod.split)

end
