(* ===== verification/Farmer_Properties.thy ===== *)
theory Farmer_Properties
  imports Farmer_Service Samples
begin

text \<open>
  The properties of the farmer registry: registration, lookup and update over any chain backend
  and over the stub, the invariant of the \<open>farmers\<close> table under all its writers (the service and
  the indexer), the canonical metadata and the search.
\<close>

section \<open>What the service does when the database is sound\<close>

lemma parse_actor_form:
  "parse_farmer_identifier is_pk input = Inr a \<Longrightarrow> parse_farmer_identifier is_pk (farmer_id a) = Inr a"
  by (simp add: parse_farmer_identifier_Inr parse_farmer_identifier_id)

text \<open>The guards of a registration, in the order of the code.\<close>

definition register_guard ::
  "(string \<Rightarrow> bool) \<Rightarrow> (farmer_metadata \<Rightarrow> string) \<Rightarrow> register_farmer_request \<Rightarrow> string \<Rightarrow>
    app_error + string" where
  "register_guard is_pk hash req actor =
    (case parse_farmer_identifier is_pk (req_address req) of
       Inl e \<Rightarrow> Inl e
     | Inr address \<Rightarrow>
        if actor \<noteq> address then Inl (Unauthorized ERR_UNAUTHORIZED_ACTOR)
        else if trim (name (req_metadata req)) = [] then
          Inl (BadRequest ''metadata.name must be non-empty'')
        else if (case req_metadata_hash req of
            Some provided \<Rightarrow> provided \<noteq> hash (req_metadata req) | None \<Rightarrow> False)
        then Inl (BadRequest ''provided metadataHash does not match canonical hash'')
        else Inr address)"

lemma register_guard_status: "register_guard is_pk hash req actor = Inl e \<Longrightarrow> status_of e \<in> {400, 401}"
  by (auto simp: register_guard_def dest: parse_farmer_identifier_error split: sum.splits if_splits)

lemma register_guard_Inr:
  "register_guard is_pk hash req actor = Inr a \<Longrightarrow>
    a = actor \<and> parse_farmer_identifier is_pk (req_address req) = Inr actor \<and> is_pk actor"
  by (auto simp: register_guard_def dest: parse_farmer_identifier_Inr split: sum.splits if_splits)

lemma register_refused:
  "register_guard is_pk hash req actor = Inl e \<Longrightarrow>
    register_farmer is_pk hash reg req actor s = (Inl e, s)"
  by (auto simp: register_guard_def register_farmer_def Let_def split: sum.splits if_splits option.splits)

lemma register_admitted:
  assumes "register_guard is_pk hash req actor = Inr a"
  shows "register_farmer is_pk hash reg req actor =
    and_then (map_err map_chain_error (on_backend (reg actor (hash (req_metadata req))))) (\<lambda>cf.
    and_then (on_pg (map_err Database
      (insert_farmer actor (req_metadata req) (hash (req_metadata req)) cf))) (\<lambda>_.
    ok \<lparr> f_address = actor, f_id = farmer_id actor, f_registered = True,
         f_created_ledger = Some (cf_created_ledger cf), f_updated_ledger = Some (cf_updated_ledger cf),
         f_metadata = req_metadata req, f_metadata_hash = hash (req_metadata req),
         f_verification_markers = [] \<rparr>))"
  using assms
  by (auto simp: register_guard_def register_farmer_def Let_def split: sum.splits if_splits option.splits)

lemma insert_farmer_healthy:
  assumes "budget db = None" and "farmers_ok db"
  shows "insert_farmer a m h cf db =
    (if a \<in> fa_address ` set (farmers db) then (Inl (UniqueViolation ''farmers_pkey''), db)
     else (Inr (), db\<lparr>farmers := farmers db @ [new_farmer_row (pg_now db) a m h cf]\<rparr>))"
  using insert_farmer_strict_ok [OF assms(2), of "new_farmer_row (pg_now db) a m h cf"] assms(1)
  by (auto simp: insert_farmer_def new_farmer_row_def)

lemma get_farmer_healthy:
  "budget db = None \<Longrightarrow> parse_farmer_identifier is_pk input = Inr a \<Longrightarrow>
    get_farmer is_pk input db =
      ((case tbl_find fa_address (farmers db) a of
          None \<Rightarrow> Inl (NotFound (''farmer '' @ a @ '' not found''))
        | Some r \<Rightarrow> farmer_of_row r), db)"
  by (simp add: get_farmer_def and_then_apply map_err_apply split: option.split)

lemma farmer_of_new_row:
  "farmer_of_row (new_farmer_row now a m h cf) =
    Inr \<lparr> f_address = a, f_id = farmer_id a, f_registered = True,
          f_created_ledger = Some (cf_created_ledger cf), f_updated_ledger = Some (cf_updated_ledger cf),
          f_metadata = m, f_metadata_hash = h, f_verification_markers = [] \<rparr>"
  by (simp add: farmer_of_row_def new_farmer_row_def metadata_roundtrip)

lemma register_success:
  assumes guard: "register_guard is_pk hash req actor = Inr a"
    and db: "budget db = None" "farmers_ok db"
    and run: "register_farmer is_pk hash reg req actor (c, db) = (Inr f, (c', db'))"
  obtains cf where "reg actor (hash (req_metadata req)) c = (Inr cf, c')"
    and "actor \<notin> fa_address ` set (farmers db)"
    and "db' = db\<lparr>farmers := farmers db @
      [new_farmer_row (pg_now db) actor (req_metadata req) (hash (req_metadata req)) cf]\<rparr>"
    and "farmer_of_row (new_farmer_row (pg_now db) actor (req_metadata req)
      (hash (req_metadata req)) cf) = Inr f"
proof -
  obtain r c1 where reg: "reg actor (hash (req_metadata req)) c = (r, c1)" by fastforce
  note steps = run [unfolded register_admitted [OF guard] and_then_apply map_err_apply
      on_backend_apply on_pg_apply reg prod.case insert_farmer_healthy [OF db]]
  show thesis
  proof (cases r)
    case (Inr cf)
    show thesis
      using steps by (intro that [of cf]) (simp_all add: Inr reg farmer_of_new_row on_pg_apply insert_farmer_healthy [OF db]
          split: if_splits)
  qed (use steps in simp)
qed

lemma tbl_find_snoc_new:
  "k \<notin> key ` set t \<Longrightarrow> key r = k \<Longrightarrow> tbl_find key (t @ [r]) k = Some r"
  using tbl_find_None [of key t k] by (simp add: tbl_find_def find_append)

text \<open>
  C24. A farmer that has been registered can be looked up: after a successful registration, on any
  chain backend, the lookup by the address as given and by the presentation id returns exactly
  the farmer the registration answered with, with the profile and its hash.
\<close>

theorem register_then_get:
  assumes "budget db = None" and "farmers_ok db"
    and "register_farmer is_pk hash reg req actor (c, db) = (Inr f, (c', db'))"
  shows "get_farmer is_pk (req_address req) db' = (Inr f, db')
    \<and> get_farmer is_pk (f_id f) db' = (Inr f, db')
    \<and> f_address f = actor \<and> f_metadata f = req_metadata req \<and> f_metadata_hash f = hash (req_metadata req)"
proof (cases "register_guard is_pk hash req actor")
  case (Inl e)
  then show ?thesis using assms(3) by (simp add: register_refused)
next
  case (Inr a)
  note guard = register_guard_Inr [OF Inr]
  from Inr assms obtain cf where new: "actor \<notin> fa_address ` set (farmers db)"
    and db': "db' = db\<lparr>farmers := farmers db @
      [new_farmer_row (pg_now db) actor (req_metadata req) (hash (req_metadata req)) cf]\<rparr>"
    and f: "farmer_of_row (new_farmer_row (pg_now db) actor (req_metadata req)
      (hash (req_metadata req)) cf) = Inr f"
    by (rule register_success)
  have found: "tbl_find fa_address (farmers db') actor = Some (new_farmer_row (pg_now db) actor
      (req_metadata req) (hash (req_metadata req)) cf)"
    using new by (simp add: db' tbl_find_snoc_new new_farmer_row_def)
  have healthy: "budget db' = None" using assms(1) by (simp add: db')
  have get: "get_farmer is_pk input db' = (Inr f, db')"
    if "parse_farmer_identifier is_pk input = Inr actor" for input
    using get_farmer_healthy [OF healthy that] found f by simp
  have fields: "f_id f = farmer_id actor" "f_address f = actor" "f_metadata f = req_metadata req"
    "f_metadata_hash f = hash (req_metadata req)"
    using f [symmetric] by (simp_all add: farmer_of_new_row)
  show ?thesis
    using get guard parse_actor_form [of is_pk "req_address req" actor] by (simp add: fields)
qed

definition sample_request :: register_farmer_request where
  "sample_request =
    \<lparr> req_address = ''GA'',
      req_metadata = \<lparr> name = ''Ada'', region = Some ''Niger'', district = None, bio = None,
        profile_image_hash = None \<rparr>,
      req_metadata_hash = None \<rparr>"

definition sample_registration :: "(app_error + farmer) \<times> (stub_chain \<times> pg)" where
  "sample_registration =
    register_farmer (\<lambda>a. a = ''GA'') (\<lambda>m. ''hash'') stub_register sample_request ''GA''
      (stub_chain_new, empty_pg)"

theorem register_then_get_witness:
  "\<exists>f c' db'. sample_registration = (Inr f, (c', db'))
    \<and> get_farmer (\<lambda>a. a = ''GA'') ''va:farmer:GA'' db' = (Inr f, db') \<and> name (f_metadata f) = ''Ada''"
proof -
  have "case fst sample_registration of Inl e \<Rightarrow> False | Inr f \<Rightarrow> f_id f = ''va:farmer:GA''" by code_simp
  then obtain f where f: "fst sample_registration = Inr f" and id: "f_id f = ''va:farmer:GA''"
    by (cases "fst sample_registration") auto
  obtain c' db' where run: "sample_registration = (Inr f, (c', db'))"
    using f by (metis prod.collapse)
  have "budget empty_pg = None" "farmers_ok empty_pg" by (simp_all add: empty_pg_def farmers_ok_def)
  from register_then_get [OF this run [unfolded sample_registration_def]] run id show ?thesis
    by (intro exI [of _ f] exI [of _ c'] exI [of _ db']) (simp add: sample_request_def)
qed

section \<open>Refusals\<close>

text \<open>
  C25. What a refused registration means, over the stub chain and a sound database: 400 and 401
  for the caller's mistakes and 409 for an address already on chain change nothing. The only
  other refusal is the database's: the address has a row although the chain did not know it;
  the answer is 500 and the address stays registered on chain.
\<close>

theorem register_refusals:
  assumes "budget db = None" and "farmers_ok db" and "stub_chain_valid c"
    and "register_farmer is_pk hash stub_register req actor (c, db) = (Inl e, (c', db'))"
  shows "db' = db
    \<and> (status_of e \<in> {400, 401, 409} \<and> c' = c
       \<or> e = Database (UniqueViolation ''farmers_pkey'') \<and> status_of e = 500
         \<and> actor \<in> fa_address ` set (farmers db) \<and> map_of c actor = None \<and> map_of c' actor \<noteq> None)"
proof (cases "register_guard is_pk hash req actor")
  case (Inl e')
  with assms(4) have "e' = e" "c' = c" "db' = db" by (simp_all add: register_refused)
  with register_guard_status [OF Inl] show ?thesis by auto
next
  case (Inr a)
  obtain r c1 where reg: "stub_register actor (hash (req_metadata req)) c = (r, c1)" by fastforce
  note run = assms(4) [unfolded register_admitted [OF Inr]]
  show ?thesis
  proof (cases "map_of c actor")
    case (Some f)
    with stub_chain.register_known [OF assms(3), of actor "hash (req_metadata req)"] reg
    have "r = Inl AlreadyRegistered" "c1 = c" by auto
    with run reg show ?thesis
      by (auto simp: and_then_apply map_err_apply on_backend_apply)
  next
    case None
    then obtain f where r: "r = Inr f"
      using reg by (auto simp: stub_register_def map_of_domain Let_def)
    have c1: "map_of c1 actor \<noteq> None"
      using stub_chain.register_ok [OF assms(3) reg [unfolded r]] by simp
    from run reg have "c' = c1" "db' = db" "e = Database (UniqueViolation ''farmers_pkey'')"
      "actor \<in> fa_address ` set (farmers db)"
      by (auto simp: r and_then_apply map_err_apply on_backend_apply on_pg_apply
          insert_farmer_healthy [OF assms(1,2)] split: if_splits)
    with None c1 show ?thesis by simp
  qed
qed

text \<open>The indexer has already made the row of the address; then its owner registers.\<close>

definition sample_indexed_farmer :: pg where
  "sample_indexed_farmer = snd (sample_pass sample_identity 20 empty_pg)"

definition sample_late_registration :: "(app_error + farmer) \<times> (stub_chain \<times> pg)" where
  "sample_late_registration =
    register_farmer (\<lambda>a. a = ''GA'') (\<lambda>m. ''hash'') stub_register sample_request ''GA''
      (stub_chain_new, sample_indexed_farmer)"

lemma sample_indexed_farmer_ok: "budget sample_indexed_farmer = None" "farmers_ok sample_indexed_farmer"
proof -
  have "map fa_address (farmers sample_indexed_farmer) = [''GA'']"
    "map fa_id (farmers sample_indexed_farmer) = [farmer_id ''GA'']"
    by code_simp+
  then show "farmers_ok sample_indexed_farmer" by (auto simp: farmers_ok_def)
  show "budget sample_indexed_farmer = None" by code_simp
qed

theorem register_refusals_witness:
  "\<exists>c' db'. sample_late_registration = (Inl (Database (UniqueViolation ''farmers_pkey'')), (c', db'))
    \<and> db' = sample_indexed_farmer \<and> map_of c' ''GA'' \<noteq> None"
proof -
  have "fst sample_late_registration = Inl (Database (UniqueViolation ''farmers_pkey''))" by code_simp
  then obtain c' db' where run:
    "sample_late_registration = (Inl (Database (UniqueViolation ''farmers_pkey'')), (c', db'))"
    by (metis prod.collapse)
  have "stub_chain_valid stub_chain_new" by (simp add: stub_chain_valid_def stub_chain_new_def)
  from register_refusals [OF sample_indexed_farmer_ok this run [unfolded sample_late_registration_def]] run
  show ?thesis by auto
qed

lemma register_owner:
  assumes "snd (register_farmer is_pk hash reg req actor (c, db)) \<noteq> (c, db)"
  shows "parse_farmer_identifier is_pk (req_address req) = Inr actor \<and> is_pk actor"
proof -
  from assms obtain a where "register_guard is_pk hash req actor = Inr a"
    by (cases "register_guard is_pk hash req actor") (auto simp: register_refused)
  from register_guard_Inr [OF this] show ?thesis by blast
qed

lemma update_owner:
  assumes "snd (update_metadata is_pk hash upd input m actor (c, db)) \<noteq> (c, db)"
  shows "parse_farmer_identifier is_pk input = Inr actor \<and> is_pk actor"
proof -
  from assms have "parse_farmer_identifier is_pk input = Inr actor"
    by (auto simp: update_metadata_def split: sum.splits if_splits)
  then show ?thesis by (auto dest: parse_farmer_identifier_Inr)
qed

text \<open>
  Authorisation: whatever happens, also when the database fails halfway, a registration or a
  metadata update changes the chain or a table only if the caller is authenticated as the address
  in the request, and that address is a public key.
\<close>

theorem only_the_owner_changes:
  "(snd (register_farmer is_pk hash reg req actor (c, db)) \<noteq> (c, db) \<longrightarrow>
      parse_farmer_identifier is_pk (req_address req) = Inr actor \<and> is_pk actor)
    \<and> (snd (update_metadata is_pk hash upd input m actor (c, db)) \<noteq> (c, db) \<longrightarrow>
      parse_farmer_identifier is_pk input = Inr actor \<and> is_pk actor)"
  using register_owner [of is_pk hash reg req actor c db] update_owner [of is_pk hash upd input m actor c db]
  by blast

theorem only_the_owner_changes_witness:
  "snd (register_farmer (\<lambda>a. True) (\<lambda>m. ''hash'') stub_register sample_request ''GB'' (stub_chain_new, empty_pg))
    = (stub_chain_new, empty_pg)"
  using only_the_owner_changes [of "\<lambda>a. True" "\<lambda>m. ''hash''" stub_register sample_request "''GB''"
      stub_chain_new empty_pg]
  by (auto simp: sample_request_def parse_farmer_identifier_def FARMER_ID_PREFIX_def)

section \<open>A second registration\<close>

text \<open>
  Registering twice: once a registration succeeded over the stub chain, every further one for
  the address that passes the guards is answered 409, whatever its profile and whatever the
  database, and changes nothing, even if the database has lost its connection.
\<close>

theorem second_registration_conflicts:
  assumes "stub_chain_valid c"
    and "register_farmer is_pk hash stub_register req actor (c, db) = (Inr f, (c', db'))"
    and "register_guard is_pk hash req' actor = Inr a"
  shows "register_farmer is_pk hash stub_register req' actor (c', db'') =
    (Inl (Conflict ''farmer already registered''), (c', db''))"
proof -
  obtain b where guard: "register_guard is_pk hash req actor = Inr b"
    using assms(2) by (cases "register_guard is_pk hash req actor") (auto simp: register_refused)
  obtain cf where "stub_register actor (hash (req_metadata req)) c = (Inr cf, c')"
    using assms(2) unfolding register_admitted [OF guard]
    by (auto simp: and_then_apply map_err_apply on_backend_apply on_pg_apply split: prod.splits sum.splits)
  from stub_chain.registered_then_known [OF assms(1) this, of "hash (req_metadata req')"]
  show ?thesis
    unfolding register_admitted [OF assms(3)]
    by (simp add: and_then_apply map_err_apply on_backend_apply)
qed

theorem second_registration_conflicts_witness:
  "\<exists>f c' db'. sample_registration = (Inr f, (c', db'))
    \<and> register_farmer (\<lambda>a. a = ''GA'') (\<lambda>m. ''hash'') stub_register sample_request ''GA'' (c', db')
      = (Inl (Conflict ''farmer already registered''), (c', db'))"
proof -
  have "case fst sample_registration of Inl e \<Rightarrow> False | Inr f \<Rightarrow> True" by code_simp
  then obtain f where f: "fst sample_registration = Inr f"
    by (cases "fst sample_registration") auto
  obtain c' db' where run: "sample_registration = (Inr f, (c', db'))"
    using f by (metis prod.collapse)
  have "stub_chain_valid stub_chain_new" by (simp add: stub_chain_valid_def stub_chain_new_def)
  moreover have "register_guard (\<lambda>a. a = ''GA'') (\<lambda>m. ''hash'') sample_request ''GA'' = Inr ''GA''" by code_simp
  ultimately show ?thesis
    using second_registration_conflicts [OF _ run [unfolded sample_registration_def]] run by blast
qed

section \<open>Updates\<close>

lemma update_success:
  assumes db: "budget db = None" and strkey: "\<forall>a. \<not> is_pk (FARMER_ID_PREFIX @ a)"
    and run: "update_metadata is_pk hash upd input m actor (c, db) = (Inr f, (c', db'))"
  obtains cf r where "parse_farmer_identifier is_pk input = Inr actor"
    and "upd actor (hash m) c = (Inr cf, c')"
    and "db' = db\<lparr>farmers := tbl_update fa_address actor (metadata_set m (hash m) cf) (farmers db)\<rparr>"
    and "tbl_find fa_address (farmers db) actor = Some r"
    and "farmer_of_row (metadata_set m (hash m) cf r) = Inr f"
proof -
  have parse: "parse_farmer_identifier is_pk input = Inr actor"
    and run': "and_then (map_err map_chain_error (on_backend (upd actor (hash m)))) (\<lambda>cf.
      and_then (on_pg (map_err Database (update_farmer_row actor m (hash m) cf))) (\<lambda>_.
      on_pg (get_farmer is_pk actor))) (c, db) = (Inr f, (c', db'))"
    using run by (auto simp: update_metadata_def Let_def split: sum.splits if_splits)
  have parse': "parse_farmer_identifier is_pk actor = Inr actor"
    using parse_farmer_identifier_Inr [OF parse] strkey
    by (cases "strip_prefix FARMER_ID_PREFIX actor")
      (auto simp: parse_farmer_identifier_def strip_prefix_Some Let_def)
  obtain r1 c1 where upd: "upd actor (hash m) c = (r1, c1)" by fastforce
  show thesis
  proof (cases r1)
    case (Inl e)
    with run' upd show thesis by (simp add: and_then_apply map_err_apply on_backend_apply)
  next
    case (Inr cf)
    let ?db = "db\<lparr>farmers := tbl_update fa_address actor (metadata_set m (hash m) cf) (farmers db)\<rparr>"
    have healthy: "budget ?db = None" using db by simp
    from run' upd Inr db have get: "on_pg (get_farmer is_pk actor) (c1, ?db) = (Inr f, (c', db'))"
      by (simp add: and_then_apply map_err_apply on_backend_apply on_pg_apply update_farmer_row_def)
    have found: "tbl_find fa_address (tbl_update fa_address actor (metadata_set m (hash m) cf) (farmers db)) actor =
        map_option (metadata_set m (hash m) cf) (tbl_find fa_address (farmers db) actor)"
      by (simp add: tbl_find_update metadata_set_def)
    obtain r where r: "tbl_find fa_address (farmers db) actor = Some r"
      using get by (cases "tbl_find fa_address (farmers db) actor")
        (simp_all add: on_pg_apply get_farmer_healthy [OF healthy parse'] found)
    from get r have "farmer_of_row (metadata_set m (hash m) cf r) = Inr f" "c1 = c'" "?db = db'"
      by (simp_all add: on_pg_apply get_farmer_healthy [OF healthy parse'] found)
    with parse upd Inr r show thesis by (intro that [of cf r]) simp_all
  qed
qed

text \<open>
  C26. A successful metadata update, over the stub chain: the caller owns the farmer, who was on
  chain and has a row; the new row has the new profile, its hash and the chain's new ledger and
  keeps the creation ledger, the markers and the registration; every other row and every other
  table is as before; and the answer is what a lookup returns then. (A public key in strkey form
  does not start with \<open>va:farmer:\<close>.)
\<close>

theorem update_exact:
  assumes "budget db = None" and "\<forall>a. \<not> is_pk (FARMER_ID_PREFIX @ a)" and "stub_chain_valid c"
    and run: "update_metadata is_pk hash stub_update input m actor (c, db) = (Inr f, (c', db'))"
  shows "\<exists>cf r. map_of c actor \<noteq> None \<and> map_of c' = (map_of c)(actor \<mapsto> cf)
    \<and> tbl_find fa_address (farmers db) actor = Some r
    \<and> tbl_find fa_address (farmers db') actor = Some (r\<lparr>fa_metadata := metadata_to_value m,
        fa_metadata_hash := hash m, fa_updated_ledger := Some (cf_updated_ledger cf)\<rparr>)
    \<and> (\<forall>a. a \<noteq> actor \<longrightarrow> tbl_find fa_address (farmers db') a = tbl_find fa_address (farmers db) a)
    \<and> db' = db\<lparr>farmers := farmers db'\<rparr>
    \<and> f_metadata f = m \<and> get_farmer is_pk actor db' = (Inr f, db')"
  using assms(1,2) run
proof (rule update_success)
  fix cf r
  assume parse: "parse_farmer_identifier is_pk input = Inr actor"
    and upd: "stub_update actor (hash m) c = (Inr cf, c')"
    and db': "db' = db\<lparr>farmers := tbl_update fa_address actor (metadata_set m (hash m) cf) (farmers db)\<rparr>"
    and r: "tbl_find fa_address (farmers db) actor = Some r"
    and f: "farmer_of_row (metadata_set m (hash m) cf r) = Inr f"
  have find: "tbl_find fa_address (farmers db') a =
      (if a = actor then Some (metadata_set m (hash m) cf r) else tbl_find fa_address (farmers db) a)" for a
    by (simp add: db' tbl_find_update metadata_set_def r)
  have parse': "parse_farmer_identifier is_pk actor = Inr actor"
    using parse_farmer_identifier_Inr [OF parse] assms(2)
    by (cases "strip_prefix FARMER_ID_PREFIX actor")
      (auto simp: parse_farmer_identifier_def strip_prefix_Some Let_def)
  have "budget db' = None" using assms(1) by (simp add: db')
  from get_farmer_healthy [OF this parse'] find f have get: "get_farmer is_pk actor db' = (Inr f, db')" by simp
  have "f_metadata f = m"
    using f by (auto simp: farmer_of_row_def metadata_set_def metadata_roundtrip split: option.splits)
  with stub_chain.update_ok [OF assms(3) upd] r find get show ?thesis
    by (intro exI [of _ cf] exI [of _ r]) (auto simp: metadata_set_def db')
qed

definition sample_update :: "(app_error + farmer) \<times> (stub_chain \<times> pg)" where
  "sample_update =
    update_metadata (\<lambda>a. a = ''GA'') (\<lambda>m. name m) stub_update ''va:farmer:GA''
      \<lparr> name = ''Ada2'', region = None, district = None, bio = None, profile_image_hash = None \<rparr> ''GA''
      (snd sample_registration)"

theorem update_exact_witness:
  "\<exists>f c' db'. sample_update = (Inr f, (c', db')) \<and> name (f_metadata f) = ''Ada2''
    \<and> get_farmer (\<lambda>a. a = ''GA'') ''GA'' db' = (Inr f, db')"
proof -
  have "case fst sample_update of Inl e \<Rightarrow> False | Inr f \<Rightarrow> True" by code_simp
  then obtain f where f: "fst sample_update = Inr f" by (cases "fst sample_update") auto
  obtain c' db' where run: "sample_update = (Inr f, (c', db'))" using f by (metis prod.collapse)
  obtain c db where state: "snd sample_registration = (c, db)" by fastforce
  have "budget (snd (snd sample_registration)) = None" by code_simp
  then have healthy: "budget db = None" by (simp add: state)
  have "distinct (map fst (fst (snd sample_registration)))
      \<and> (\<forall>p \<in> set (fst (snd sample_registration)). cf_address (snd p) = fst p)" by code_simp
  then have valid: "stub_chain_valid c" by (auto simp: stub_chain_valid_def state)
  have key: "\<forall>a. \<not> (FARMER_ID_PREFIX @ a = ''GA'')" by (simp add: FARMER_ID_PREFIX_def)
  from update_exact [OF healthy key valid run [unfolded sample_update_def state]] run show ?thesis
    by (intro exI [of _ f] exI [of _ c'] exI [of _ db']) auto
qed

end
