(* ===== verification/Auth_Properties.thy ===== *)
theory Auth_Properties
  imports Auth_Service
begin

text \<open>
  The properties of the wallet authentication: what a verification does on every branch, that a
  nonce opens at most one session when requests run one after the other, crashes included, that
  two concurrent requests break this, the life of a session and the signed text.
\<close>

section \<open>One verification\<close>

definition new_session :: "('k, 'g) crypto \<Rightarrow> verify_request \<Rightarrow> string \<Rightarrow> int \<Rightarrow> session_row" where
  "new_session cr req token expires_at =
    \<lparr> se_token_hash = hash_token cr token, se_address = rq_address req, se_roles = [''farmer''],
      se_expires_at = expires_at \<rparr>"

lemma verify_commit_healthy:
  "budget db = None \<Longrightarrow> verify_commit cr ttl req token now db =
    (case ttl of
       Inl e \<Rightarrow> (Inl (Failed (InternalError e)), used_nonce (rq_nonce req) db)
     | Inr d \<Rightarrow>
        (case cr_add_date cr now d of
           None \<Rightarrow> (Inl Panic, used_nonce (rq_nonce req) db)
         | Some t \<Rightarrow>
            (if hash_token cr token \<in> se_token_hash ` set (auth_sessions db)
             then (Inl (Failed (Database (UniqueViolation ''auth_sessions_token_hash_key''))),
                   used_nonce (rq_nonce req) db)
             else (Inr \<lparr> sn_token = token, sn_address = rq_address req, sn_roles = [''farmer''],
                         sn_expires_at = t \<rparr>,
                   (used_nonce (rq_nonce req) db)\<lparr>auth_sessions :=
                     auth_sessions db @ [new_session cr req token t]\<rparr>))))"
  by (auto simp: verify_commit_def and_then_apply map_err_apply consume_nonce_healthy Let_def
      insert_session_healthy new_session_def split: sum.split option.split)

lemma verify_check_errors:
  assumes "budget db = None" and "\<not> acceptable cr domain req now db"
  shows "\<exists>e. verify_check cr domain req now db = (Inl e, db) \<and> status_of e \<in> {400, 401, 409}"
  using assms
  by (auto simp: verify_check_def acceptable_def and_then_apply map_err_apply Let_def validate_address_def
      split: sum.splits option.splits)

lemma verify_accepted:
  assumes "budget db = None" and "acceptable cr domain req now1 db"
  shows "verify cr domain ttl req token now1 now2 db = verify_commit cr ttl req token now2 db"
  using verify_check_healthy(1) [OF assms(1), of cr domain req now1] assms(2)
  by (simp add: verify_def and_then_apply map_err_apply)

lemma verify_refused:
  assumes "budget db = None" and "\<not> acceptable cr domain req now1 db"
  shows "\<exists>e. verify cr domain ttl req token now1 now2 db = (Inl (Failed e), db) \<and> status_of e \<in> {400, 401, 409}"
  using verify_check_errors [OF assms] by (auto simp: verify_def and_then_apply map_err_apply)

text \<open>
  C18. Verification on a sound database, with a token whose hash is not stored yet. A request is
  accepted exactly if its address is a key, a challenge with its nonce was issued to this address
  for its domain, is unused, has not expired and belongs to this server's domain, and the signature
  is valid for the text rebuilt from the request. An accepted request consumes the nonce; with a
  session lifetime that is a duration and ends within the range of dates it stores a session for
  the address under the hash of the token, with another lifetime it answers 500 or panics and
  stores none. Every other request is answered 400, 401 or 409 and changes nothing.
\<close>

theorem verify_exact:
  assumes "budget db = None" and "hash_token cr token \<notin> se_token_hash ` set (auth_sessions db)"
  shows "(acceptable cr domain req now1 db \<longrightarrow>
      verify cr domain ttl req token now1 now2 db =
        (case ttl of
           Inl e \<Rightarrow> (Inl (Failed (InternalError e)), used_nonce (rq_nonce req) db)
         | Inr d \<Rightarrow>
            (case cr_add_date cr now2 d of
               None \<Rightarrow> (Inl Panic, used_nonce (rq_nonce req) db)
             | Some t \<Rightarrow>
                (Inr \<lparr> sn_token = token, sn_address = rq_address req, sn_roles = [''farmer''],
                       sn_expires_at = t \<rparr>,
                 (used_nonce (rq_nonce req) db)\<lparr>auth_sessions :=
                   auth_sessions db @ [new_session cr req token t]\<rparr>))))
    \<and> (\<not> acceptable cr domain req now1 db \<longrightarrow>
      (\<exists>e. verify cr domain ttl req token now1 now2 db = (Inl (Failed e), db) \<and> status_of e \<in> {400, 401, 409}))"
  using verify_accepted [OF assms(1), of cr domain req now1 ttl token now2]
    verify_refused [OF assms(1), of cr domain req now1 ttl token now2] assms(2)
  by (auto simp: verify_commit_healthy [OF assms(1)] split: sum.split option.split)

text \<open>A sample: signatures are valid if they are the signed text, keys are the addresses.\<close>

definition sample_crypto :: "(string, string) crypto" where
  "sample_crypto =
    \<lparr> cr_public_key = Inr, cr_base64 = Inr, cr_signature = Inr, cr_verifying_key = Inr,
      cr_verify = (\<lambda>key message sig. if sig = message then Inr () else Inl ''mismatch''),
      cr_sha256_hex = (\<lambda>s. ''#'' @ s), cr_rfc3339 = (\<lambda>t. ''T''),
      cr_add_date = (\<lambda>t d. Some (t + d)) \<rparr>"

lemma sample_add_date [simp]: "cr_add_date sample_crypto t d = Some (t + d)"
  by (simp add: sample_crypto_def)

definition sample_verify_request :: verify_request where
  "sample_verify_request =
    \<lparr> rq_address = ''GA'', rq_domain = ''app'', rq_nonce = ''n'', rq_timestamp = ''T'',
      rq_signature = sep40_message ''app'' ''GA'' ''n'' ''T'' \<rparr>"

definition sample_issued :: pg where
  "sample_issued = snd (issue_challenge sample_crypto ''app'' ''GA'' ''n'' 0 empty_pg)"

lemma sample_issued_simp:
  "sample_issued = empty_pg\<lparr>auth_challenges :=
    [\<lparr> ch_nonce = ''n'', ch_domain = ''app'', ch_address = ''GA'', ch_issued_at = 0,
       ch_expires_at = 300000000, ch_used = False \<rparr>]\<rparr>"
  by (simp add: sample_issued_def issue_challenge_def and_then_apply map_err_apply validate_address_def
      sample_crypto_def insert_challenge_healthy empty_pg_def minutes_def CHALLENGE_TTL_MINUTES_def Let_def)

lemma sample_acceptable: "acceptable sample_crypto ''app'' sample_verify_request 1 sample_issued"
  by (simp add: acceptable_def validate_address_def verify_signature_def sample_crypto_def
      sample_verify_request_def find_challenge_def sample_issued_simp)

theorem verify_exact_witness:
  "\<exists>db. verify sample_crypto ''app'' (Inr 100) sample_verify_request ''t'' 1 2 sample_issued =
      (Inr \<lparr> sn_token = ''t'', sn_address = ''GA'', sn_roles = [''farmer''], sn_expires_at = 102 \<rparr>, db)
    \<and> map ch_used (auth_challenges db) = [True]"
proof -
  have h: "budget sample_issued = None"
    "hash_token sample_crypto ''t'' \<notin> se_token_hash ` set (auth_sessions sample_issued)"
    by (simp_all add: sample_issued_simp empty_pg_def)
  have "map ch_used (auth_challenges (used_nonce ''n'' sample_issued)) = [True]"
    by (simp add: used_nonce_def sample_issued_simp tbl_update_def)
  with verify_exact [OF h, of "''app''" sample_verify_request 1 "Inr 100" 2] sample_acceptable show ?thesis
    by (simp add: sample_verify_request_def)
qed

section \<open>One session per challenge\<close>

text \<open>What any verification leaves in the authentication tables, wherever it fails.\<close>

lemma verify_effect:
  assumes "verify cr domain ttl req token now1 now2 db = (r, db')"
  shows "(auth_challenges db' = auth_challenges db \<and> auth_sessions db' = auth_sessions db \<and> (\<forall>s. r \<noteq> Inr s))
    \<or> acceptable cr domain req now1 db \<and> auth_challenges db' = auth_challenges (used_nonce (rq_nonce req) db)
      \<and> (auth_sessions db' = auth_sessions db
         \<or> (\<exists>row. se_address row = rq_address req \<and> auth_sessions db' = auth_sessions db @ [row]))"
proof -
  obtain x d where check: "verify_check cr domain req now1 db = (x, d)" by fastforce
  with verify_check_state [of cr domain req now1 db] obtain b where d: "d = db\<lparr>budget := b\<rparr>" by auto
  show ?thesis
  proof (cases x)
    case (Inl e)
    with check assms d show ?thesis by (auto simp: verify_def and_then_apply map_err_apply)
  next
    case (Inr u)
    with verify_check_query [of cr domain req now1 db u d] check d
    have acc: "acceptable cr domain req now1 db" by auto
    have commit: "verify_commit cr ttl req token now2 d = (r, db')"
      using assms check Inr by (simp add: verify_def and_then_apply map_err_apply)
    have used: "auth_challenges (used_nonce n (d\<lparr>budget := c\<rparr>)) = auth_challenges (used_nonce n db)"
      "auth_sessions (d\<lparr>budget := c\<rparr>) = auth_sessions db" for n c
      by (simp_all add: used_nonce_def d)
    show ?thesis
    proof (cases rule: execute_write_cases [of "used_nonce (rq_nonce req)" d])
      case (finished c)
      let ?u = "used_nonce (rq_nonce req) (d\<lparr>budget := c\<rparr>)"
      have sess: "auth_challenges (snd (insert_session row ?u)) = auth_challenges ?u
          \<and> (auth_sessions (snd (insert_session row ?u)) = auth_sessions ?u
             \<or> auth_sessions (snd (insert_session row ?u)) = auth_sessions ?u @ [row])" for row
        by (auto simp: insert_session_def execute_def split: option.splits sum.splits if_splits
            dest!: tick_Some)
      have "db' = ?u \<or> (\<exists>t. db' = snd (insert_session (new_session cr req token t) ?u))"
      proof (cases "case ttl of Inl e \<Rightarrow> None | Inr d \<Rightarrow> cr_add_date cr now2 d")
        case None
        with commit finished show ?thesis
          by (auto simp: verify_commit_def consume_nonce_def used_nonce_def [symmetric] and_then_apply
              map_err_apply Let_def split: sum.splits)
      next
        case (Some t)
        then obtain d where ttl: "ttl = Inr d" "cr_add_date cr now2 d = Some t" by (auto split: sum.splits)
        obtain y v where "insert_session (new_session cr req token t) ?u = (y, v)" by fastforce
        with commit finished ttl show ?thesis
          by (intro disjI2 exI [of _ t])
            (simp add: verify_commit_def consume_nonce_def used_nonce_def [symmetric] and_then_apply
              map_err_apply Let_def new_session_def split: sum.splits)
      qed
      then show ?thesis
      proof (elim disjE exE)
        fix t
        assume db': "db' = snd (insert_session (new_session cr req token t) ?u)"
        have "se_address (new_session cr req token t) = rq_address req"
          by (simp add: new_session_def)
        with sess [of "new_session cr req token t"] acc used show ?thesis
          unfolding db' by (metis used_nonce_sel(2))
      qed (use acc used in simp)
    qed (use commit acc used(1) [of _ "budget d"] used(2) [of "budget d"] d in
      \<open>auto simp: verify_commit_def consume_nonce_def used_nonce_def [symmetric] and_then_apply
        map_err_apply\<close>)
  qed
qed

text \<open>
  The requests one after the other, each of them possibly broken by a lost connection, and the
  rest of the program, which leaves the two tables alone. \<open>opened\<close> is the history of the nonces: a
  verification whose session has been stored adds the nonce of its request.
\<close>

inductive auth_reach :: "('k, 'g) crypto \<Rightarrow> string \<Rightarrow> string list \<Rightarrow> pg \<Rightarrow> bool" for cr domain where
  start: "auth_challenges db = [] \<Longrightarrow> auth_sessions db = [] \<Longrightarrow> auth_reach cr domain [] db"
| issued: "auth_reach cr domain opened db \<Longrightarrow>
    auth_reach cr domain opened (snd (issue_challenge cr domain address nonce now db))"
| verified: "auth_reach cr domain opened db \<Longrightarrow>
    verify cr domain ttl req token now1 now2 db = (r, db') \<Longrightarrow>
    auth_reach cr domain
      (if auth_sessions db' = auth_sessions db then opened else opened @ [rq_nonce req]) db'"
| looked_up: "auth_reach cr domain opened db \<Longrightarrow>
    auth_reach cr domain opened (snd (session_by_token cr token now db))"
| rest: "auth_reach cr domain opened db \<Longrightarrow> auth_challenges db' = auth_challenges db \<Longrightarrow>
    auth_sessions db' = auth_sessions db \<Longrightarrow> auth_reach cr domain opened db'"

definition sessions_of :: "string \<Rightarrow> pg \<Rightarrow> nat" where
  "sessions_of a db = length (filter (\<lambda>s. se_address s = a) (auth_sessions db))"

definition consumed_of :: "string \<Rightarrow> pg \<Rightarrow> nat" where
  "consumed_of a db = length (filter (\<lambda>c. ch_used c \<and> ch_address c = a) (auth_challenges db))"

text \<open>The nonce is that of a consumed challenge issued to the address of the session.\<close>

definition opens :: "challenge_row list \<Rightarrow> string \<Rightarrow> session_row \<Rightarrow> bool" where
  "opens t n s \<longleftrightarrow> (\<exists>c \<in> set t. ch_nonce c = n \<and> ch_used c \<and> ch_address c = se_address s)"

definition auth_inv :: "string list \<Rightarrow> pg \<Rightarrow> bool" where
  "auth_inv opened db \<longleftrightarrow> tbl_ok ch_nonce (auth_challenges db) \<and> distinct opened
    \<and> list_all2 (opens (auth_challenges db)) opened (auth_sessions db)
    \<and> (\<forall>a. sessions_of a db \<le> consumed_of a db)"

lemma auth_inv_eq:
  "auth_challenges db' = auth_challenges db \<Longrightarrow> auth_sessions db' = auth_sessions db \<Longrightarrow>
    auth_inv opened db' = auth_inv opened db"
  by (simp add: auth_inv_def sessions_of_def consumed_of_def)

text \<open>Consuming an unused challenge adds one to the count of its address.\<close>

lemma consume_counts:
  assumes "tbl_ok ch_nonce t" and "r \<in> set t" and "\<not> ch_used r"
  shows "length (filter (\<lambda>c. ch_used c \<and> ch_address c = a) (tbl_update ch_nonce (ch_nonce r) (\<lambda>r. r\<lparr>ch_used := True\<rparr>) t))
    = length (filter (\<lambda>c. ch_used c \<and> ch_address c = a) t) + (if ch_address r = a then 1 else 0)"
  using assms
proof (induction t)
  case (Cons x t)
  show ?case
  proof (cases "x = r")
    case True
    then have "ch_nonce r \<notin> ch_nonce ` set t" using Cons.prems by simp
    then have "\<forall>y \<in> set t. ch_nonce y \<noteq> ch_nonce r" by (metis imageI)
    then have "tbl_update ch_nonce (ch_nonce r) (\<lambda>r. r\<lparr>ch_used := True\<rparr>) t = t"
      unfolding tbl_update_def by (intro map_idI) simp
    with True Cons.prems show ?thesis by (simp add: tbl_update_def)
  next
    case False
    with Cons.prems have "r \<in> set t" "ch_nonce x \<noteq> ch_nonce r" by auto
    with Cons show ?thesis by (auto simp: tbl_update_def)
  qed
qed simp

text \<open>A consumed challenge stays; the one consumed last opens the session stored for it.\<close>

lemma opens_used_nonce: "opens (auth_challenges db) n s \<Longrightarrow> opens (auth_challenges (used_nonce m db)) n s"
  by (force simp: opens_def used_nonce_def tbl_update_def)

lemma opens_unused:
  "tbl_ok ch_nonce t \<Longrightarrow> r \<in> set t \<Longrightarrow> \<not> ch_used r \<Longrightarrow> opens t n s \<Longrightarrow> n \<noteq> ch_nonce r"
  unfolding opens_def by (metis distinct_map inj_onD)

lemma auth_inv_verify:
  assumes inv: "auth_inv opened db" and run: "verify cr domain ttl req token now1 now2 db = (r, db')"
  shows "auth_inv (if auth_sessions db' = auth_sessions db then opened else opened @ [rq_nonce req]) db'"
  using verify_effect [OF run]
proof
  assume "auth_challenges db' = auth_challenges db \<and> auth_sessions db' = auth_sessions db \<and> (\<forall>s. r \<noteq> Inr s)"
  with inv show ?thesis by (simp add: auth_inv_eq [of db' db])
next
  assume effect: "acceptable cr domain req now1 db \<and> auth_challenges db' = auth_challenges (used_nonce (rq_nonce req) db)
      \<and> (auth_sessions db' = auth_sessions db
         \<or> (\<exists>row. se_address row = rq_address req \<and> auth_sessions db' = auth_sessions db @ [row]))"
  then obtain ch where find: "find_challenge req db = Some ch" and unused: "\<not> ch_used ch"
    by (auto simp: acceptable_def split: option.splits)
  then have ch: "ch \<in> set (auth_challenges db)" "ch_nonce ch = rq_nonce req" "ch_address ch = rq_address req"
    by (auto simp: find_challenge_def find_Some_iff)
  have keys: "tbl_ok ch_nonce (auth_challenges db)" and opened: "distinct opened"
    and open_db: "list_all2 (opens (auth_challenges db)) opened (auth_sessions db)"
    using inv by (simp_all add: auth_inv_def)
  have consumed: "consumed_of a db' = consumed_of a db + (if rq_address req = a then 1 else 0)" for a
    using consume_counts [OF keys ch(1) unused, of a] effect
    by (simp add: consumed_of_def used_nonce_def ch)
  have sessions: "sessions_of a db' \<le> sessions_of a db + (if rq_address req = a then 1 else 0)" for a
    using effect by (auto simp: sessions_of_def)
  have "sessions_of a db' \<le> consumed_of a db'" for a
    using inv consumed [of a] sessions [of a] unfolding auth_inv_def by (metis add_le_mono1 order_trans)
  moreover have "tbl_ok ch_nonce (auth_challenges db')"
    using effect keys by (simp add: used_nonce_def tbl_ok_update)
  moreover have old: "list_all2 (opens (auth_challenges db')) opened (auth_sessions db)"
    using effect by (auto intro: list_all2_mono [OF open_db] opens_used_nonce)
  moreover have "opens (auth_challenges db') (rq_nonce req) row" if "se_address row = rq_address req" for row
  proof -
    have "ch\<lparr>ch_used := True\<rparr> \<in> set (auth_challenges (used_nonce (rq_nonce req) db))"
      using ch by (force simp: used_nonce_def tbl_update_def)
    with effect ch that show ?thesis by (auto simp: opens_def intro!: bexI [of _ "ch\<lparr>ch_used := True\<rparr>"])
  qed
  moreover have "rq_nonce req \<notin> set opened"
    using opens_unused [OF keys ch(1) unused] open_db ch(2)
    by (metis in_set_conv_nth list_all2_conv_all_nth)
  ultimately show ?thesis
    using opened effect by (auto simp: auth_inv_def list_all2_appendI)
qed

lemma auth_inv_issue: "auth_inv opened db \<Longrightarrow> auth_inv opened (snd (issue_challenge cr domain address nonce now db))"
proof -
  have new: "list_all2 (opens (t @ [row])) ns ss" if "list_all2 (opens t) ns ss" for t row ns ss
    using that by (rule list_all2_mono) (auto simp: opens_def)
  have "keeps (auth_inv opened) (insert_challenge row)" if "\<not> ch_used row" for row
    unfolding insert_challenge_def
    by (rule keeps_execute) (use that in
      \<open>auto simp: fault_blind_def auth_inv_def sessions_of_def consumed_of_def new split: if_splits\<close>)
  then have "keeps (auth_inv opened) (issue_challenge cr domain address nonce now)"
    unfolding issue_challenge_def Let_def by (intro keeps_intros) simp
  then show "auth_inv opened db \<Longrightarrow> auth_inv opened (snd (issue_challenge cr domain address nonce now db))"
    by (rule keepsD)
qed

lemma session_lookup_state: "\<exists>b. snd (session_by_token cr token now db) = db\<lparr>budget := b\<rparr>"
  by (auto simp: session_by_token_def and_then_apply map_err_apply Let_def query_def
      split: option.splits dest: tick_Some intro: exI [of _ "budget db"])

lemma auth_reach_inv: "auth_reach cr domain opened db \<Longrightarrow> auth_inv opened db"
proof (induction rule: auth_reach.induct)
  case (start db)
  then show ?case by (simp add: auth_inv_def sessions_of_def consumed_of_def)
next
  case (issued opened db address nonce now)
  then show ?case by (simp add: auth_inv_issue)
next
  case (verified opened db ttl req token now1 now2 r db')
  then show ?case by (blast intro: auth_inv_verify)
next
  case (looked_up opened db token now)
  with session_lookup_state [of cr token now db] show ?case
    by (auto simp: auth_inv_eq [of "_\<lparr>budget := _\<rparr>" db])
next
  case (rest opened db db')
  then show ?case by (simp add: auth_inv_eq [of db' db])
qed

text \<open>The states of these runs, whatever their history.\<close>

definition auth_reachable :: "('k, 'g) crypto \<Rightarrow> string \<Rightarrow> pg \<Rightarrow> bool" where
  "auth_reachable cr domain db \<longleftrightarrow> (\<exists>opened. auth_reach cr domain opened db)"

lemma auth_reachable_start: "auth_challenges db = [] \<Longrightarrow> auth_sessions db = [] \<Longrightarrow> auth_reachable cr domain db"
  and auth_reachable_issued:
  "auth_reachable cr domain db \<Longrightarrow> auth_reachable cr domain (snd (issue_challenge cr domain address nonce now db))"
  and auth_reachable_verified:
  "auth_reachable cr domain db \<Longrightarrow> auth_reachable cr domain (snd (verify cr domain ttl req token now1 now2 db))"
  and auth_reachable_looked_up:
  "auth_reachable cr domain db \<Longrightarrow> auth_reachable cr domain (snd (session_by_token cr token now db))"
  and auth_reachable_rest:
  "auth_reachable cr domain db \<Longrightarrow> auth_challenges db' = auth_challenges db \<Longrightarrow>
    auth_sessions db' = auth_sessions db \<Longrightarrow> auth_reachable cr domain db'"
  unfolding auth_reachable_def by (blast intro: auth_reach.intros prod.collapse [symmetric])+

lemma auth_reachable_inv: "auth_reachable cr domain db \<Longrightarrow> \<exists>opened. auth_inv opened db"
  unfolding auth_reachable_def by (blast intro: auth_reach_inv)

text \<open>
  C19. A nonce opens at most one session when requests come one after the other, with connections
  lost anywhere. In the history of the nonces of the requests whose sessions have been stored, no
  nonce occurs twice, and each is that of a consumed challenge that was issued to the address of
  the session it opened; so every address has at most as many sessions as consumed challenges.
\<close>

theorem sessions_need_challenges:
  assumes "auth_reach cr domain opened db"
  shows "distinct opened
    \<and> list_all2 (\<lambda>n s. \<exists>c \<in> set (auth_challenges db). ch_nonce c = n \<and> ch_used c \<and> ch_address c = se_address s)
        opened (auth_sessions db)
    \<and> length (filter (\<lambda>s. se_address s = a) (auth_sessions db))
      \<le> length (filter (\<lambda>c. ch_used c \<and> ch_address c = a) (auth_challenges db))"
  using auth_reach_inv [OF assms]
  by (simp add: auth_inv_def sessions_of_def consumed_of_def opens_def [abs_def])

text \<open>A sign-in, and the same request once more.\<close>

definition sample_opened :: pg where
  "sample_opened = snd (verify sample_crypto ''app'' (Inr 100) sample_verify_request ''t'' 1 2 sample_issued)"

lemma sample_opened_simp:
  "sample_opened = (used_nonce ''n'' sample_issued)\<lparr>auth_sessions :=
    [new_session sample_crypto sample_verify_request ''t'' 102]\<rparr>"
proof -
  have "budget sample_issued = None" by (simp add: sample_issued_simp empty_pg_def)
  from verify_accepted [OF this sample_acceptable] this show ?thesis
    by (simp add: sample_opened_def verify_commit_healthy)
      (simp add: sample_issued_simp empty_pg_def sample_verify_request_def)
qed

theorem sessions_need_challenges_witness:
  "auth_sessions (snd (verify sample_crypto ''app'' (Inr 100) sample_verify_request ''u'' 3 4 sample_opened)) =
      auth_sessions sample_opened
    \<and> length (auth_sessions sample_opened) = 1"
proof -
  have "auth_reach sample_crypto ''app'' [] empty_pg" by (rule auth_reach.start) (simp_all add: empty_pg_def)
  then have issued: "auth_reach sample_crypto ''app'' [] sample_issued"
    unfolding sample_issued_def by (rule auth_reach.issued)
  have "auth_reach sample_crypto ''app''
      (if auth_sessions sample_opened = auth_sessions sample_issued then [] else [] @ [rq_nonce sample_verify_request])
      sample_opened"
    by (rule auth_reach.verified [OF issued, of "Inr 100" sample_verify_request "''t''" 1 2])
      (simp add: sample_opened_def prod_eq_iff)
  then have opened: "auth_reach sample_crypto ''app'' [''n''] sample_opened"
    by (simp add: sample_opened_simp) (simp add: sample_verify_request_def sample_issued_simp empty_pg_def)
  obtain r db where run: "verify sample_crypto ''app'' (Inr 100) sample_verify_request ''u'' 3 4 sample_opened = (r, db)"
    by fastforce
  have "distinct (if auth_sessions db = auth_sessions sample_opened then [''n'']
      else [''n''] @ [rq_nonce sample_verify_request])"
    using sessions_need_challenges [OF auth_reach.verified [OF opened run]] by blast
  then have "auth_sessions db = auth_sessions sample_opened"
    by (rule contrapos_pp) (simp add: sample_verify_request_def)
  moreover have "auth_sessions sample_opened = [new_session sample_crypto sample_verify_request ''t'' 102]"
    by (simp add: sample_opened_simp)
  ultimately show ?thesis unfolding run by simp
qed

text \<open>
  A nonce that has opened a session is refused from then on: after a successful verification,
  every request with the same nonce, from whatever address and with whatever signature, is
  answered 409 (400 if its address is no key) and changes nothing.
\<close>

theorem nonce_reuse_refused:
  assumes "auth_reach cr domain opened db" and "verify cr domain ttl req token now1 now2 db = (Inr s, db')"
    and "budget db2 = None" and "auth_challenges db2 = auth_challenges db'"
    and "rq_nonce req2 = rq_nonce req"
  shows "\<exists>e. verify cr domain ttl2 req2 token2 now3 now4 db2 = (Inl (Failed e), db2)
    \<and> status_of e \<in> {400, 409}"
proof -
  have keys: "tbl_ok ch_nonce (auth_challenges db)"
    using auth_reach_inv [OF assms(1)] by (simp add: auth_inv_def)
  have used: "auth_challenges db2 = auth_challenges (used_nonce (rq_nonce req) db)"
    using verify_effect [OF assms(2)] assms(4) by auto
  have "ch_used r" if "find_challenge req2 db2 = Some r" for r
  proof -
    from that have "r \<in> set (auth_challenges db2)" "ch_nonce r = rq_nonce req"
      by (auto simp: find_challenge_def find_Some_iff assms(5))
    then show ?thesis by (auto simp: used used_nonce_def tbl_update_def split: if_splits)
  qed
  then show ?thesis
    using assms(3)
    by (auto simp: verify_def verify_check_def and_then_apply map_err_apply validate_address_def
        split: sum.split option.split)
qed

theorem nonce_reuse_refused_witness:
  "\<exists>s db e. verify sample_crypto ''app'' (Inr 100) sample_verify_request ''t'' 1 2 sample_issued = (Inr s, db)
    \<and> verify sample_crypto ''app'' (Inr 100) sample_verify_request ''u'' 3 4 db = (Inl (Failed e), db)
    \<and> status_of e \<in> {400, 409}"
proof -
  have "auth_reach sample_crypto ''app'' [] empty_pg" by (rule auth_reach.start) (simp_all add: empty_pg_def)
  then have reach: "auth_reach sample_crypto ''app'' [] sample_issued"
    unfolding sample_issued_def by (rule auth_reach.issued)
  have h: "budget sample_issued = None"
    "hash_token sample_crypto ''t'' \<notin> se_token_hash ` set (auth_sessions sample_issued)"
    by (simp_all add: sample_issued_simp empty_pg_def)
  then obtain s where run: "verify sample_crypto ''app'' (Inr 100) sample_verify_request ''t'' 1 2 sample_issued =
      (Inr s, sample_opened)"
    using sample_opened_simp
    by (simp add: verify_accepted [OF h(1) sample_acceptable] verify_commit_healthy)
      (simp add: sample_issued_simp empty_pg_def sample_verify_request_def)
  have "budget sample_opened = None" by (simp add: sample_opened_simp sample_issued_simp empty_pg_def)
  from nonce_reuse_refused [OF reach run this refl refl, of "Inr 100" "''u''" 3 4] run show ?thesis by blast
qed

section \<open>Two requests at once\<close>

text \<open>
  C39. The check and the consumption of a nonce are separate statements, and the \<open>UPDATE\<close> does not
  look at \<open>used\<close>: when two requests with the same challenge are interleaved so that both check
  before one consumes, both succeed and the single nonce has opened two sessions.
\<close>

theorem concurrent_requests_share_a_nonce:
  assumes "budget db = None" and "acceptable cr domain req now db"
    and "hash_token cr t1 \<notin> se_token_hash ` set (auth_sessions db)"
    and "hash_token cr t2 \<notin> se_token_hash ` set (auth_sessions db)" and "hash_token cr t1 \<noteq> hash_token cr t2"
    and "cr_add_date cr now ttl = Some t"
  shows "\<exists>s1 s2 d. verify_check cr domain req now db = (Inr (), db)
    \<and> verify_commit cr (Inr ttl) req t1 now db = (Inr s1, d)
    \<and> fst (verify_commit cr (Inr ttl) req t2 now d) = Inr s2
    \<and> auth_sessions (snd (verify_commit cr (Inr ttl) req t2 now d)) =
        auth_sessions db @ [new_session cr req t1 t, new_session cr req t2 t]
    \<and> auth_challenges (snd (verify_commit cr (Inr ttl) req t2 now d)) = auth_challenges d"
proof -
  let ?d = "(used_nonce (rq_nonce req) db)\<lparr>auth_sessions :=
      auth_sessions db @ [new_session cr req t1 t]\<rparr>"
  have d: "budget ?d = None" using assms(1) by simp
  have first: "verify_commit cr (Inr ttl) req t1 now db =
      (Inr \<lparr> sn_token = t1, sn_address = rq_address req, sn_roles = [''farmer''], sn_expires_at = t \<rparr>, ?d)"
    using assms(3,6) by (simp add: verify_commit_healthy [OF assms(1)])
  have "hash_token cr t2 \<notin> se_token_hash ` set (auth_sessions ?d)"
    using assms(4,5) by (auto simp: new_session_def)
  then have second: "verify_commit cr (Inr ttl) req t2 now ?d =
      (Inr \<lparr> sn_token = t2, sn_address = rq_address req, sn_roles = [''farmer''], sn_expires_at = t \<rparr>,
       (used_nonce (rq_nonce req) ?d)\<lparr>auth_sessions :=
         auth_sessions ?d @ [new_session cr req t2 t]\<rparr>)"
    by (simp add: verify_commit_healthy [OF d] assms(6))
  have "auth_challenges (used_nonce (rq_nonce req) ?d) = auth_challenges ?d"
    by (auto simp: used_nonce_def tbl_update_def)
  then show ?thesis
    using verify_check_healthy(1) [OF assms(1), of cr domain req now] assms(2) first second by simp
qed

theorem concurrent_requests_share_a_nonce_witness:
  "\<exists>d. snd (verify_commit sample_crypto (Inr 100) sample_verify_request ''t'' 1 sample_issued) = d
    \<and> length (auth_sessions (snd (verify_commit sample_crypto (Inr 100) sample_verify_request ''u'' 1 d))) = 2"
proof -
  have h: "budget sample_issued = None"
    "hash_token sample_crypto ''t'' \<notin> se_token_hash ` set (auth_sessions sample_issued)"
    "hash_token sample_crypto ''u'' \<notin> se_token_hash ` set (auth_sessions sample_issued)"
    "hash_token sample_crypto ''t'' \<noteq> hash_token sample_crypto ''u''"
    "length (auth_sessions sample_issued) = 0"
    by (simp_all add: sample_issued_simp empty_pg_def hash_token_def sample_crypto_def)
  have "cr_add_date sample_crypto 1 100 = Some 101" by (simp add: sample_crypto_def)
  from concurrent_requests_share_a_nonce [OF h(1) sample_acceptable h(2-4) this] h(5) show ?thesis
    by auto
qed

section \<open>Sessions\<close>

text \<open>
  C20. The life of a session: after a successful verification on a sound database, whose lifetime is
  added to the current time exactly when the date stays in range, the token it
  returned resolves to the session of its address until the expiry, and from the expiry on the
  answer is 401; the lookup changes nothing.
\<close>

theorem session_life:
  assumes "budget db = None" and "hash_token cr token \<notin> se_token_hash ` set (auth_sessions db)"
    and "verify cr domain (Inr ttl) req token now1 now2 db = (Inr s, db')"
    and "cr_add_date cr now2 ttl \<in> {None, Some (now2 + ttl)}"
  shows "sn_token s = token \<and> sn_address s = rq_address req \<and> sn_expires_at s = now2 + ttl
    \<and> (if t < now2 + ttl
       then session_by_token cr (sn_token s) t db' = (Inr (new_session cr req token (now2 + ttl)), db')
       else session_by_token cr (sn_token s) t db' = (Inl (Unauthorized ''session expired''), db'))"
proof -
  have acc: "acceptable cr domain req now1 db"
    using assms(3) verify_refused [OF assms(1), of cr domain req now1 "Inr ttl" token now2] by fastforce
  have commit: "verify_commit cr (Inr ttl) req token now2 db = (Inr s, db')"
    using assms(3) by (simp add: verify_accepted [OF assms(1) acc])
  with assms(4) have date: "cr_add_date cr now2 ttl = Some (now2 + ttl)"
    by (auto simp: verify_commit_healthy [OF assms(1)])
  with assms(2) commit have s: "s = \<lparr> sn_token = token, sn_address = rq_address req, sn_roles = [''farmer''],
      sn_expires_at = now2 + ttl \<rparr>"
    and db': "db' = (used_nonce (rq_nonce req) db)\<lparr>auth_sessions :=
      auth_sessions db @ [new_session cr req token (now2 + ttl)]\<rparr>"
    by (simp_all add: verify_commit_healthy [OF assms(1)])
  have healthy: "budget db' = None" using assms(1) by (simp add: db')
  have "find (\<lambda>r. se_token_hash r = hash_token cr token) (auth_sessions db) = None"
    unfolding find_None_iff using assms(2) by (metis imageI)
  then have "tbl_find se_token_hash (auth_sessions db') (hash_token cr token) =
      Some (new_session cr req token (now2 + ttl))"
    by (simp add: db' tbl_find_def find_append new_session_def)
  with healthy show ?thesis
    by (simp add: s session_by_token_def Let_def and_then_apply map_err_apply)
      (simp add: new_session_def)
qed

theorem session_life_witness:
  "\<exists>s db. verify sample_crypto ''app'' (Inr 100) sample_verify_request ''t'' 1 2 sample_issued = (Inr s, db)
    \<and> session_by_token sample_crypto ''t'' 101 db =
        (Inr (new_session sample_crypto sample_verify_request ''t'' 102), db)
    \<and> session_by_token sample_crypto ''t'' 102 db = (Inl (Unauthorized ''session expired''), db)"
proof -
  have h: "budget sample_issued = None"
    "hash_token sample_crypto ''t'' \<notin> se_token_hash ` set (auth_sessions sample_issued)"
    "cr_add_date sample_crypto 2 100 \<in> {None, Some (2 + 100)}"
    by (simp_all add: sample_issued_simp empty_pg_def sample_crypto_def)
  then obtain s db where run:
    "verify sample_crypto ''app'' (Inr 100) sample_verify_request ''t'' 1 2 sample_issued = (Inr s, db)"
    by (simp add: verify_accepted [OF h(1) sample_acceptable] verify_commit_healthy)
  from session_life [OF h(1,2) run h(3), of 101] session_life [OF h(1,2) run h(3), of 102] run show ?thesis
    by auto
qed

section \<open>The signed text\<close>

lemma split_line:
  "c \<notin> set a \<Longrightarrow> c \<notin> set b \<Longrightarrow> a @ c # x = b @ c # y \<longleftrightarrow> a = b \<and> x = y"
proof (induction a arbitrary: b)
  case Nil
  then show ?case by (cases b) auto
next
  case (Cons z a)
  then show ?case by (cases b) auto
qed

text \<open>
  C21. The signed text determines the challenge it was built from: two texts are equal only if
  domain, address, nonce and timestamp are, provided domain, address and nonce are single lines.
\<close>

theorem signed_text_injective:
  assumes "CHR 0x0A \<notin> set d \<union> set a \<union> set n" and "CHR 0x0A \<notin> set d' \<union> set a' \<union> set n'"
    and "sep40_message d a n t = sep40_message d' a' n' t'"
  shows "d = d' \<and> a = a' \<and> n = n' \<and> t = t'"
proof -
  let ?s = "'' wants you to sign in with your Stellar account:''"
  have "(d @ ?s) @ CHR 0x0A # a @ CHR 0x0A # CHR 0x0A # ''Nonce: '' @ n @ CHR 0x0A # ''Issued At: '' @ t @ newline
      = (d' @ ?s) @ CHR 0x0A # a' @ CHR 0x0A # CHR 0x0A # ''Nonce: '' @ n' @ CHR 0x0A # ''Issued At: '' @ t' @ newline"
    using assms(3) by (simp add: sep40_message_def newline_def)
  then have "d @ ?s = d' @ ?s" and rest: "a @ CHR 0x0A # CHR 0x0A # ''Nonce: '' @ n @ CHR 0x0A # ''Issued At: '' @ t @ newline
      = a' @ CHR 0x0A # CHR 0x0A # ''Nonce: '' @ n' @ CHR 0x0A # ''Issued At: '' @ t' @ newline"
    using assms(1,2) by (subst (asm) split_line; simp)+
  from rest have "a = a'" and "n @ CHR 0x0A # ''Issued At: '' @ t @ newline = n' @ CHR 0x0A # ''Issued At: '' @ t' @ newline"
    using assms(1,2) by (subst (asm) split_line; simp)+
  with \<open>d @ ?s = d' @ ?s\<close> show ?thesis
    using assms(1,2) by (simp add: split_line newline_def)
qed

theorem signed_text_injective_witness:
  "sep40_message ''app'' ''GA'' ''n'' ''T'' \<noteq> sep40_message ''app'' ''GA'' ''n'' ''U''"
  using signed_text_injective [of "''app''" "''GA''" "''n''" "''app''" "''GA''" "''n''" "''T''" "''U''"] by auto

end
