(* ===== verification/App_Properties.thy ===== *)
theory App_Properties
  imports Routes_App Farmer_Properties Auth_Properties
begin

text \<open>
  Properties across the routes: who can change a farmer's profile, the contract list of the
  configuration, and the health report.
\<close>

section \<open>Authenticated changes\<close>

text \<open>
  A request is authorised for an address form: its bearer token is that of an unexpired session, the
  form denotes the session's address, and a challenge for that address has been consumed.
\<close>

definition authorised ::
  "('k, 'g) crypto \<Rightarrow> (string \<Rightarrow> bool) \<Rightarrow> string option \<Rightarrow> int \<Rightarrow> string \<Rightarrow> pg \<Rightarrow> bool" where
  "authorised cr is_pk header now input db \<longleftrightarrow>
    (case bearer_token header of
       Inl _ \<Rightarrow> False
     | Inr token \<Rightarrow>
        (\<exists>s \<in> set (auth_sessions db). se_token_hash s = hash_token cr token \<and> now < se_expires_at s
          \<and> parse_farmer_identifier is_pk input = Inr (se_address s)
          \<and> (\<exists>ch \<in> set (auth_challenges db). ch_used ch \<and> ch_address ch = se_address s)))"

definition profile_changed :: "'c \<times> pg \<Rightarrow> 'c \<times> pg \<Rightarrow> bool" where
  "profile_changed s s' \<longleftrightarrow> fst s' \<noteq> fst s \<or> farmers (snd s') \<noteq> farmers (snd s)"

lemma extracted_user:
  assumes "from_request_parts cr header now db = (r, db1)"
  shows "(\<exists>b. db1 = db\<lparr>budget := b\<rparr>)
    \<and> (\<forall>a. r = Inr a \<longrightarrow> (\<exists>token s. bearer_token header = Inr token \<and> s \<in> set (auth_sessions db)
        \<and> se_token_hash s = hash_token cr token \<and> now < se_expires_at s \<and> au_address a = se_address s))"
proof (cases "bearer_token header")
  case (Inl e)
  with assms show ?thesis by (auto simp: from_request_parts_def and_then_apply intro: exI [of _ "budget db"])
next
  case (Inr token)
  obtain r' db' where look: "session_by_token cr token now db = (r', db')" by fastforce
  have db': "\<exists>b. db' = db\<lparr>budget := b\<rparr>" using session_lookup_state [of cr token now db] look by simp
  have "db1 = db'" using assms Inr look by (auto simp: from_request_parts_def and_then_apply split: sum.splits)
  moreover have "\<exists>s. s \<in> set (auth_sessions db) \<and> se_token_hash s = hash_token cr token \<and> now < se_expires_at s
      \<and> au_address a = se_address s" if "r = Inr a" for a
  proof -
    from that assms Inr look obtain s where "r' = Inr s" and a: "au_address a = se_address s"
      by (auto simp: from_request_parts_def and_then_apply split: sum.splits)
    with look have "\<exists>db0 b. db0 = db\<lparr>budget := b\<rparr> \<and> tbl_find se_token_hash (auth_sessions db0) (hash_token cr token) = Some s
        \<and> \<not> se_expires_at s \<le> now"
      by (auto simp: session_by_token_def and_then_apply map_err_apply Let_def query_def
          split: option.splits if_splits dest: tick_Some)
    then show ?thesis using a by (intro exI [of _ s]) (auto dest: tbl_find_SomeD)
  qed
  ultimately show ?thesis using db' Inr by auto
qed

lemma session_has_challenge:
  assumes "auth_reachable cr domain db" and "s \<in> set (auth_sessions db)"
  shows "\<exists>ch \<in> set (auth_challenges db). ch_used ch \<and> ch_address ch = se_address s"
proof -
  have "s \<in> set (filter (\<lambda>x. se_address x = se_address s) (auth_sessions db))" using assms(2) by simp
  then have "0 < sessions_of (se_address s) db" unfolding sessions_of_def by (rule length_pos_if_in_set)
  then have "0 < consumed_of (se_address s) db"
    using auth_reachable_inv [OF assms(1)] by (auto simp: auth_inv_def intro: less_le_trans)
  then show ?thesis by (auto simp: consumed_of_def filter_empty_conv)
qed

lemma changed_after_extraction:
  assumes "profile_changed (c, db) (snd (and_then (on_pg (from_request_parts cr header now)) k (c, db)))"
  obtains a db1 where "from_request_parts cr header now db = (Inr a, db1)" and "snd (k a (c, db1)) \<noteq> (c, db1)"
proof -
  obtain r db1 where run: "from_request_parts cr header now db = (r, db1)" by fastforce
  then have same: "farmers db1 = farmers db" using extracted_user [OF run] by auto
  have "\<exists>a. r = Inr a \<and> snd (k a (c, db1)) \<noteq> (c, db1)"
    using assms run same
    by (cases r) (auto simp: and_then_apply on_pg_apply profile_changed_def)
  with run that show thesis by blast
qed

lemma extraction_authorises:
  assumes "auth_reachable cr domain db" and "from_request_parts cr header now db = (Inr a, db1)"
    and "parse_farmer_identifier is_pk input = Inr (au_address a)"
  shows "authorised cr is_pk header now input db"
  using extracted_user [OF assms(2)] assms(3) session_has_challenge [OF assms(1)]
  by (auto simp: authorised_def)

text \<open>
  No profile changes without the key of its address. In every state of the authentication tables
  the program can reach, a registration or update request that changes the farmers table or the
  chain carries the bearer token of an unexpired session, addresses that session's own address,
  and a challenge for this address has been consumed. This holds for any chain backend and
  whatever fails on the way.
\<close>

theorem profile_changes_are_authorised:
  assumes "auth_reachable cr domain db"
  shows "(profile_changed (c, db) (snd (register_farmer_handler cr is_pk hash reg header now req (c, db)))
      \<longrightarrow> authorised cr is_pk header now (req_address req) db)
    \<and> (profile_changed (c, db) (snd (update_metadata_handler cr is_pk hash upd header now address m (c, db)))
      \<longrightarrow> authorised cr is_pk header now address db)"
proof (intro conjI impI)
  assume "profile_changed (c, db) (snd (register_farmer_handler cr is_pk hash reg header now req (c, db)))"
  then obtain a db1 where run: "from_request_parts cr header now db = (Inr a, db1)"
    and "snd (and_then (register_farmer is_pk hash reg req (au_address a)) (\<lambda>f. ok (201 :: nat, f)) (c, db1)) \<noteq> (c, db1)"
    unfolding register_farmer_handler_def by (rule changed_after_extraction)
  then have "snd (register_farmer is_pk hash reg req (au_address a) (c, db1)) \<noteq> (c, db1)"
    by (auto simp: and_then_apply split: prod.splits sum.splits)
  from extraction_authorises [OF assms run] register_owner [OF this]
  show "authorised cr is_pk header now (req_address req) db" by blast
next
  assume "profile_changed (c, db) (snd (update_metadata_handler cr is_pk hash upd header now address m (c, db)))"
  then obtain a db1 where run: "from_request_parts cr header now db = (Inr a, db1)"
    and "snd (update_metadata is_pk hash upd address m (au_address a) (c, db1)) \<noteq> (c, db1)"
    unfolding update_metadata_handler_def by (rule changed_after_extraction)
  from extraction_authorises [OF assms run] update_owner [OF this(2)]
  show "authorised cr is_pk header now address db" by blast
qed

text \<open>A farmer signs in and registers; the session expires at 102.\<close>

definition sample_signed_in :: pg where
  "sample_signed_in = snd (verify sample_crypto ''app'' (Inr 100) sample_verify_request ''t'' 1 2 sample_issued)"

theorem profile_changes_are_authorised_witness:
  "authorised sample_crypto (\<lambda>a. a = ''GA'') (Some ''Bearer t'') 50 ''GA'' sample_signed_in"
proof -
  have "auth_reachable sample_crypto ''app'' empty_pg" by (rule auth_reachable_start) (simp_all add: empty_pg_def)
  then have "auth_reachable sample_crypto ''app'' sample_issued"
    unfolding sample_issued_def by (rule auth_reachable_issued)
  then have reach: "auth_reachable sample_crypto ''app'' sample_signed_in"
    unfolding sample_signed_in_def by (rule auth_reachable_verified)
  let ?run = "register_farmer_handler sample_crypto (\<lambda>a. a = ''GA'') (\<lambda>m. ''hash'') stub_register
      (Some ''Bearer t'') 50 sample_request (stub_chain_new, sample_signed_in)"
  have "map fst (fst (snd ?run)) = [''GA'']" and "req_address sample_request = ''GA''" by code_simp+
  then have "profile_changed (stub_chain_new, sample_signed_in) (snd ?run)"
    by (auto simp: profile_changed_def stub_chain_new_def)
  with profile_changes_are_authorised [OF reach, of stub_chain_new "\<lambda>a. a = ''GA''" "\<lambda>m. ''hash''" stub_register
      "Some ''Bearer t''" 50 sample_request] \<open>req_address sample_request = ''GA''\<close>
  show ?thesis by simp
qed

section \<open>Configuration\<close>

text \<open>
  The contract list of the configuration: a list of names and contracts, written as
  \<open>name:contract\<close> and joined by commas, is read back as it was, provided that names and contracts
  are not empty, have no surrounding white space and no comma, names have no colon, and no contract
  is listed twice.
\<close>

theorem contracts_roundtrip:
  assumes "\<forall>(nm, cid) \<in> set entries. nm \<noteq> [] \<and> cid \<noteq> [] \<and> trim nm = nm \<and> trim cid = cid
      \<and> CHR '','' \<notin> set nm \<union> set cid \<and> CHR '':'' \<notin> set nm"
    and "distinct (map snd entries)"
  shows "parse_contracts (join_with '','' (map (\<lambda>(nm, cid). nm @ '':'' @ cid) entries))
    = map (\<lambda>(nm, cid). (cid, nm)) entries"
proof (cases "entries = []")
  case False
  let ?parts = "map (\<lambda>(nm, cid). nm @ '':'' @ cid) entries"
  have split: "split_on CHR '','' (join_with '','' ?parts) = ?parts"
    by (rule split_join) (use False assms(1) in auto)
  have "contract_pair (nm @ '':'' @ cid) = Some (cid, nm)" if "(nm, cid) \<in> set entries" for nm cid
    using assms(1) that by (auto simp: contract_pair_def split_once_append)
  then have "List.map_filter contract_pair ?parts = map (\<lambda>(nm, cid). (cid, nm)) entries"
    by (induction entries) (auto simp: List.map_filter_def)
  then have "parse_contracts (join_with '','' ?parts) =
      fold (\<lambda>(k, v). AList.update k v) (map (\<lambda>(nm, cid). (cid, nm)) entries) []"
    unfolding parse_contracts_def split by simp
  also have "\<dots> = map (\<lambda>(nm, cid). (cid, nm)) entries"
    using assms(2) fold_update_fresh [of "map (\<lambda>(nm, cid). (cid, nm)) entries" "[]"]
    by (simp add: comp_def case_prod_beta)
  finally show ?thesis .
qed (simp add: parse_contracts_def contract_pair_def List.map_filter_def)

theorem contracts_roundtrip_witness:
  "parse_contracts ''verification:CDEBUG,escrow:C2'' = [(''CDEBUG'', ''verification''), (''C2'', ''escrow'')]"
proof -
  have "trim ''verification'' = ''verification''" "trim ''CDEBUG'' = ''CDEBUG''" "trim ''escrow'' = ''escrow''"
    "trim ''C2'' = ''C2''" by code_simp+
  then show ?thesis
    using contracts_roundtrip [of "[(''verification'', ''CDEBUG''), (''escrow'', ''C2'')]"] by simp
qed

end
