(* ===== verification/Farmer_Invariants.thy ===== *)
theory Farmer_Invariants
  imports Farmer_Properties "HOL-Library.Multiset"
begin

text \<open>
  The invariant of the \<open>farmers\<close> table under everything that writes it, what the table looks like
  to the service when the indexer came first, the canonical form of the metadata, and the search.
\<close>

section \<open>The invariant\<close>

text \<open>
  A row's hash is the hash of its profile, or the indexer made the row and nobody has filled in
  the profile yet.
\<close>

definition farmers_inv :: "(farmer_metadata \<Rightarrow> string) \<Rightarrow> pg \<Rightarrow> bool" where
  "farmers_inv hash db \<longleftrightarrow> farmers_ok db
    \<and> (\<forall>r \<in> set (farmers db).
        fa_metadata r = JObj [] \<and> fa_metadata_hash r = []
        \<or> (\<exists>m. fa_metadata r = metadata_to_value m \<and> fa_metadata_hash r = hash m))"

lemma farmers_inv_blind: "fault_blind (farmers_inv hash)"
  by (simp add: fault_blind_def farmers_inv_def farmers_ok_def)

lemma farmers_inv_eq: "farmers db' = farmers db \<Longrightarrow> farmers_inv hash db' = farmers_inv hash db"
  by (simp add: farmers_inv_def farmers_ok_def)

text \<open>Adding a row with a new address, and changing rows without touching key and profile.\<close>

lemma farmers_inv_snoc:
  assumes "farmers_inv hash db" and "farmers db' = farmers db @ [new]"
    and "fa_address new \<notin> fa_address ` set (farmers db)" and "fa_id new = farmer_id (fa_address new)"
    and "fa_metadata new = JObj [] \<and> fa_metadata_hash new = []
      \<or> (\<exists>m. fa_metadata new = metadata_to_value m \<and> fa_metadata_hash new = hash m)"
  shows "farmers_inv hash db'"
  using assms by (auto simp: farmers_inv_def farmers_ok_def)

lemma farmers_inv_update:
  assumes "farmers_inv hash db" and "farmers db' = tbl_update fa_address a f (farmers db)"
    and keys: "\<And>r. fa_address (f r) = fa_address r" "\<And>r. fa_id (f r) = fa_id r"
    and profile: "(\<forall>r. fa_metadata (f r) = fa_metadata r \<and> fa_metadata_hash (f r) = fa_metadata_hash r)
      \<or> (\<exists>m. \<forall>r. fa_metadata (f r) = metadata_to_value m \<and> fa_metadata_hash (f r) = hash m)"
  shows "farmers_inv hash db'"
proof -
  have "tbl_ok fa_address (farmers db')"
    using assms(1) unfolding assms(2) farmers_inv_def farmers_ok_def
    by (intro tbl_ok_update) (simp_all add: keys)
  moreover have "fa_id r = farmer_id (fa_address r)
      \<and> (fa_metadata r = JObj [] \<and> fa_metadata_hash r = []
         \<or> (\<exists>m. fa_metadata r = metadata_to_value m \<and> fa_metadata_hash r = hash m))"
    if "r \<in> set (farmers db')" for r
  proof -
    from that obtain q where "q \<in> set (farmers db)" "r = q \<or> r = f q"
      unfolding assms(2) tbl_update_def by auto
    with assms(1) keys profile show ?thesis unfolding farmers_inv_def farmers_ok_def by metis
  qed
  ultimately show ?thesis by (auto simp: farmers_inv_def farmers_ok_def)
qed

lemma insert_farmer_row_cases:
  assumes "farmers_ok db" and "fa_id new = farmer_id (fa_address new)"
  shows "insert_farmer_row new merge (farmers db) = Inr (tbl_upsert fa_address new merge (farmers db))"
  using assms by (auto simp: insert_farmer_row_def farmers_ok_def)

lemma keeps_inv_registration: "keeps (farmers_inv hash) (insert_farmer a m (hash m) cf)"
  unfolding insert_farmer_def
proof (rule keeps_execute [OF farmers_inv_blind])
  fix db db'
  assume inv: "farmers_inv hash db" and "(case insert_farmer_strict
      (new_farmer_row (pg_now db) a m (hash m) cf) (farmers db) of
      Inl e \<Rightarrow> Inl e | Inr t \<Rightarrow> Inr (db\<lparr>farmers := t\<rparr>)) = Inr db'"
  then have "farmers db' = farmers db @ [new_farmer_row (pg_now db) a m (hash m) cf]"
    and "a \<notin> fa_address ` set (farmers db)"
    by (auto simp: insert_farmer_strict_def new_farmer_row_def split: if_splits)
  then show "farmers_inv hash db'"
    by (rule_tac farmers_inv_snoc [OF inv]) (auto simp: new_farmer_row_def)
qed

lemma keeps_inv_update_row: "keeps (farmers_inv hash) (update_farmer_row a m (hash m) cf)"
  unfolding update_farmer_row_def
  by (rule keeps_execute [OF farmers_inv_blind], erule farmers_inv_update
      [where a = a and f = "metadata_set m (hash m) cf"]) (auto simp: metadata_set_def)

lemma keeps_inv_identity:
  "keeps (farmers_inv hash) (upsert_identity_farmer e)"
  "keeps (farmers_inv hash) (update_identity_metadata e)"
  "keeps (farmers_inv hash) (append_identity_marker e)"
proof -
  have "keeps (farmers_inv hash) (execute (\<lambda>db.
      let new = identity_row (pg_now db) a e in
      case insert_farmer_row new (identity_conflict new) (farmers db) of
        Inl err \<Rightarrow> Inl err | Inr t \<Rightarrow> Inr (db\<lparr>farmers := t\<rparr>)))" for a
  proof (rule keeps_execute [OF farmers_inv_blind])
    fix db db' :: pg
    let ?new = "identity_row (pg_now db) a e"
    assume inv: "farmers_inv hash db" and run: "(let new = identity_row (pg_now db) a e in
      case insert_farmer_row new (identity_conflict new) (farmers db) of
        Inl err \<Rightarrow> Inl err | Inr t \<Rightarrow> Inr (db\<lparr>farmers := t\<rparr>)) = Inr db'"
    have "farmers_ok db" using inv by (simp add: farmers_inv_def)
    from insert_farmer_row_cases [OF this, of ?new "identity_conflict ?new"] run
    have t: "farmers db' = tbl_upsert fa_address ?new (identity_conflict ?new) (farmers db)"
      by (auto simp: Let_def identity_row_def)
    show "farmers_inv hash db'"
    proof (cases "a \<in> fa_address ` set (farmers db)")
      case True
      then have t': "farmers db' = tbl_update fa_address a (identity_conflict ?new) (farmers db)"
        by (simp add: t tbl_upsert_def)
      show ?thesis by (rule farmers_inv_update [OF inv t']) (simp_all add: identity_conflict_def)
    next
      case False
      then have t': "farmers db' = farmers db @ [?new]" by (simp add: t tbl_upsert_def)
      show ?thesis by (rule farmers_inv_snoc [OF inv t']) (use False in \<open>simp_all add: identity_row_def\<close>)
    qed
  qed
  then show "keeps (farmers_inv hash) (upsert_identity_farmer e)"
    by (auto simp: upsert_identity_farmer_def intro: keeps_fail split: option.split)
  have set: "keeps (farmers_inv hash) (execute (\<lambda>db. Inr (db\<lparr>farmers := tbl_update fa_address a f (farmers db)\<rparr>)))"
    if "\<And>r. fa_address (f r) = fa_address r" "\<And>r. fa_id (f r) = fa_id r"
      "\<And>r. fa_metadata (f r) = fa_metadata r" "\<And>r. fa_metadata_hash (f r) = fa_metadata_hash r" for a f
    by (rule keeps_execute [OF farmers_inv_blind], erule farmers_inv_update [where a = a and f = f])
      (use that in auto)
  show "keeps (farmers_inv hash) (update_identity_metadata e)"
    unfolding update_identity_metadata_def
    by (intro keeps_case_option keeps_fail set) (simp_all add: identity_metadata_set_def)
  show "keeps (farmers_inv hash) (append_identity_marker e)"
    unfolding append_identity_marker_def
    by (intro keeps_case_option keeps_fail set) (simp_all add: identity_marker_set_def)
qed

lemma keeps_inv_event: "keeps (farmers_inv hash) (apply_event uuid e)"
proof (cases "contract_name e = ''identity''")
  case True
  show ?thesis
    unfolding apply_event_identity [OF True]
    by (intro keeps_intros keeps_inv_identity)
next
  case False
  have "farmers (snd (apply_event uuid e db)) = farmers db" for db
    by (rule keepsD [OF apply_event_frame(4) [OF False] refl])
  from farmers_inv_eq [OF this] show ?thesis by (simp only: keeps_def simp_thms)
qed

lemma keeps_inv_ingest: "keeps (farmers_inv hash) (ingest text_of uuid pull head cid)"
  by (rule keeps_ingest_events [OF farmers_inv_blind keeps_inv_event])
    (simp_all add: farmers_inv_def farmers_ok_def)

text \<open>
  The invariant of the \<open>farmers\<close> table: addresses are unique, the id is the presentation form
  of the address, and the stored hash is the hash of the stored profile (or the row was made by
  the indexer and has neither). It holds of the empty database, and a registration, a metadata
  update, any event and any pass preserve it, also when they fail halfway.
\<close>

theorem farmers_invariant:
  "farmers_inv hash empty_pg
    \<and> (farmers_inv hash db \<longrightarrow>
        farmers_inv hash (snd (snd (register_farmer is_pk hash reg req actor (c, db))))
        \<and> farmers_inv hash (snd (snd (update_metadata is_pk hash upd input m actor (c, db))))
        \<and> farmers_inv hash (snd (apply_event uuid e db))
        \<and> farmers_inv hash (snd (ingest text_of uuid pull head cid db)))"
proof (intro conjI impI)
  show "farmers_inv hash empty_pg" by (simp add: farmers_inv_def farmers_ok_def empty_pg_def)
  assume inv: "farmers_inv hash db"
  have "keeps (\<lambda>s. farmers_inv hash (snd s)) (register_farmer is_pk hash reg req actor)"
    unfolding register_farmer_def Let_def
    by (auto intro!: keeps_intros keeps_on_backend keeps_on_pg keeps_inv_registration split: sum.split)
  from keepsD [OF this, of "(c, db)"] inv
  show "farmers_inv hash (snd (snd (register_farmer is_pk hash reg req actor (c, db))))" by simp
  have "keeps (\<lambda>s. farmers_inv hash (snd s)) (update_metadata is_pk hash upd input m actor)"
    unfolding update_metadata_def Let_def
    by (auto intro!: keeps_intros keeps_on_backend keeps_on_pg keeps_inv_update_row keeps_get_farmer
        farmers_inv_blind split: sum.split)
  from keepsD [OF this, of "(c, db)"] inv
  show "farmers_inv hash (snd (snd (update_metadata is_pk hash upd input m actor (c, db))))" by simp
  show "farmers_inv hash (snd (apply_event uuid e db))" by (rule keepsD [OF keeps_inv_event inv])
  show "farmers_inv hash (snd (ingest text_of uuid pull head cid db))"
    by (rule keepsD [OF keeps_inv_ingest inv])
qed

theorem farmers_invariant_witness:
  "farmers_inv (\<lambda>m. ''hash'') (snd (snd sample_registration))
    \<and> map fa_metadata_hash (farmers (snd (snd sample_registration))) = [''hash'']"
proof -
  have "map fa_metadata_hash (farmers (snd (snd sample_registration))) = [''hash'']" by code_simp
  moreover have "farmers_inv (\<lambda>m. ''hash'') (snd (snd sample_registration))"
    using farmers_invariant [of "\<lambda>m. ''hash''" empty_pg "\<lambda>a. a = ''GA''" stub_register sample_request "''GA''"
        stub_chain_new stub_update "[]" "req_metadata sample_request" "\<lambda>_. None" "hd sample_identity"
        "\<lambda>_. []" "sample_pull []" "Inr 0" "''C''"]
    by (simp add: sample_registration_def)
  ultimately show ?thesis by simp
qed

section \<open>Farmers the indexer knows first\<close>

text \<open>
  C40. A farmer whose registration the indexer has seen before the service stored a profile cannot
  be looked up: the row is there and found, but its empty profile does not decode, and the
  answer is an internal error (500) instead of the farmer or 404.
\<close>

theorem indexed_farmer_unreadable:
  assumes "named ''identity'' ''FarmerRegistered'' e" and "identity_topics e = Some a"
    and "farmers_ok db" and "budget db = None" and "a \<notin> fa_address ` set (farmers db)"
    and "parse_farmer_identifier is_pk input = Inr a"
  shows "\<exists>db'. apply_event uuid e db = (Inr True, db')
    \<and> a \<in> fa_address ` set (farmers db')
    \<and> get_farmer is_pk input db' = (Inl (InternalError ''metadata decode''), db')"
proof -
  let ?new = "identity_row (pg_now db) a e"
  let ?db = "db\<lparr>farmers := farmers db @ [?new]\<rparr>"
  have "insert_farmer_row ?new (identity_conflict ?new) (farmers db) = Inr (farmers db @ [?new])"
    using insert_farmer_row_cases [OF assms(3), of ?new] assms(5)
    by (simp add: identity_row_def tbl_upsert_def)
  then have "apply_event uuid e db = (Inr True, ?db)"
    using assms(1,2,4)
    by (simp add: apply_event_identity upsert_identity_farmer_def Let_def and_then_apply)
  moreover have "tbl_find fa_address (farmers ?db) a = Some ?new"
    using assms(5) by (simp add: tbl_find_snoc_new)
  moreover have "farmer_of_row ?new = Inl (InternalError ''metadata decode'')"
    by (simp add: farmer_of_row_def identity_row_def decode_metadata_def)
  ultimately show ?thesis
    using get_farmer_healthy [of ?db is_pk input a] assms(4,6) by simp
qed

theorem indexed_farmer_unreadable_witness:
  "\<exists>db'. apply_event (\<lambda>_. None) (hd sample_identity) empty_pg = (Inr True, db')
    \<and> get_farmer (\<lambda>a. a = ''GA'') ''GA'' db' = (Inl (InternalError ''metadata decode''), db')"
proof -
  have e: "named ''identity'' ''FarmerRegistered'' (hd sample_identity)"
    "identity_topics (hd sample_identity) = Some ''GA''"
    "parse_farmer_identifier (\<lambda>a. a = ''GA'') ''GA'' = Inr ''GA''"
    by code_simp+
  have "farmers_ok empty_pg" "budget empty_pg = None" "''GA'' \<notin> fa_address ` set (farmers empty_pg)"
    by (simp_all add: farmers_ok_def empty_pg_def)
  from indexed_farmer_unreadable [OF e(1,2) this e(3), of "\<lambda>_. None"] show ?thesis by blast
qed

section \<open>The canonical metadata\<close>

text \<open>
  C28. The canonical form that is hashed: its keys are in strictly increasing order, it is the
  very value stored in the metadata column, different profiles have different canonical forms,
  and the stored value decodes to the profile it was made from.
\<close>

theorem canonical_metadata:
  "bt_sorted (canonical_map m)
    \<and> metadata_to_value m = JObj (canonical_map m)
    \<and> (canonical_map m = canonical_map m' \<longleftrightarrow> m = m')
    \<and> metadata_from_value (metadata_to_value m) = Some m"
  by (intro conjI canonical_map_sorted canonical_is_stored canonical_map_inj metadata_roundtrip)

section \<open>Search\<close>

text \<open>
  What a farmer is found by (the texts of a profile that the search looks at), and what a list item
  shows of a row: an empty name for a row that only the indexer has made.
\<close>

definition found_by :: "(string \<Rightarrow> string \<Rightarrow> bool) \<Rightarrow> string \<Rightarrow> farmer_row \<Rightarrow> bool" where
  "found_by ilike s r \<longleftrightarrow> s = []
    \<or> (\<exists>m t. fa_metadata r = metadata_to_value m \<and> Some t \<in> {Some (name m), region m, district m}
        \<and> ilike t (''%'' @ s @ ''%''))"

definition shows_farmer :: "farmer_row \<Rightarrow> farmer_search_item \<Rightarrow> bool" where
  "shows_farmer r i \<longleftrightarrow> si_address i = fa_address r \<and> si_id i = fa_id r
    \<and> (fa_metadata r = JObj [] \<and> (si_name i, si_region i, si_district i) = ([], None, None)
       \<or> (\<exists>m. fa_metadata r = metadata_to_value m
            \<and> (si_name i, si_region i, si_district i) = (name m, region m, district m)))
    \<and> si_verification_count i =
        (case markers_from_value (fa_verification_markers r) of Some ms \<Rightarrow> int (length ms) | None \<Rightarrow> 0)"

lemma metadata_to_value_inj: "metadata_to_value m = metadata_to_value m' \<longleftrightarrow> m = m'"
  by (metis metadata_roundtrip option.inject)

lemma metadata_to_value_nonempty: "metadata_to_value m \<noteq> JObj []"
  by (metis metadata_from_empty metadata_roundtrip option.distinct(1))

lemma arrow_text_profile:
  "arrow_text as_text (metadata_to_value m) ''name'' = Some (name m)"
  "arrow_text as_text (metadata_to_value m) ''region'' = region m"
  "arrow_text as_text (metadata_to_value m) ''district'' = district m"
  by (simp_all add: arrow_text_def canonical_is_stored canonical_lookup split: option.split)

lemma found_by_profile:
  assumes "s \<noteq> []" and "fa_metadata r = metadata_to_value m"
  shows "found_by ilike s r \<longleftrightarrow> matches_pattern as_text ilike (''%'' @ s @ ''%'') r"
proof -
  have "found_by ilike s r \<longleftrightarrow> (\<exists>t. Some t \<in> {Some (name m), region m, district m} \<and> ilike t (''%'' @ s @ ''%''))"
    using assms by (simp add: found_by_def metadata_to_value_inj)
  also have "\<dots> \<longleftrightarrow> matches_pattern as_text ilike (''%'' @ s @ ''%'') r"
    unfolding matches_pattern_def assms(2)
    by (auto simp: arrow_text_profile split: option.splits)
  finally show ?thesis .
qed

lemma found_by_indexed:
  "s \<noteq> [] \<Longrightarrow> fa_metadata r = JObj [] \<Longrightarrow>
    found_by ilike s r \<longleftrightarrow> matches_pattern as_text ilike (''%'' @ s @ ''%'') r"
  by (simp add: found_by_def matches_pattern_def arrow_text_def metadata_to_value_nonempty [symmetric])

lemma matching_found_by:
  assumes "farmers_inv hash db"
  shows "matching_farmers as_text ilike s db = filter (found_by ilike s) (farmers db)"
proof (cases "s = []")
  case False
  have "found_by ilike s r = matches_pattern as_text ilike (''%'' @ s @ ''%'') r" if "r \<in> set (farmers db)" for r
    using assms that found_by_profile [OF False] found_by_indexed [OF False]
    unfolding farmers_inv_def by blast
  with False show ?thesis by (auto simp: matching_farmers_def intro!: filter_cong)
qed (simp add: matching_farmers_def found_by_def [abs_def])

lemma search_item_shows:
  assumes "farmers_inv hash db" and "r \<in> set (farmers db)"
  shows "shows_farmer r (search_item r)"
proof -
  have "fa_metadata r = JObj [] \<or> (\<exists>m. fa_metadata r = metadata_to_value m)"
    using assms unfolding farmers_inv_def by blast
  then show ?thesis
    by (auto simp: shows_farmer_def search_item_def Let_def metadata_roundtrip decode_metadata_def
        split: option.split)
qed

lemma shows_farmer_addresses: "list_all2 shows_farmer rows items \<Longrightarrow> map si_address items = map fa_address rows"
  by (induction rule: list_all2_induct) (simp_all add: shows_farmer_def)

lemma search_page:
  assumes "budget db = None" and "in_i64 ((max page 1 - 1) * clamp 1 100 page_size)"
  shows "search_farmers checks as_text ilike arrange q page page_size db =
    (let all = matching_farmers as_text ilike (case q of Some s \<Rightarrow> s | None \<Rightarrow> []) db;
         k = clamp 1 100 page_size; p = max page 1 in
     (Inr (map search_item (take (nat k) (drop (nat ((p - 1) * k)) (newest_first arrange all))),
        \<lparr> pg_page = p, pg_page_size = k, pg_total = int (length all),
          pg_total_pages = total_pages_of (int (length all)) k \<rparr>), db))"
proof -
  have k: "1 \<le> clamp 1 100 page_size" by (simp add: clamp_def)
  have "0 \<le> (max page 1 - 1) * clamp 1 100 page_size"
    by (rule mult_nonneg_nonneg) (use k in \<open>simp_all add: max_def\<close>)
  with k have "\<not> (clamp 1 100 page_size < 0 \<or> (max page 1 - 1) * clamp 1 100 page_size < 0)" by linarith
  with assms show ?thesis
    by (simp add: search_farmers_def Let_def and_then_apply page_offset_def i64_value_def select_healthy
        limit_offset_def)
qed

lemma search_pages:
  fixes checks as_text ilike q page_size
  assumes "budget db = None" and "length (farmers db) < 2 ^ 62" and arrange: "\<And>rows. mset (arrange rows) = mset rows"
  defines "found \<equiv> newest_first arrange (matching_farmers as_text ilike (case q of Some s \<Rightarrow> s | None \<Rightarrow> []) db)"
  shows "all_pages (\<lambda>p. search_farmers checks as_text ilike arrange q p page_size) db = map search_item found
    \<and> reported_total (search_farmers checks as_text ilike arrange q 1 page_size db) = int (length (map search_item found))"
proof (rule all_pages_exact [where k = "nat (clamp 1 100 page_size)"])
  have k: "1 \<le> clamp 1 100 page_size" "clamp 1 100 page_size \<le> 100" by (simp_all add: clamp_def)
  then show "0 < nat (clamp 1 100 page_size)" "nat (clamp 1 100 page_size) \<le> 100" by simp_all
  let ?all = "matching_farmers as_text ilike (case q of Some s \<Rightarrow> s | None \<Rightarrow> []) db"
  have "mset found = mset ?all" by (simp add: found_def newest_first_def arrange)
  then have len: "length found = length ?all" by (rule mset_eq_length)
  have "length ?all \<le> length (farmers db)" by (simp add: matching_farmers_def)
  then show "length (map search_item found) < 2 ^ 62" using assms(2) len by simp
  have size: "int (nat (clamp 1 100 page_size)) = clamp 1 100 page_size" using k by simp
  fix i assume "in_i64 (int i * int (nat (clamp 1 100 page_size)))"
  then have "in_i64 (int i * clamp 1 100 page_size)" by (simp only: size)
  then have fits: "in_i64 ((max (int i + 1) 1 - 1) * clamp 1 100 page_size)" by simp
  have "nat (int i * clamp 1 100 page_size) = i * nat (clamp 1 100 page_size)" by (simp add: nat_mult_distrib)
  then show "\<exists>p. fst (search_farmers checks as_text ilike arrange q (int i + 1) page_size db) =
        Inr (take (nat (clamp 1 100 page_size)) (drop (i * nat (clamp 1 100 page_size)) (map search_item found)), p)
      \<and> pg_total p = int (length (map search_item found))
      \<and> pg_total_pages p = total_pages_of (int (length (map search_item found))) (int (nat (clamp 1 100 page_size)))"
    using search_page [OF assms(1) fits, of checks as_text ilike arrange q] size len
    by (simp add: Let_def found_def take_map drop_map)
qed

text \<open>
  C31. The farmer search is complete, on a sound database with the farmers invariant and for any
  query and page size: the pages from 1 to the page count that the first response reports,
  concatenated, show exactly the farmers whose name, region or district contains the query (by the
  server's \<open>ILIKE\<close>; all farmers for an absent or empty query), each once, newest first, with the
  address, the id and the profile of the row and the number of its markers, and the total that is
  reported is their number. A farmer without a profile (made by the indexer) is found by the empty
  query only. The rows created at the same instant are read in one order for all pages.
\<close>

theorem search_complete:
  assumes "budget db = None" and "farmers_inv hash db" and "length (farmers db) < 2 ^ 62"
    and "\<And>rows. mset (arrange rows) = mset rows"
  shows "\<exists>rows. sorted_wrt (\<lambda>r r'. fa_created_at r' \<le> fa_created_at r) rows
    \<and> mset rows = filter_mset (found_by ilike (case q of Some s \<Rightarrow> s | None \<Rightarrow> [])) (mset (farmers db))
    \<and> list_all2 shows_farmer rows
        (all_pages (\<lambda>p. search_farmers checks as_text ilike arrange q p page_size) db)
    \<and> reported_total (search_farmers checks as_text ilike arrange q 1 page_size db) = int (length rows)"
proof (intro exI conjI)
  let ?rows = "newest_first arrange (matching_farmers as_text ilike (case q of Some s \<Rightarrow> s | None \<Rightarrow> []) db)"
  have "sorted (map (\<lambda>r. - fa_created_at r) ?rows)" by (simp add: newest_first_def)
  then show "sorted_wrt (\<lambda>r r'. fa_created_at r' \<le> fa_created_at r) ?rows" by (simp add: sorted_map)
  show mset: "mset ?rows = filter_mset (found_by ilike (case q of Some s \<Rightarrow> s | None \<Rightarrow> [])) (mset (farmers db))"
    by (simp add: newest_first_def assms(4) matching_found_by [OF assms(2)])
  note pages = search_pages [OF assms(1,3,4), where as_text = as_text and ilike = ilike and q = q and checks = checks
      and page_size = page_size]
  have "set ?rows \<subseteq> set (farmers db)"
    using arg_cong [OF mset, of set_mset] by auto
  then have "list_all2 shows_farmer ?rows (map search_item ?rows)"
    using search_item_shows [OF assms(2)] by (auto simp: list_all2_conv_all_nth dest: nth_mem)
  with pages show "list_all2 shows_farmer ?rows
      (all_pages (\<lambda>p. search_farmers checks as_text ilike arrange q p page_size) db)" by simp
  from pages show "reported_total (search_farmers checks as_text ilike arrange q 1 page_size db) =
      int (length ?rows)" by simp
qed

definition sample_ilike :: "string \<Rightarrow> string \<Rightarrow> bool" where
  "sample_ilike t p \<longleftrightarrow> p = ''%'' @ t @ ''%''"

text \<open>Three farmers, two of them of the same district, one of these the later and one from a page of its own.\<close>

definition sample_farmers :: pg where
  "sample_farmers =
    (let m = \<lparr> name = ''Ada'', region = None, district = Some ''Nyeri'', bio = None, profile_image_hash = None \<rparr>;
         row = (\<lambda>t a n d. new_farmer_row t a (m\<lparr>name := n, district := d\<rparr>) ''hash''
           \<lparr> cf_address = a, cf_created_ledger = 1, cf_updated_ledger = 1, cf_verification_markers = [] \<rparr>)
     in empty_pg\<lparr>farmers := [row 1 ''GA'' ''Ada'' (Some ''Nyeri''), row 2 ''GB'' ''Ben'' None,
                            row 3 ''GC'' ''Nyeri'' (Some ''Embu'')]\<rparr>)"

theorem search_complete_witness:
  "map si_address (all_pages (\<lambda>p. search_farmers True (\<lambda>_. []) sample_ilike (\<lambda>rows. rows) (Some ''Nyeri'') p 1)
      sample_farmers) = [''GC'', ''GA'']"
proof -
  let ?items = "all_pages (\<lambda>p. search_farmers True (\<lambda>_. []) sample_ilike (\<lambda>rows. rows) (Some ''Nyeri'') p 1)
      sample_farmers"
  have inv: "farmers_inv (\<lambda>m. ''hash'') sample_farmers"
    by (auto simp: farmers_inv_def farmers_ok_def sample_farmers_def Let_def new_farmer_row_def)
  have "budget sample_farmers = None" "length (farmers sample_farmers) < 2 ^ 62"
    by (simp_all add: sample_farmers_def empty_pg_def)
  from search_complete [OF this(1) inv this(2), of "\<lambda>rows. rows" sample_ilike "Some ''Nyeri''" True "\<lambda>_. []" 1]
  obtain rows where rows: "sorted_wrt (\<lambda>r r'. fa_created_at r' \<le> fa_created_at r) rows"
    "mset rows = mset (filter (found_by sample_ilike ''Nyeri'') (farmers sample_farmers))"
    and items: "list_all2 shows_farmer rows ?items" by auto
  have "filter (found_by sample_ilike ''Nyeri'') (farmers sample_farmers) =
      matching_farmers (\<lambda>_. []) sample_ilike ''Nyeri'' sample_farmers"
    by (rule matching_found_by [OF inv, symmetric])
  also have "\<dots> = [farmers sample_farmers ! 0, farmers sample_farmers ! 2]" by code_simp
  finally have two: "mset rows = {#farmers sample_farmers ! 0, farmers sample_farmers ! 2#}" using rows(2) by simp
  have at: "fa_created_at (farmers sample_farmers ! 0) = 1" "fa_created_at (farmers sample_farmers ! 2) = 3"
    "map fa_address [farmers sample_farmers ! 2, farmers sample_farmers ! 0] = [''GC'', ''GA'']"
    by code_simp+
  have "length rows = 2" using arg_cong [OF two, of size] by simp
  then obtain x y where xy: "rows = [x, y]" by (auto simp: numeral_2_eq_2 length_Suc_conv)
  with two have "x = farmers sample_farmers ! 0 \<and> y = farmers sample_farmers ! 2
      \<or> x = farmers sample_farmers ! 2 \<and> y = farmers sample_farmers ! 0"
    by (auto simp: add_eq_conv_ex)
  with rows(1) xy at(1,2) have "rows = [farmers sample_farmers ! 2, farmers sample_farmers ! 0]" by auto
  with at(3) have "map fa_address rows = [''GC'', ''GA'']" by simp
  moreover have "map si_address ?items = map fa_address rows" by (rule shows_farmer_addresses [OF items])
  ultimately show ?thesis by simp
qed

end
