(* ===== verification/Projection_Types.thy ===== *)
theory Projection_Types
  imports Samples
begin

text \<open>
  The types of the projection tables: every column of every row holds a value of its SQL type, the
  keys are canonical ids of \<open>u64\<close> counters and unique, and the status columns hold the documented
  words. Whatever payloads the contracts emit, and wherever a statement fails, this is preserved.
\<close>

section \<open>Well-typed rows\<close>

definition canonical_id :: "string \<Rightarrow> string \<Rightarrow> bool" where
  "canonical_id prefix row_id \<longleftrightarrow>
    (case parse_counter_id row_id prefix of
       None \<Rightarrow> False
     | Some n \<Rightarrow> row_id = counter_id prefix n)"

lemma canonical_id_iff: "canonical_id p i \<longleftrightarrow> (\<exists>n < u64_bound. i = counter_id p n)"
  by (auto simp: canonical_id_def parse_counter_id_counter dest: parse_counter_id_bound
      split: option.splits)

lemma canonical_counter [simp]: "n < u64_bound \<Longrightarrow> canonical_id p (counter_id p n)"
  by (auto simp: canonical_id_iff)

definition verification_typed :: "verification_row \<Rightarrow> bool" where
  "verification_typed r \<longleftrightarrow>
    canonical_id VERIFICATION_PREFIX (ver_id r)
    \<and> in_i64 (ver_issued_ledger r) \<and> pred_option in_i64 (ver_revoked_ledger r)
    \<and> (ver_revoked r \<longleftrightarrow> ver_revoked_ledger r \<noteq> None)"

definition escrow_typed :: "escrow_row \<Rightarrow> bool" where
  "escrow_typed r \<longleftrightarrow>
    canonical_id ESCROW_PREFIX (esc_id r)
    \<and> in_i64 (esc_amount r) \<and> in_i64 (esc_released_amount r) \<and> in_i32 (esc_condition_kind r)
    \<and> pred_option in_i64 (esc_condition_timeout_ledger r)
    \<and> in_i64 (esc_created_ledger r) \<and> in_i64 (esc_updated_ledger r)
    \<and> esc_status r \<in> {''open'', ''released'', ''refunded''}"

definition financing_typed :: "financing_row \<Rightarrow> bool" where
  "financing_typed r \<longleftrightarrow>
    canonical_id FINANCING_PREFIX (fin_id r)
    \<and> in_i64 (fin_total_amount r) \<and> in_i64 (fin_drawn_amount r) \<and> in_i32 (fin_milestone_count r)
    \<and> pred_option in_i64 (fin_drawn_ledger r) \<and> in_i64 (fin_repaid_amount r)
    \<and> pred_option in_i64 (fin_defaulted_ledger r) \<and> pred_option in_i64 (fin_updated_ledger r)
    \<and> fin_status r \<in> {''active'', ''defaulted'', ''refunded''}"

definition table_typed :: "('r \<Rightarrow> string) \<Rightarrow> ('r \<Rightarrow> bool) \<Rightarrow> 'r list \<Rightarrow> bool" where
  "table_typed key P t \<longleftrightarrow> tbl_ok key t \<and> (\<forall>r \<in> set t. P r)"

definition projections_typed :: "pg \<Rightarrow> bool" where
  "projections_typed db \<longleftrightarrow>
    table_typed ver_id verification_typed (verification_projection db)
    \<and> table_typed esc_id escrow_typed (escrow_projection db)
    \<and> table_typed fin_id financing_typed (financing_projection db)"

lemmas typed_defs = verification_typed_def escrow_typed_def financing_typed_def

lemma projections_typed_blind: "fault_blind projections_typed"
  by (simp add: fault_blind_def projections_typed_def)

section \<open>Table operations on typed rows\<close>

lemma table_typed_Nil [simp]: "table_typed key P []"
  by (simp add: table_typed_def)

lemma table_typed_upsert:
  assumes "table_typed key P t" and "P new" and "\<And>r. P r \<Longrightarrow> P (merge r)" and "\<And>r. key (merge r) = key r"
  shows "table_typed key P (tbl_upsert key new merge t)"
  using assms(1-3) tbl_ok_upsert [of key new merge t] assms(4)
  by (auto simp: table_typed_def tbl_upsert_def tbl_update_def split: if_splits)

lemma table_typed_update:
  assumes "table_typed key P t" and "\<And>r. P r \<Longrightarrow> P (f r)" and "\<And>r. key (f r) = key r"
  shows "table_typed key P (tbl_update key k f t)"
  using assms(1,2) tbl_ok_update [of key k f t] assms(3)
  by (auto simp: table_typed_def tbl_update_def split: if_splits)

lemma tbl_all_try_update:
  assumes "\<And>r r'. P r \<Longrightarrow> f r = Inr r' \<Longrightarrow> P r'"
  shows "\<forall>r \<in> set t. P r \<Longrightarrow> tbl_try_update key k f t = Inr t' \<Longrightarrow> \<forall>r \<in> set t'. P r"
proof (induction t arbitrary: t')
  case (Cons r rs)
  then obtain r' rs' where r': "(if key r = k then f r else Inr r) = Inr r'"
    and rs': "tbl_try_update key k f rs = Inr rs'" and t': "t' = r' # rs'"
    unfolding tbl_try_update_Cons_Inr by blast
  from r' Cons.prems(1) have "P r'" by (auto dest: assms split: if_splits)
  with Cons.IH [OF _ rs'] Cons.prems(1) show ?case by (simp add: t')
qed simp

lemma table_typed_try_update:
  assumes "table_typed key P t" and "tbl_try_update key k f t = Inr t'"
    and rows: "\<And>r r'. P r \<Longrightarrow> f r = Inr r' \<Longrightarrow> P r'" and keys: "\<And>r r'. f r = Inr r' \<Longrightarrow> key r' = key r"
  shows "table_typed key P t'"
proof -
  have "map key t' = map key t"
    by (rule tbl_try_update_keys [OF _ assms(2)]) (auto dest: keys)
  moreover have "\<forall>r \<in> set t'. P r"
    by (rule tbl_all_try_update [OF rows _ assms(2)]) (use assms(1) in \<open>auto simp: table_typed_def\<close>)
  ultimately show ?thesis using assms(1) by (simp add: table_typed_def)
qed

section \<open>The decoders and the row functions\<close>

lemmas payload_ranges = get_u64_bound get_i64_range get_i32_range

lemma pred_option_get [simp]: "pred_option in_i64 (get_i64 d i)"
  by (cases "get_i64 d i") (auto dest: get_i64_range)

lemma new_rows_typed:
  "decode_verification_created ev = Some v \<Longrightarrow> verification_typed (new_verification_row uuid cid v)"
  "decode_escrow_created ev = Some e \<Longrightarrow> escrow_typed (new_escrow_row uuid cid e)"
  "decode_financing_created ev = Some f \<Longrightarrow> financing_typed (new_financing_row cid f)"
  by (auto simp: Let_def decoder_defs typed_defs new_verification_row_def new_escrow_row_def
      new_financing_row_def in_i64_def [of 0] Option.bind_eq_Some_conv dest: payload_ranges)

lemma conflict_rows_typed:
  "verification_typed x \<Longrightarrow> verification_typed r \<Longrightarrow> verification_typed (verification_conflict x r)"
  "escrow_typed y \<Longrightarrow> escrow_typed s \<Longrightarrow> escrow_typed (escrow_conflict y s)"
  "financing_typed z \<Longrightarrow> financing_typed u \<Longrightarrow> financing_typed (financing_conflict z u)"
  by (simp_all add: typed_defs verification_conflict_def escrow_conflict_def financing_conflict_def)

lemma bigint_Inr: "bigint x = Inr y \<longleftrightarrow> in_i64 x \<and> y = x"
  by (auto simp: bigint_def)

lemma set_rows_typed:
  "decode_verification_revoked ev = Some v \<Longrightarrow> verification_typed r \<Longrightarrow> verification_typed (revoke_set v r)"
  "decode_escrow_deposited ev = Some d \<Longrightarrow> escrow_typed s \<Longrightarrow> escrow_deposit_set d s = Inr s' \<Longrightarrow> escrow_typed s'"
  "decode_escrow_released ev = Some e \<Longrightarrow> escrow_typed s \<Longrightarrow> escrow_release_set e s = Inr s' \<Longrightarrow> escrow_typed s'"
  "decode_escrow_refunded ev = Some f \<Longrightarrow> escrow_typed s \<Longrightarrow> escrow_refund_set f s = Inr s' \<Longrightarrow> escrow_typed s'"
  by (auto simp: Let_def decoder_defs typed_defs revoke_set_def escrow_deposit_set_def escrow_release_set_def
      escrow_refund_set_def bigint_Inr Option.bind_eq_Some_conv dest: payload_ranges split: sum.splits if_splits)

lemma max_zero_i64: "in_i64 x \<Longrightarrow> in_i64 (max x 0)"
  by (simp add: in_i64_def)

lemma financing_sets_typed:
  "decode_financing_deposited ev = Some d \<Longrightarrow> financing_typed r \<Longrightarrow> financing_deposit_set d r = Inr r' \<Longrightarrow>
    financing_typed r'"
  "decode_financing_released ev = Some e \<Longrightarrow> financing_typed r \<Longrightarrow> financing_release_set e r = Inr r' \<Longrightarrow>
    financing_typed r'"
  "decode_financing_refunded ev = Some f \<Longrightarrow> financing_typed r \<Longrightarrow> financing_refund_set f r = Inr r' \<Longrightarrow>
    financing_typed r'"
  by (auto simp: Let_def decoder_defs typed_defs financing_deposit_set_def financing_release_set_def
      financing_refund_set_def bigint_Inr max_zero_i64 Option.bind_eq_Some_conv
      dest: payload_ranges split: sum.splits option.splits if_splits)

text \<open>No row function touches the key.\<close>

lemma set_rows_keys:
  "escrow_deposit_set d s = Inr s' \<Longrightarrow> esc_id s' = esc_id s"
  "escrow_release_set e s = Inr s' \<Longrightarrow> esc_id s' = esc_id s"
  "escrow_refund_set f s = Inr s' \<Longrightarrow> esc_id s' = esc_id s"
  "financing_deposit_set fd r = Inr r' \<Longrightarrow> fin_id r' = fin_id r"
  "financing_release_set fe r = Inr r' \<Longrightarrow> fin_id r' = fin_id r"
  "financing_refund_set ff r = Inr r' \<Longrightarrow> fin_id r' = fin_id r"
  by (auto simp: escrow_deposit_set_def escrow_release_set_def escrow_refund_set_def
      financing_deposit_set_def financing_release_set_def financing_refund_set_def split: sum.splits)

section \<open>Preservation\<close>

lemma keeps_typed_table:
  "(\<And>t. table_typed ver_id verification_typed t \<Longrightarrow> table_typed ver_id verification_typed (f t)) \<Longrightarrow>
    keeps projections_typed (execute (\<lambda>db. Inr (db\<lparr>verification_projection := f (verification_projection db)\<rparr>)))"
  "(\<And>t. table_typed esc_id escrow_typed t \<Longrightarrow> table_typed esc_id escrow_typed (g t)) \<Longrightarrow>
    keeps projections_typed (execute (\<lambda>db. Inr (db\<lparr>escrow_projection := g (escrow_projection db)\<rparr>)))"
  "(\<And>t. table_typed fin_id financing_typed t \<Longrightarrow> table_typed fin_id financing_typed (h t)) \<Longrightarrow>
    keeps projections_typed (execute (\<lambda>db. Inr (db\<lparr>financing_projection := h (financing_projection db)\<rparr>)))"
  by (auto intro!: keeps_execute projections_typed_blind simp: projections_typed_def)

lemma keeps_typed_try_update:
  "(\<And>r r'. escrow_typed r \<Longrightarrow> g r = Inr r' \<Longrightarrow> escrow_typed r') \<Longrightarrow>
    (\<And>r r'. g r = Inr r' \<Longrightarrow> esc_id r' = esc_id r) \<Longrightarrow> keeps projections_typed (update_escrow k g)"
  "(\<And>r r'. financing_typed r \<Longrightarrow> h r = Inr r' \<Longrightarrow> financing_typed r') \<Longrightarrow>
    (\<And>r r'. h r = Inr r' \<Longrightarrow> fin_id r' = fin_id r) \<Longrightarrow> keeps projections_typed (update_financing k h)"
  unfolding update_escrow_def update_financing_def
  by (auto intro!: keeps_execute projections_typed_blind simp: projections_typed_def split: sum.splits)
    (erule (1) table_typed_try_update; blast)+

lemma keeps_typed_upsert:
  "decode_verification_created ev = Some v \<Longrightarrow> keeps projections_typed (upsert_verification uuid cid v)"
  "decode_escrow_created ev = Some e \<Longrightarrow> keeps projections_typed (upsert_escrow uuid cid e)"
  "decode_financing_created ev = Some f \<Longrightarrow> keeps projections_typed (upsert_financing cid f)"
  unfolding upsert_verification_def upsert_escrow_def upsert_financing_def Let_def
  by (auto dest!: new_rows_typed intro!: keeps_typed_table table_typed_upsert conflict_rows_typed
      simp: verification_conflict_def escrow_conflict_def financing_conflict_def)

lemma keeps_typed_revoke:
  "decode_verification_revoked ev = Some v \<Longrightarrow> keeps projections_typed (revoke_verification v)"
  unfolding revoke_verification_def Let_def
  by (auto intro!: keeps_typed_table table_typed_update set_rows_typed)

lemma keeps_typed_set:
  "decode_escrow_deposited ev = Some d \<Longrightarrow> keeps projections_typed (add_escrow_deposit d)"
  "decode_escrow_released ev = Some e \<Longrightarrow> keeps projections_typed (release_escrow e)"
  "decode_escrow_refunded ev = Some f \<Longrightarrow> keeps projections_typed (refund_escrow f)"
  "decode_financing_deposited ev = Some fd \<Longrightarrow> keeps projections_typed (add_financing_deposit fd)"
  "decode_financing_released ev = Some fe \<Longrightarrow> keeps projections_typed (release_financing fe)"
  "decode_financing_refunded ev = Some ff \<Longrightarrow> keeps projections_typed (refund_financing ff)"
  unfolding add_escrow_deposit_def release_escrow_def refund_escrow_def add_financing_deposit_def
    release_financing_def refund_financing_def Let_def
  by (auto intro!: keeps_typed_try_update dest: set_rows_typed financing_sets_typed set_rows_keys)

lemma keeps_typed_identity:
  "keeps projections_typed (upsert_identity_farmer ev)"
  "keeps projections_typed (update_identity_metadata ev)"
  "keeps projections_typed (append_identity_marker ev)"
  unfolding upsert_identity_farmer_def update_identity_metadata_def append_identity_marker_def Let_def
  by (intro keeps_intros; auto simp: projections_typed_blind projections_typed_def split: sum.splits)+

lemma keeps_typed_event: "keeps projections_typed (apply_event uuid ev)"
  unfolding apply_event_def Let_def consume_def
  by (intro keeps_and_then keeps_if keeps_case_option keeps_ok keeps_fail keeps_typed_identity;
      erule keeps_typed_upsert keeps_typed_revoke keeps_typed_set)

lemma keeps_typed_ingest: "keeps projections_typed (ingest text_of uuid pull head cid)"
  by (rule keeps_ingest_events [OF projections_typed_blind keeps_typed_event])
    (simp_all add: projections_typed_def)

lemma keeps_typed_rewind: "keeps projections_typed (rewind cid from_ledger)"
  unfolding rewind_def
  by (intro keeps_and_then keeps_execute projections_typed_blind) (auto simp: projections_typed_def)

text \<open>
  C27. The type invariant of the projection tables. Ids are unique and each is the canonical id of a
  \<open>u64\<close> counter under its table's prefix; amounts, totals and ledgers are \<open>BIGINT\<close>s, the condition
  kind and the milestone count \<open>INT\<close>s (also when the payload holds a larger number, and when sums
  overflow); a verification is revoked exactly when it has a revocation ledger; the status columns
  hold only open, released and refunded, or active, defaulted and refunded. The empty database
  satisfies it; every event, pass, polling round and rewind preserves it, whatever the payloads are
  and wherever the connection is lost.
\<close>

theorem projections_well_typed:
  "projections_typed empty_pg
    \<and> (projections_typed db \<longrightarrow>
        projections_typed (snd (apply_event uuid e db))
        \<and> projections_typed (snd (ingest text_of uuid pull head cid db))
        \<and> projections_typed (indexer_round text_of uuid passes db)
        \<and> projections_typed (snd (rewind cid from_ledger db)))"
proof (intro conjI impI)
  show "projections_typed empty_pg" by (simp add: projections_typed_def empty_pg_def)
  assume typed: "projections_typed db"
  show "projections_typed (snd (apply_event uuid e db))" by (rule keepsD [OF keeps_typed_event typed])
  show "projections_typed (snd (ingest text_of uuid pull head cid db))"
    by (rule keepsD [OF keeps_typed_ingest typed])
  show "projections_typed (snd (rewind cid from_ledger db))"
    by (rule keepsD [OF keeps_typed_rewind typed])
  show "projections_typed (indexer_round text_of uuid passes db)"
    using typed
    by (induction text_of uuid passes db rule: indexer_round.induct)
      (simp_all add: keepsD [OF keeps_typed_ingest])
qed

text \<open>
  The largest deposit on top of a created escrow: the sum does not fit, the pass fails, and the
  row that is kept is well typed.
\<close>

definition sample_overflow :: "chain_event list" where
  "sample_overflow =
    [sample_event ''escrow'' ''EscrowCreated'' 5
       [JInt 1, JStr ''d'', JStr ''b'', JInt (2 ^ 63 - 1), JInt 4294967297, JNull, JNull, JStr ''k'', JInt 5, JInt 5],
     sample_event ''escrow'' ''EscrowDeposited'' 6 [JInt 1, JStr ''d'', JInt 1, JInt 6]]"

theorem projections_well_typed_witness:
  "let db = snd (sample_pass sample_overflow 20 empty_pg) in
     projections_typed db
     \<and> map (\<lambda>r. (esc_amount r, esc_condition_kind r)) (escrow_projection db) = [(2 ^ 63 - 1, 1)]"
proof -
  let ?db = "snd (sample_pass sample_overflow 20 empty_pg)"
  have "map (\<lambda>r. (esc_amount r, esc_condition_kind r)) (escrow_projection ?db) = [(2 ^ 63 - 1, 1)]"
    by code_simp
  moreover have "projections_typed ?db"
    using projections_well_typed [of empty_pg] unfolding sample_pass_def by blast
  ultimately show ?thesis by (simp add: Let_def)
qed

end
