(* ===== verification/Query_Properties.thy ===== *)
theory Query_Properties
  imports Routes_Projections Projection_Types
begin

text \<open>
  The properties of identifiers and of the read-only endpoints over the projections.
\<close>

section \<open>Identifiers\<close>

text \<open>
  Identifiers of contract-issued counters: rendering is injective for each prefix, parsing
  inverts it on every \<open>u64\<close>, and what parses back is a \<open>u64\<close>; below \<open>10 ^ 12\<close> the number takes
  twelve digits.
\<close>

theorem counter_id_roundtrip:
  "(n < u64_bound \<longrightarrow> parse_counter_id (counter_id p n) p = Some n)
    \<and> (counter_id p m = counter_id p n \<longrightarrow> m = n)
    \<and> (n < 10 ^ 12 \<longrightarrow> length (counter_id p n) = length p + 13)
    \<and> (parse_counter_id s p = Some k \<longrightarrow> k < u64_bound)"
  using zero_padded_length [of n 12]
  by (auto simp: parse_counter_id_counter parse_counter_id_bound) (simp add: counter_id_def)

theorem counter_id_roundtrip_witness:
  "parse_counter_id (counter_id ''va:escrow'' 42) ''va:escrow'' = Some 42
    \<and> length (counter_id ''va:escrow'' 42) = 22"
  using counter_id_roundtrip [of 42 "''va:escrow''" 42 "[]" 0] by (simp add: u64_bound_def)

text \<open>
  \<open>parse_counter_id\<close> accepts nothing without the prefix: the bare form its comment names is
  rejected, for every prefix and every counter.
\<close>

theorem parse_counter_id_needs_prefix:
  "parse_counter_id (zero_padded 12 n) (CHR ''v'' # p) = None"
proof -
  obtain c cs where c: "zero_padded 12 n = c # cs" by (rule zero_padded_cases)
  then have "c \<in> set (zero_padded 12 n)" by simp
  then obtain d where "d < 10" "c = digit_char d"
    using decimal_digits unfolding zero_padded_def by force
  moreover have "char_digit (CHR ''v'') = None" by (simp add: char_digit_def)
  ultimately have "c \<noteq> CHR ''v''" by (metis char_digit_char option.distinct(1))
  then show ?thesis by (simp add: parse_counter_id_def c)
qed

section \<open>Lookup by id\<close>

text \<open>
  What an identifier in a path stands for: the counter of a canonical id or of a bare number. A
  prefixed number that is not padded as the rows are is accepted, but stands for no row.
\<close>

definition id_counter :: "string \<Rightarrow> string \<Rightarrow> nat option" where
  "id_counter prefix raw =
    (if canonical_id prefix raw then parse_counter_id raw prefix else parse_u64 raw)"

definition lookup_answer ::
  "string \<Rightarrow> string \<Rightarrow> (string \<Rightarrow> 'r option) \<Rightarrow> string \<Rightarrow> failure + 'r" where
  "lookup_answer prefix kind view raw =
    (case id_counter prefix raw of
       Some n \<Rightarrow>
        (case view (counter_id prefix n) of
           Some r \<Rightarrow> Inr r
         | None \<Rightarrow> Inl (Failed (NotFound (kind @ '' '' @ raw @ '' not found''))))
     | None \<Rightarrow>
        if parse_counter_id raw prefix \<noteq> None
        then Inl (Failed (NotFound (kind @ '' '' @ raw @ '' not found'')))
        else Inl (Failed (BadRequest (''invalid '' @ kind @ '' id: '' @ raw))))"

lemma get_by_id_answer:
  assumes "budget db = None" and p: "p = CHR ''v'' # q"
    and ids: "\<forall>r \<in> set (t db). canonical_id p (key r)"
  shows "get_by_id (normalize_counter_id p kind) kind (\<lambda>db. tbl_find key (t db)) raw db =
    (lookup_answer p kind (tbl_find key (t db)) raw, db)"
proof (cases "strip_prefix (p @ '':'') raw")
  case None
  then have "\<not> canonical_id p raw" "parse_counter_id raw p = None"
    by (simp_all add: canonical_id_def parse_counter_id_def)
  with None assms(1) show ?thesis
    by (cases "parse_u64 raw")
      (simp_all add: lookup_answer_def id_counter_def get_by_id_invalid get_by_id_healthy
        normalize_counter_id_def split: option.split)
next
  case (Some s)
  then have parse: "parse_counter_id raw p = parse_u64 s" by (simp add: parse_counter_id_def)
  have bare: "parse_u64 raw = None"
    using bare_not_prefixed [OF _ p, of raw] Some by (cases "parse_u64 raw") auto
  have missing: "tbl_find key (t db) raw = None" if "\<not> canonical_id p raw"
    using that ids by (auto simp: tbl_find_None)
  have canon: "raw = counter_id p n" if "canonical_id p raw" "parse_u64 s = Some n" for n
    using that by (simp add: canonical_id_def parse)
  show ?thesis
  proof (cases "parse_u64 s")
    case None
    with Some bare parse show ?thesis
      by (simp add: lookup_answer_def id_counter_def canonical_id_def get_by_id_invalid
          normalize_counter_id_def)
  next
    case (Some n)
    with \<open>strip_prefix (p @ '':'') raw = Some s\<close>
    have norm_raw: "normalize_counter_id p kind raw = Inr raw" by (simp add: normalize_counter_id_def)
    have "get_by_id (normalize_counter_id p kind) kind (\<lambda>db. tbl_find key (t db)) raw db =
        ((case tbl_find key (t db) raw of
            None \<Rightarrow> Inl (Failed (NotFound (kind @ '' '' @ raw @ '' not found'')))
          | Some r \<Rightarrow> Inr r), db)"
      by (rule get_by_id_healthy [where norm_id = "normalize_counter_id p kind", OF assms(1) norm_raw])
    with bare parse Some missing canon show ?thesis
      by (cases "canonical_id p raw") (auto simp: lookup_answer_def id_counter_def split: option.split)
  qed
qed

text \<open>
  C32. Lookup by id at the three endpoints, for every path segment and any well-typed tables: a
  canonical id and every bare number stand for their counter, and the row of that counter is the
  answer, or 404; a prefixed number that is not padded to twelve digits passes the validation but
  is looked up as written, so the answer is 404 even when its row exists; everything else is
  refused with 400. No table changes.
\<close>

theorem lookups_exact:
  assumes "budget db = None" and "projections_typed db"
  shows "get_verification_handler raw db =
      (lookup_answer ''va:verification'' ''verification'' (verification_view db) raw, db)
    \<and> get_escrow_handler raw db = (lookup_answer ''va:escrow'' ''escrow'' (escrow_view db) raw, db)
    \<and> get_financing_handler raw db =
      (lookup_answer ''va:financing'' ''financing'' (financing_view db) raw, db)"
proof -
  have views: "verification_view db = tbl_find ver_id (verification_projection db)"
    "escrow_view db = tbl_find esc_id (escrow_projection db)"
    "financing_view db = tbl_find fin_id (financing_projection db)"
    by (simp_all add: fun_eq_iff verification_view_def escrow_view_def financing_view_def)
  have norms: "normalize_verification_id = normalize_counter_id ''va:verification'' ''verification''"
    "normalize_escrow_id = normalize_counter_id ''va:escrow'' ''escrow''"
    "normalize_financing_id = normalize_counter_id ''va:financing'' ''financing''"
    by (simp_all add: fun_eq_iff normalize_verification_id_def normalize_escrow_id_def
        normalize_financing_id_def)
  show ?thesis
    unfolding get_verification_handler_def get_escrow_handler_def get_financing_handler_def views norms
    using assms(2)
    by (intro conjI get_by_id_answer [OF assms(1) refl])
      (auto simp: projections_typed_def table_typed_def typed_defs VERIFICATION_PREFIX_def ESCROW_PREFIX_def
        FINANCING_PREFIX_def)
qed

theorem lookups_exact_witness:
  "let db = snd (sample_pass sample_verification 20 empty_pg) in
     (\<exists>r. get_verification_handler ''1'' db = (Inr r, db) \<and> ver_revoked_ledger r = Some 6)
     \<and> (\<exists>msg. get_verification_handler ''va:verification:1'' db = (Inl (Failed (NotFound msg)), db))
     \<and> (\<exists>msg. get_escrow_handler ''x'' db = (Inl (Failed (BadRequest msg)), db))"
proof -
  let ?db = "snd (sample_pass sample_verification 20 empty_pg)"
  have budget: "budget ?db = None" by code_simp
  have typed: "projections_typed ?db"
    unfolding sample_pass_def
    by (rule keepsD [OF keeps_typed_ingest]) (simp add: projections_typed_def empty_pg_def)
  have found: "map_sum (\<lambda>_. ()) ver_revoked_ledger
      (lookup_answer ''va:verification'' ''verification'' (verification_view ?db) ''1'') = Inr (Some 6)"
    and unpadded: "lookup_answer ''va:verification'' ''verification'' (verification_view ?db)
      ''va:verification:1'' = Inl (Failed (NotFound ''verification va:verification:1 not found''))"
    and refused: "lookup_answer ''va:escrow'' ''escrow'' (escrow_view ?db) ''x'' =
      Inl (Failed (BadRequest ''invalid escrow id: x''))"
    by code_simp+
  from found obtain r where "lookup_answer ''va:verification'' ''verification'' (verification_view ?db) ''1'' =
      Inr r" "ver_revoked_ledger r = Some 6"
    by (cases "lookup_answer ''va:verification'' ''verification'' (verification_view ?db) ''1''") auto
  moreover note answers = lookups_exact [OF budget typed]
  have "get_verification_handler ''va:verification:1'' ?db =
      (Inl (Failed (NotFound ''verification va:verification:1 not found'')), ?db)"
    "get_escrow_handler ''x'' ?db = (Inl (Failed (BadRequest ''invalid escrow id: x'')), ?db)"
    by (simp_all only: answers unpadded refused)
  moreover have "get_verification_handler ''1'' ?db =
      (lookup_answer ''va:verification'' ''verification'' (verification_view ?db) ''1'', ?db)"
    using answers by blast
  ultimately show ?thesis unfolding Let_def by (metis (no_types, lifting))
qed

section \<open>Lists\<close>

lemma matching_length:
  "length (matching_verifications vq db) \<le> length (verification_projection db)"
  "length (matching_escrows eq db) \<le> length (escrow_projection db)"
  "length (matching_financings fq db) \<le> length (financing_projection db)"
  by (simp_all add: matching_verifications_def matching_escrows_def matching_financings_def)

lemma matching_page [simp]:
  "matching_verifications (vq\<lparr>vq_page := p\<rparr>) = matching_verifications vq"
  "matching_escrows (eq\<lparr>eq_page := p\<rparr>) = matching_escrows eq"
  "matching_financings (fq\<lparr>fq_page := p\<rparr>) = matching_financings fq"
  by (simp_all add: fun_eq_iff matching_verifications_def matching_escrows_def matching_financings_def)

text \<open>
  C33. Paging is complete at the three list endpoints, on a sound database whose tables have fewer
  than \<open>2 ^ 62\<close> rows: the pages from 1 to the page count that the first response reports, concatenated, are all matching rows, in the order of
  the endpoint and each once, whatever page size is asked for, and the total that it reports is
  their number; the offset of no such page overflows.
\<close>

theorem pages_complete:
  assumes "budget db = None"
    and "length (verification_projection db) < 2 ^ 62" and "length (escrow_projection db) < 2 ^ 62"
    and "length (financing_projection db) < 2 ^ 62"
  shows "all_pages (\<lambda>p. list_verifications_handler checks (vq\<lparr>vq_page := p\<rparr>)) db = matching_verifications vq db
    \<and> reported_total (list_verifications_handler checks (vq\<lparr>vq_page := 1\<rparr>) db) =
        int (length (matching_verifications vq db))
    \<and> all_pages (\<lambda>p. list_escrows_handler checks (eq\<lparr>eq_page := p\<rparr>)) db = matching_escrows eq db
    \<and> reported_total (list_escrows_handler checks (eq\<lparr>eq_page := 1\<rparr>) db) = int (length (matching_escrows eq db))
    \<and> all_pages (\<lambda>p. list_financings_handler checks (fq\<lparr>fq_page := p\<rparr>)) db = matching_financings fq db
    \<and> reported_total (list_financings_handler checks (fq\<lparr>fq_page := 1\<rparr>) db) =
        int (length (matching_financings fq db))"
  using matching_length(1) [of vq db] matching_length(2) [of eq db] matching_length(3) [of fq db] assms
  by (simp add: list_verifications_handler_def list_escrows_handler_def list_financings_handler_def
      list_pages_complete)

theorem pages_complete_witness:
  "let db = snd (sample_pass sample_verification 20 empty_pg);
       q = \<lparr> vq_batch_id = None, vq_subject = Some ''s'', vq_issuer = None, vq_revoked = Some True,
             vq_page = 1, vq_page_size = 1000 \<rparr> in
     all_pages (\<lambda>p. list_verifications_handler True (q\<lparr>vq_page := p\<rparr>)) db = matching_verifications q db
     \<and> reported_total (list_verifications_handler True (q\<lparr>vq_page := 1\<rparr>) db) = 1"
proof -
  let ?db = "snd (sample_pass sample_verification 20 empty_pg)"
  let ?q = "\<lparr> vq_batch_id = None, vq_subject = Some ''s'', vq_issuer = None, vq_revoked = Some True,
             vq_page = 1, vq_page_size = 1000 \<rparr>"
  have "budget ?db = None" and len: "length (matching_verifications ?q ?db) = 1"
    and "length (verification_projection ?db) = 1" "length (escrow_projection ?db) = 0"
    "length (financing_projection ?db) = 0"
    by code_simp+
  with pages_complete [of ?db True ?q] show ?thesis by (simp add: Let_def)
qed

text \<open>
  C34. The offset overflows for large page numbers, at the three list endpoints and for every page
  and page size whose offset (with the page size clamped to 1 to 100) is \<open>2 ^ 63\<close> or more: a build
  with overflow checks panics; one without wraps around, and answers 500 when the wrapped offset is
  negative and otherwise the rows from that offset on, which are not those of the page asked for.
\<close>

theorem huge_page_overflows:
  assumes "budget db = None"
  shows "overflow_answers (\<lambda>checks. list_verifications_handler checks vq) (vq_page vq) (vq_page_size vq)
      (matching_verifications vq db) db
    \<and> overflow_answers (\<lambda>checks. list_escrows_handler checks eq) (eq_page eq) (eq_page_size eq)
      (matching_escrows eq db) db
    \<and> overflow_answers (\<lambda>checks. list_financings_handler checks fq) (fq_page fq) (fq_page_size fq)
      (matching_financings fq db) db"
  unfolding list_verifications_handler_def list_escrows_handler_def list_financings_handler_def
  by (intro conjI list_page_overflow assms)

text \<open>Page \<open>2 ^ 62 + 1\<close> of size 4 is answered with the first rows, page \<open>2 ^ 61 + 2\<close> with 500.\<close>

theorem huge_page_overflows_witness:
  "let db = snd (sample_pass sample_verification 20 empty_pg);
       q = \<lparr> vq_batch_id = None, vq_subject = None, vq_issuer = None, vq_revoked = None,
             vq_page = 2 ^ 62 + 1, vq_page_size = 4 \<rparr> in
     list_verifications_handler True q db = (Inl Panic, db)
     \<and> length (listed (list_verifications_handler False q db)) = 1
     \<and> list_verifications_handler False (q\<lparr>vq_page := 2 ^ 61 + 2\<rparr>) db =
        (Inl (Failed (Database InvalidRowCount)), db)"
proof -
  let ?db = "snd (sample_pass sample_verification 20 empty_pg)"
  let ?q = "\<lparr> vq_batch_id = None, vq_subject = None, vq_issuer = None, vq_revoked = None,
             vq_page = 2 ^ 62 + 1, vq_page_size = 4 \<rparr>"
  have b: "budget ?db = None" by code_simp
  have "length (matching_verifications (?q\<lparr>vq_page := 1\<rparr>) ?db) = 1" by code_simp
  then have len: "length (matching_verifications ?q ?db) = 1" by (simp only: matching_page)
  note overflow = conjunct1 [OF huge_page_overflows [OF b]]
  from overflow [of ?q] overflow [of "?q\<lparr>vq_page := 2 ^ 61 + 2\<rparr>"] len show ?thesis
    by (simp add: Let_def overflow_answers_def clamp_def)
qed

end
