(* ===== verification/Backend_Properties.thy ===== *)
theory Backend_Properties
  imports Backend App_Properties Farmer_Invariants Query_Properties
begin

text \<open>
  Properties of the running program: which requests change which tables, the invariant of the whole
  database over every interleaving of requests, passes, rewinds and faults, and who changes a
  profile.
\<close>

section \<open>What a request can change\<close>

lemma keeps_state: "keeps P m \<Longrightarrow> P db \<Longrightarrow> P (snd (snd (on_pg m (c, db))))"
  by (simp add: on_pg_state keepsD)

lemma keeps_session_by_token: "fault_blind P \<Longrightarrow> keeps P (session_by_token cr token now)"
  unfolding session_by_token_def Let_def by (auto intro!: keeps_intros)

lemma keeps_from_request_parts: "fault_blind P \<Longrightarrow> keeps P (from_request_parts cr header now)"
  unfolding from_request_parts_def by (auto intro!: keeps_intros keeps_session_by_token)

lemma keeps_search: "fault_blind P \<Longrightarrow> keeps P (search_farmers checks as_text ilike arrange q p k)"
  unfolding search_farmers_def Let_def by (auto intro!: keeps_intros)

lemma keeps_health: "fault_blind P \<Longrightarrow> keeps P health"
  using keeps_query [of P "\<lambda>_. 1 :: int"]
  by (auto simp: health_def keeps_def Let_def split: prod.split)

lemmas keeps_reads =
  keeps_get_by_id keeps_list_page keeps_search keeps_get_farmer keeps_health keeps_session_by_token

text \<open>The projection routes and the health check read only.\<close>

lemma serve_projections_keeps:
  assumes "fault_blind P" and "P (snd s)"
  shows "P (snd (snd (serve_projections b r s)))"
  using assms
  by (cases s; cases r)
    (simp_all add: keeps_state keeps_reads get_verification_handler_def get_escrow_handler_def
      get_financing_handler_def list_verifications_handler_def list_escrows_handler_def
      list_financings_handler_def)

text \<open>The farmer routes write at most the farmers table, with the hash of the profile.\<close>

lemma serve_farmers_keeps:
  assumes blind: "fault_blind P" and insert: "\<And>a m cf. keeps P (insert_farmer a m (be_hash b m) cf)"
    and update: "\<And>a m cf. keeps P (update_farmer_row a m (be_hash b m) cf)" and here: "P (snd s)"
  shows "P (snd (snd (serve_farmers b d r s)))"
proof -
  obtain c db where s: "s = (c, db)" by force
  have "keeps (\<lambda>s. P (snd s)) (register_farmer is_pk (be_hash b) reg req actor)"
    "keeps (\<lambda>s. P (snd s)) (update_metadata is_pk (be_hash b) upd input m actor)" for is_pk reg req upd input m actor
    unfolding register_farmer_def update_metadata_def Let_def
    by (auto intro!: keeps_intros keeps_on_backend keeps_on_pg insert update keeps_get_farmer blind
        split: sum.split)
  then have "keeps (\<lambda>s. P (snd s)) (register_farmer_handler cr is_pk (be_hash b) reg header now req)"
    "keeps (\<lambda>s. P (snd s)) (update_metadata_handler cr is_pk (be_hash b) upd header now address m)"
    for cr is_pk reg header now req upd address m
    unfolding register_farmer_handler_def update_metadata_handler_def
    by (auto intro!: keeps_and_then keeps_ok keeps_on_pg keeps_from_request_parts blind)
  from this [THEN keepsD, of s] here show ?thesis
    by (cases r)
      (simp_all add: s keeps_state keeps_reads blind search_farmers_handler_def get_farmer_handler_def)
qed

text \<open>The authentication routes write the two authentication tables.\<close>

lemma serve_auth_keeps:
  assumes blind: "fault_blind P" and challenges: "\<And>db t. P (db\<lparr>auth_challenges := t\<rparr>) = P db"
    and sessions: "\<And>db t. P (db\<lparr>auth_sessions := t\<rparr>) = P db" and here: "P (snd s)"
  shows "P (snd (snd (serve_auth b d r s)))"
proof -
  obtain c db where s: "s = (c, db)" by force
  have "keeps P (issue_challenge (be_crypto b) domain address nonce now)" for domain address nonce now
    unfolding issue_challenge_def insert_challenge_def Let_def
    by (auto intro!: keeps_intros simp: blind challenges split: if_splits)
  moreover have "keeps P (verify (be_crypto b) domain ttl req token now1 now2)" for domain ttl req token now1 now2
    unfolding verify_def verify_check_def verify_commit_def consume_nonce_def insert_session_def Let_def
    by (auto intro!: keeps_intros simp: blind challenges sessions split: if_splits sum.split)
  ultimately show ?thesis
    using here keeps_session_by_token [OF blind, of "be_crypto b"]
    by (cases r) (simp_all add: s on_pg_state keepsD [of P] challenge_handler_def verify_handler_def
        session_handler_def)
qed

fun read_only :: "request \<Rightarrow> bool" where
  "read_only (FarmersRequest (RegisterFarmer header req)) = False"
| "read_only (FarmersRequest (UpdateMetadata header address m)) = False"
| "read_only (AuthRequest (PostChallenge address)) = False"
| "read_only (AuthRequest (PostVerify req)) = False"
| "read_only r = True"

lemma read_only_cases:
  "read_only r \<longleftrightarrow> r = HealthRequest \<or> (\<exists>q. r = FarmersRequest (SearchFarmers q))
    \<or> (\<exists>a. r = FarmersRequest (GetFarmer a)) \<or> (\<exists>t. r = AuthRequest (GetSession t))
    \<or> (\<exists>p. r = ProjectionsRequest p)"
  by (cases r rule: read_only.cases) auto

lemma serve_read_only_keeps:
  assumes "read_only r" and "fault_blind P" and "P (snd s)"
  shows "P (snd (snd (serve b d r s)))" and "fst (snd (serve b d r s)) = fst s"
proof -
  obtain c db where s: "s = (c, db)" by force
  show "P (snd (snd (serve b d r s)))"
    using assms(1) unfolding read_only_cases
    by (elim disjE exE)
      (use assms(2,3) in \<open>simp_all add: s keeps_state keeps_reads search_farmers_handler_def
        get_farmer_handler_def session_handler_def serve_projections_keeps\<close>)
  have projections: "fst (snd (serve_projections b p (c, db))) = c" for p
    by (cases p) (simp_all add: on_pg_state)
  show "fst (snd (serve b d r s)) = fst s"
    using assms(1) unfolding read_only_cases
    by (elim disjE exE) (simp_all add: s on_pg_state projections)
qed

text \<open>The profile stored for an address; no row is as good as a row without profile.\<close>

definition profile_of :: "pg \<Rightarrow> string \<Rightarrow> json \<times> string" where
  "profile_of db a =
    (case tbl_find fa_address (farmers db) a of
       None \<Rightarrow> (JObj [], [])
     | Some r \<Rightarrow> (fa_metadata r, fa_metadata_hash r))"

text \<open>A farmer asks for a challenge, signs in, and registers.\<close>

definition sample_backend :: "(stub_chain, string, string) backend" where
  "sample_backend =
    \<lparr> be_crypto = sample_crypto, be_state = with_domain ''app'' app_state_new, be_is_pk = (\<lambda>a. a = ''GA''),
      be_hash = (\<lambda>m. ''hash''), be_register = stub_register, be_update = stub_update,
      be_from_std = (\<lambda>n. Inr 100), be_checks = True, be_as_text = (\<lambda>j. []), be_ilike = sample_ilike,
      be_arrange = (\<lambda>t. t), be_time = (\<lambda>t. []), be_sqlx_text = (\<lambda>e. ''error''),
      be_uuid = (\<lambda>x. None) \<rparr>"

definition sample_draw :: "int \<Rightarrow> draw" where
  "sample_draw now = \<lparr> dr_nonce = ''n'', dr_token = ''t'', dr_now1 = now, dr_now2 = now + 1 \<rparr>"

definition sample_challenged :: "stub_chain \<times> pg" where
  "sample_challenged = snd (serve sample_backend (sample_draw 0) (AuthRequest (PostChallenge ''GA''))
    (stub_chain_new, empty_pg))"

definition sample_session :: "stub_chain \<times> pg" where
  "sample_session = snd (serve sample_backend (sample_draw 1) (AuthRequest (PostVerify sample_verify_request))
    sample_challenged)"

definition sample_register_request :: request where
  "sample_register_request = FarmersRequest (RegisterFarmer (Some ''Bearer t'') sample_request)"

definition sample_registered :: "stub_chain \<times> pg" where
  "sample_registered = snd (serve sample_backend (sample_draw 50) sample_register_request sample_session)"

lemma sample_backend_simps [simp]:
  "be_crypto sample_backend = sample_crypto" "st_domain (be_state sample_backend) = ''app''"
  "be_is_pk sample_backend = (\<lambda>a. a = ''GA'')" "be_hash sample_backend = (\<lambda>m. ''hash'')"
  "be_register sample_backend = stub_register" "be_from_std sample_backend = (\<lambda>n. Inr 100)"
  by (simp_all add: sample_backend_def with_domain_def)

lemma sample_backend_run:
  "sample_challenged = (stub_chain_new, sample_issued)"
  "sample_session = (stub_chain_new, sample_signed_in)"
  "sample_registered = snd (register_farmer_handler sample_crypto (\<lambda>a. a = ''GA'') (\<lambda>m. ''hash'') stub_register
      (Some ''Bearer t'') 50 sample_request (stub_chain_new, sample_signed_in))"
proof -
  show c: "sample_challenged = (stub_chain_new, sample_issued)"
    by (simp add: sample_challenged_def on_pg_state challenge_handler_def sample_issued_def sample_draw_def)
  show s: "sample_session = (stub_chain_new, sample_signed_in)"
    by (simp add: sample_session_def c on_pg_state verify_handler_def sample_signed_in_def sample_draw_def)
  show "sample_registered = snd (register_farmer_handler sample_crypto (\<lambda>a. a = ''GA'') (\<lambda>m. ''hash'') stub_register
      (Some ''Bearer t'') 50 sample_request (stub_chain_new, sample_signed_in))"
    by (simp add: sample_registered_def s sample_register_request_def sample_draw_def)
qed

lemma sample_registered_values:
  "map fa_metadata_hash (farmers (snd sample_registered)) = [''hash'']"
  "map se_address (auth_sessions (snd sample_registered)) = [''GA'']"
  "snd (profile_of (snd sample_registered) ''GA'') = ''hash''"
  "snd (profile_of (snd sample_session) ''GA'') = []"
  unfolding sample_backend_run by code_simp+

text \<open>
  C29. Reading requests read: the health check, every \<open>GET\<close> of a farmer, a session, the farmer search
  and all routes over the projections leave the chain and every table as they are, whatever they
  are asked and wherever the connection is lost; and each request other than these has a method
  other than \<open>GET\<close>.
\<close>

theorem reads_change_nothing:
  "(fst (endpoint r) = ''GET'' \<longleftrightarrow> read_only r)
    \<and> (read_only r \<longrightarrow> (\<exists>n. snd (serve b d r (c, db)) = (c, db\<lparr>budget := n\<rparr>)))"
proof (intro conjI impI)
  have "fst (projections_endpoint p) = ''GET''" for p by (cases p) simp_all
  then show "fst (endpoint r) = ''GET'' \<longleftrightarrow> read_only r"
    by (cases r rule: read_only.cases) auto
  assume ro: "read_only r"
  let ?db' = "snd (snd (serve b d r (c, db)))"
  have "?db'\<lparr>budget := None\<rparr> = db\<lparr>budget := None\<rparr>"
    by (rule serve_read_only_keeps(1) [OF ro]) (simp_all add: fault_blind_def)
  then have "?db' = db\<lparr>budget := budget ?db'\<rparr>" by (cases ?db'; cases db) auto
  with serve_read_only_keeps(2) [OF ro, of "\<lambda>_. True" "(c, db)" b d]
  show "\<exists>n. snd (serve b d r (c, db)) = (c, db\<lparr>budget := n\<rparr>)"
    by (intro exI [of _ "budget ?db'"]) (auto simp: fault_blind_def prod_eq_iff)
qed

theorem reads_change_nothing_witness:
  "\<exists>n. snd (serve sample_backend (sample_draw 60) (FarmersRequest (GetFarmer ''GA'')) sample_registered) =
      (fst sample_registered, (snd sample_registered)\<lparr>budget := n\<rparr>)"
  using reads_change_nothing [of "FarmersRequest (GetFarmer ''GA'')" sample_backend "sample_draw 60"
      "fst sample_registered" "snd sample_registered"]
  by simp

section \<open>The invariant of the database\<close>

text \<open>The authentication tables of a running program are those of \<open>auth_reachable\<close>.\<close>

definition same_auth :: "pg \<Rightarrow> pg \<Rightarrow> bool" where
  "same_auth db db' \<longleftrightarrow> auth_challenges db' = auth_challenges db \<and> auth_sessions db' = auth_sessions db"

lemma same_auth_simps [simp]:
  "same_auth db db"
  "same_auth db (db'\<lparr>budget := n\<rparr>) = same_auth db db'"
  "same_auth db (db'\<lparr>farmers := ft\<rparr>) = same_auth db db'"
  "same_auth db (db'\<lparr>verification_projection := vt\<rparr>) = same_auth db db'"
  "same_auth db (db'\<lparr>escrow_projection := et\<rparr>) = same_auth db db'"
  "same_auth db (db'\<lparr>financing_projection := nt\<rparr>) = same_auth db db'"
  "same_auth db (db'\<lparr>indexed_events := es\<rparr>) = same_auth db db'"
  "same_auth db (db'\<lparr>indexer_cursors := cs\<rparr>) = same_auth db db'"
  by (simp_all add: same_auth_def)

lemma same_auth_blind [simp]: "fault_blind (same_auth db)"
  by (simp add: fault_blind_def)

lemma same_auth_kept:
  "keeps (same_auth db) (insert_farmer a m h cf)"
  "keeps (same_auth db) (update_farmer_row a m h cf)"
  "keeps (same_auth db) (ingest text_of uuid pull head cid)"
  "keeps (same_auth db) (rewind cid l)"
proof -
  show "keeps (same_auth db) (insert_farmer a m h cf)" "keeps (same_auth db) (update_farmer_row a m h cf)"
    "keeps (same_auth db) (rewind cid l)"
    unfolding insert_farmer_def update_farmer_row_def rewind_def
    by (auto intro!: keeps_and_then keeps_execute split: sum.splits)
  have "keeps (same_auth db) (apply_event uuid e)" for e
    by (rule keeps_apply_event) (simp add: projection_blind_def)
  then show "keeps (same_auth db) (ingest text_of uuid pull head cid)"
    by (rule keeps_ingest_events [OF same_auth_blind]) simp_all
qed

lemma serve_same_auth:
  "same_auth db (snd (snd (serve b d (FarmersRequest fr) (c, db))))"
  "same_auth db (snd (snd (serve b d (ProjectionsRequest pr) (c, db))))"
  "same_auth db (snd (snd (serve b d HealthRequest (c, db))))"
  using serve_farmers_keeps [of "same_auth db" b "(c, db)" d fr]
    serve_projections_keeps [of "same_auth db" "(c, db)" b pr]
    serve_read_only_keeps(1) [of HealthRequest "same_auth db" "(c, db)" b d]
  by (simp_all add: same_auth_kept)

lemma backend_auth_reach:
  "backend_reach b s \<Longrightarrow> auth_reachable (be_crypto b) (st_domain (be_state b)) (snd s)"
proof (induction rule: backend_reach.induct)
  case (start c)
  show ?case by (simp add: auth_reachable_start empty_pg_def)
next
  case (step s s')
  obtain c db where s: "s = (c, db)" by force
  have same: "auth_reachable (be_crypto b) (st_domain (be_state b)) db'" if "same_auth db db'" for db'
    by (rule auth_reachable_rest [of _ _ db]) (use that step.IH in \<open>simp_all add: s same_auth_def\<close>)
  from step.hyps(2) show ?case
    unfolding s
  proof cases
    case (request d r)
    show ?thesis
    proof (cases r)
      case (AuthRequest ar)
      then show ?thesis
        using step.IH unfolding request s
        by (cases ar) (simp_all add: on_pg_state challenge_handler_def verify_handler_def session_handler_def
            auth_reachable_issued auth_reachable_verified auth_reachable_looked_up)
    qed (simp_all only: request same serve_same_auth)
  next
    case pass
    then show ?thesis by (simp add: same keepsD [OF same_auth_kept(3)])
  next
    case rewound
    then show ?thesis by (simp add: same keepsD [OF same_auth_kept(4)])
  next
    case fault
    then show ?thesis by (simp add: same same_auth_def)
  next
    case chain
    then show ?thesis by (simp add: same)
  qed
qed

lemma store_ok_ignores:
  "store_ok (db\<lparr>auth_challenges := a\<rparr>) = store_ok db" "store_ok (db\<lparr>auth_sessions := x\<rparr>) = store_ok db"
  "store_ok (db\<lparr>farmers := ft\<rparr>) = store_ok db" "store_ok (db\<lparr>verification_projection := vt\<rparr>) = store_ok db"
  "store_ok (db\<lparr>escrow_projection := et\<rparr>) = store_ok db"
  "store_ok (db\<lparr>financing_projection := nt\<rparr>) = store_ok db"
  "store_ok (db\<lparr>indexer_cursors := cs\<rparr>) = store_ok db"
  by (simp_all add: store_ok_def)

lemma store_ok_blind: "fault_blind store_ok"
  by (simp add: fault_blind_def)

text \<open>The three parts that do not look at the authentication tables.\<close>

definition tables_ok :: "(farmer_metadata \<Rightarrow> string) \<Rightarrow> pg \<Rightarrow> bool" where
  "tables_ok hash db \<longleftrightarrow> farmers_inv hash db \<and> projections_typed db \<and> store_ok db"

lemma tables_ok_blind: "fault_blind (tables_ok hash)"
  using farmers_inv_blind projections_typed_blind store_ok_blind
  by (simp add: fault_blind_def tables_ok_def)

lemma keeps_store_pass: "keeps store_ok (ingest text_of uuid pull head cid)"
proof (rule keeps_ingest_events [OF store_ok_blind])
  show "keeps store_ok (apply_event uuid e)" for e
    by (rule keeps_apply_event) (simp add: projection_blind_def store_ok_ignores store_ok_blind)
qed (simp_all add: store_ok_def insert_event_ok)

lemma keeps_store_rewind: "keeps store_ok (rewind cid l)"
  unfolding rewind_def
  by (intro keeps_and_then keeps_execute store_ok_blind) (auto simp: store_ok_def distinct_map_filter)

lemma keeps_tables:
  "keeps (tables_ok hash) (insert_farmer a m (hash m) cf)"
  "keeps (tables_ok hash) (update_farmer_row a m (hash m) cf)"
  "keeps (tables_ok hash) (ingest text_of uuid pull head cid)"
  "keeps (tables_ok hash) (rewind cid l)"
proof -
  have typed: "keeps projections_typed (insert_farmer a m (hash m) cf)"
    "keeps projections_typed (update_farmer_row a m (hash m) cf)"
    unfolding insert_farmer_def update_farmer_row_def
    by (rule keeps_execute [OF projections_typed_blind], auto simp: projections_typed_def split: sum.splits)+
  have store: "keeps store_ok (insert_farmer a m (hash m) cf)"
    "keeps store_ok (update_farmer_row a m (hash m) cf)"
    unfolding insert_farmer_def update_farmer_row_def
    by (rule keeps_execute [OF store_ok_blind], auto simp: store_ok_ignores split: sum.splits)+
  have "keeps (farmers_inv hash) (rewind cid l)"
    unfolding rewind_def
    by (intro keeps_and_then keeps_execute farmers_inv_blind) (auto simp: farmers_inv_def farmers_ok_def)
  with typed store show "keeps (tables_ok hash) (insert_farmer a m (hash m) cf)"
    "keeps (tables_ok hash) (update_farmer_row a m (hash m) cf)"
    "keeps (tables_ok hash) (ingest text_of uuid pull head cid)"
    "keeps (tables_ok hash) (rewind cid l)"
    using keeps_inv_registration [of hash a m cf] keeps_inv_update_row [of hash a m cf]
      keeps_inv_ingest [of hash text_of uuid pull head cid] keeps_typed_ingest [of text_of uuid pull head cid]
      keeps_typed_rewind [of cid l] keeps_store_rewind [of cid l] keeps_store_pass [of text_of uuid pull head cid]
    by (auto simp: keeps_def tables_ok_def)
qed

lemma tables_ok_ignores:
  "tables_ok hash (db\<lparr>auth_challenges := t\<rparr>) = tables_ok hash db"
  "tables_ok hash (db\<lparr>auth_sessions := x\<rparr>) = tables_ok hash db"
  by (simp_all add: tables_ok_def farmers_inv_def farmers_ok_def projections_typed_def store_ok_ignores)

lemma serve_tables_ok:
  assumes "tables_ok (be_hash b) (snd s)"
  shows "tables_ok (be_hash b) (snd (snd (serve b d r s)))"
proof (cases r)
  case HealthRequest
  show ?thesis unfolding HealthRequest
    by (rule serve_read_only_keeps(1) [OF _ tables_ok_blind assms]) simp
qed (simp_all add: assms serve_farmers_keeps serve_auth_keeps serve_projections_keeps tables_ok_blind
    keeps_tables tables_ok_ignores)

lemma tables_ok_fault:
  "tables_ok hash db \<Longrightarrow> tables_ok hash (db\<lparr>budget := n, ack_lost := lost, pg_now := now\<rparr>)"
  by (simp add: tables_ok_def farmers_inv_def farmers_ok_def projections_typed_def store_ok_def)

lemma backend_tables_ok: "backend_reach b s \<Longrightarrow> tables_ok (be_hash b) (snd s)"
proof (induction rule: backend_reach.induct)
  case (start c)
  show ?case
    by (simp add: tables_ok_def farmers_inv_def farmers_ok_def projections_typed_def store_ok_def empty_pg_def)
next
  case (step s s')
  from step.hyps(2) step.IH show ?case
  proof cases
    case (request d r)
    with step.IH show ?thesis by (simp add: serve_tables_ok)
  next
    case pass
    with step.IH show ?thesis by (simp add: keepsD [OF keeps_tables(3)])
  next
    case rewound
    with step.IH show ?thesis by (simp add: keepsD [OF keeps_tables(4)])
  qed (simp_all add: tables_ok_fault)
qed

text \<open>
  The invariant of the database of the running program. From the empty database on, whatever
  requests arrive with whatever content, interleaved with passes over any chain, rewinds, lost
  connections and clock jumps, and for any cryptography and chain backend: nonces are unique and
  every address has at most as many sessions as consumed challenges; the farmers table has unique
  addresses, ids derived from them, and hashes of its profiles; every projection row is well typed;
  and no event is stored twice.
\<close>

theorem backend_invariant:
  assumes "backend_reach b (c, db)"
  shows "tbl_ok ch_nonce (auth_challenges db)
    \<and> length (filter (\<lambda>s. se_address s = a) (auth_sessions db))
        \<le> length (filter (\<lambda>x. ch_used x \<and> ch_address x = a) (auth_challenges db))
    \<and> farmers_inv (be_hash b) db
    \<and> projections_typed db
    \<and> tbl_ok natural_key (indexed_events db)"
  using auth_reachable_inv [OF backend_auth_reach [OF assms]] backend_tables_ok [OF assms]
  by (auto simp: auth_inv_def sessions_of_def consumed_of_def tables_ok_def store_ok_def)

lemma sample_backend_reach: "backend_reach sample_backend sample_session" "backend_reach sample_backend sample_registered"
proof -
  have "backend_reach sample_backend sample_challenged"
    unfolding sample_challenged_def by (rule backend_reach.step [OF backend_reach.start backend_step.request])
  then show "backend_reach sample_backend sample_session"
    unfolding sample_session_def by (rule backend_reach.step [OF _ backend_step.request])
  then show "backend_reach sample_backend sample_registered"
    unfolding sample_registered_def by (rule backend_reach.step [OF _ backend_step.request])
qed

theorem backend_invariant_witness:
  "farmers_inv (be_hash sample_backend) (snd sample_registered)
    \<and> map fa_metadata_hash (farmers (snd sample_registered)) = [''hash'']
    \<and> length (filter (\<lambda>s. se_address s = ''GA'') (auth_sessions (snd sample_registered))) = 1"
proof -
  have "backend_reach sample_backend (fst sample_registered, snd sample_registered)"
    using sample_backend_reach(2) by (simp only: prod.collapse)
  from backend_invariant [OF this, of "[]"]
  have "farmers_inv (be_hash sample_backend) (snd sample_registered)" by blast
  moreover have "length (filter (\<lambda>s. se_address s = ''GA'') (auth_sessions (snd sample_registered))) = 1"
    using sample_registered_values(2) by (auto simp: map_eq_Cons_conv)
  ultimately show ?thesis using sample_registered_values(1) by blast
qed

section \<open>Who changes a profile\<close>

lemma profile_ignores:
  "profile_of (db\<lparr>auth_challenges := t\<rparr>) a = profile_of db a"
  "profile_of (db\<lparr>auth_sessions := x\<rparr>) a = profile_of db a"
  by (simp_all add: profile_of_def)

lemma profile_blind: "fault_blind (\<lambda>db. profile_of db a = p)"
  by (simp add: fault_blind_def profile_of_def)

lemma profile_upsert:
  assumes "\<And>r. fa_address (f r) = fa_address r" "\<And>r. fa_metadata (f r) = fa_metadata r"
    "\<And>r. fa_metadata_hash (f r) = fa_metadata_hash r"
    and "fa_metadata new = JObj []" "fa_metadata_hash new = []"
  shows "profile_of (db\<lparr>farmers := tbl_upsert fa_address new f (farmers db)\<rparr>) a = profile_of db a"
    and "profile_of (db\<lparr>farmers := tbl_update fa_address k f (farmers db)\<rparr>) a = profile_of db a"
  using assms by (auto simp: profile_of_def tbl_find_upsert tbl_find_update split: option.split)

text \<open>The identity events touch no profile.\<close>

lemma keeps_profile_event: "keeps (\<lambda>db. profile_of db a = p) (apply_event uuid e)"
proof (cases "contract_name e = ''identity''")
  case True
  have "keeps (\<lambda>db. profile_of db a = p) (upsert_identity_farmer e)"
    unfolding upsert_identity_farmer_def insert_farmer_row_def Let_def
    by (auto intro!: keeps_case_option keeps_fail keeps_execute profile_blind
        simp: profile_upsert identity_conflict_def identity_row_def split: if_splits)
  moreover have "keeps (\<lambda>db. profile_of db a = p) (update_identity_metadata e)"
    "keeps (\<lambda>db. profile_of db a = p) (append_identity_marker e)"
    unfolding update_identity_metadata_def append_identity_marker_def
    by (auto intro!: keeps_case_option keeps_fail keeps_execute profile_blind
        simp: profile_upsert(2) [where new = "identity_row 0 [] e"] identity_metadata_set_def
          identity_marker_set_def identity_row_def)
  ultimately show ?thesis
    unfolding apply_event_identity [OF True] by (intro keeps_intros)
next
  case False
  have "farmers (snd (apply_event uuid e db)) = farmers db" for db
    by (rule keepsD [OF apply_event_frame(4) [OF False] refl])
  then show ?thesis by (simp add: keeps_def profile_of_def)
qed

lemma keeps_profile_pass: "keeps (\<lambda>db. profile_of db a = p) (ingest text_of uuid pull head cid)"
  by (rule keeps_ingest_events [OF profile_blind keeps_profile_event]) (simp_all add: profile_of_def)

text \<open>The service writes the row of the caller only.\<close>

lemma keeps_profile_other:
  assumes "a \<noteq> actor"
  shows "keeps (\<lambda>s. profile_of (snd s) a = p) (register_farmer is_pk hash reg req actor)"
    and "keeps (\<lambda>s. profile_of (snd s) a = p) (update_metadata is_pk hash upd input m actor)"
proof -
  have "keeps (\<lambda>db. profile_of db a = p) (insert_farmer actor m h cf)" for m h cf
    unfolding insert_farmer_def insert_farmer_strict_def
    by (rule keeps_execute [OF profile_blind])
      (use assms in \<open>auto simp: profile_of_def tbl_find_def find_append new_farmer_row_def
        split: if_splits option.splits\<close>)
  moreover have "keeps (\<lambda>db. profile_of db a = p) (update_farmer_row actor m h cf)" for m h cf
    unfolding update_farmer_row_def
    by (rule keeps_execute [OF profile_blind])
      (use assms in \<open>auto simp: profile_of_def tbl_find_update metadata_set_def\<close>)
  ultimately show "keeps (\<lambda>s. profile_of (snd s) a = p) (register_farmer is_pk hash reg req actor)"
    and "keeps (\<lambda>s. profile_of (snd s) a = p) (update_metadata is_pk hash upd input m actor)"
    unfolding register_farmer_def update_metadata_def Let_def
    by (auto intro!: keeps_intros keeps_on_backend keeps_on_pg keeps_get_farmer profile_blind split: sum.split)
qed

lemma profile_changed_by:
  assumes "profile_of (snd (snd (and_then (on_pg (from_request_parts cr header now)) k (c, db)))) a
      \<noteq> profile_of db a"
    and other: "\<And>u. a \<noteq> au_address u \<Longrightarrow> keeps (\<lambda>s. profile_of (snd s) a = profile_of db a) (k u)"
  obtains u db1 where "from_request_parts cr header now db = (Inr u, db1)" and "au_address u = a"
    and "snd (k u (c, db1)) \<noteq> (c, db1)"
proof -
  obtain r db1 where run: "from_request_parts cr header now db = (r, db1)" by fastforce
  then have same: "profile_of db1 a = profile_of db a"
    using extracted_user [OF run] by (auto simp: profile_of_def)
  with assms(1) run obtain u where u: "r = Inr u" and change: "profile_of (snd (snd (k u (c, db1)))) a \<noteq> profile_of db a"
    by (cases r) (auto simp: and_then_apply on_pg_apply)
  have "au_address u = a"
    using keepsD [OF other, of u "(c, db1)"] same change by fastforce
  moreover have "snd (k u (c, db1)) \<noteq> (c, db1)" using change same by auto
  ultimately show thesis using run u that by blast
qed

lemma serve_profile:
  assumes change: "profile_of (snd (snd (serve b d r (c, db)))) a \<noteq> profile_of db a"
  shows "(\<exists>header req. r = FarmersRequest (RegisterFarmer header req)) \<or>
    (\<exists>header input m. r = FarmersRequest (UpdateMetadata header input m))"
proof (rule ccontr)
  let ?P = "\<lambda>x. profile_of x a = profile_of db a"
  assume other: "\<not> ?thesis"
  have "?P (snd (snd (serve b d r (c, db))))"
  proof (cases "\<exists>ar. r = AuthRequest ar")
    case True
    then obtain ar where r: "r = AuthRequest ar" ..
    show ?thesis unfolding r serve.simps
      by (rule serve_auth_keeps [OF profile_blind]) (simp_all only: snd_conv profile_ignores)
  next
    case False
    with other have "read_only r" by (cases r rule: read_only.cases) auto
    then show ?thesis by (rule serve_read_only_keeps(1) [OF _ profile_blind]) simp
  qed
  with change show False by blast
qed

text \<open>
  The request that writes the profile of an address: it names the address, and its bearer token is
  that of a session in \<open>db\<close> whose expiry is after \<open>now\<close>. The code compares the expiry with the clock
  once, when it extracts the token, so \<open>now\<close> is that reading; the write comes later.
\<close>

definition owner_request ::
  "('c, 'k, 'g) backend \<Rightarrow> int \<Rightarrow> string \<Rightarrow> request \<Rightarrow> pg \<Rightarrow> bool" where
  "owner_request b now a r db \<longleftrightarrow>
    (\<exists>header input. (\<exists>req. r = FarmersRequest (RegisterFarmer header req) \<and> input = req_address req)
        \<and> parse_farmer_identifier (be_is_pk b) input = Inr a
        \<and> authorised (be_crypto b) (be_is_pk b) header now input db
      \<or> (\<exists>m. r = FarmersRequest (UpdateMetadata header input m))
        \<and> parse_farmer_identifier (be_is_pk b) input = Inr a
        \<and> authorised (be_crypto b) (be_is_pk b) header now input db)"

lemma register_profile_owner:
  assumes "auth_reachable (be_crypto b) domain db"
    and "profile_of (snd (snd (serve b d (FarmersRequest (RegisterFarmer header req)) (c, db)))) a
      \<noteq> profile_of db a"
  shows "owner_request b (dr_now1 d) a (FarmersRequest (RegisterFarmer header req)) db"
proof -
  let ?k = "\<lambda>u. and_then (register_farmer (be_is_pk b) (be_hash b) (be_register b) req (au_address u))
      (\<lambda>f. ok (201 :: nat, f))"
  have other: "keeps (\<lambda>s. profile_of (snd s) a = profile_of db a) (?k u)" if "a \<noteq> au_address u" for u
    by (rule keeps_and_then [OF keeps_profile_other(1) [OF that] keeps_ok])
  have change: "profile_of (snd (snd (and_then (on_pg (from_request_parts (be_crypto b) header (dr_now1 d))) ?k (c, db)))) a
      \<noteq> profile_of db a"
    using assms(2) by (simp add: register_farmer_handler_def)
  obtain u db1 where run: "from_request_parts (be_crypto b) header (dr_now1 d) db = (Inr u, db1)"
    and u: "au_address u = a" and moved: "snd (?k u (c, db1)) \<noteq> (c, db1)"
    by (rule profile_changed_by [OF change other])
  from moved have "snd (register_farmer (be_is_pk b) (be_hash b) (be_register b) req (au_address u) (c, db1)) \<noteq> (c, db1)"
    by (auto simp: and_then_apply split: prod.splits sum.splits)
  then have form: "parse_farmer_identifier (be_is_pk b) (req_address req) = Inr (au_address u)"
    by (rule register_owner [THEN conjunct1])
  from extraction_authorises [OF assms(1) run form] form u show ?thesis
    unfolding owner_request_def by blast
qed

lemma update_profile_owner:
  assumes "auth_reachable (be_crypto b) domain db"
    and "profile_of (snd (snd (serve b d (FarmersRequest (UpdateMetadata header input m)) (c, db)))) a
      \<noteq> profile_of db a"
  shows "owner_request b (dr_now1 d) a (FarmersRequest (UpdateMetadata header input m)) db"
proof -
  let ?k = "\<lambda>u. update_metadata (be_is_pk b) (be_hash b) (be_update b) input m (au_address u)"
  have other: "keeps (\<lambda>s. profile_of (snd s) a = profile_of db a) (?k u)" if "a \<noteq> au_address u" for u
    by (rule keeps_profile_other(2) [OF that])
  have change: "profile_of (snd (snd (and_then (on_pg (from_request_parts (be_crypto b) header (dr_now1 d))) ?k (c, db)))) a
      \<noteq> profile_of db a"
    using assms(2) by (simp add: update_metadata_handler_def)
  obtain u db1 where run: "from_request_parts (be_crypto b) header (dr_now1 d) db = (Inr u, db1)"
    and u: "au_address u = a" and moved: "snd (?k u (c, db1)) \<noteq> (c, db1)"
    by (rule profile_changed_by [OF change other])
  from moved have form: "parse_farmer_identifier (be_is_pk b) input = Inr (au_address u)"
    by (rule update_owner [THEN conjunct1])
  from extraction_authorises [OF assms(1) run form] form u show ?thesis
    unfolding owner_request_def by blast
qed

text \<open>
  A profile changes only through its owner. In every reachable state, if a step of the program
  (a request, a pass over any chain events, a rewind, a fault) changes the profile or the hash
  stored for an address, then the step is a registration or update request for exactly that
  address, its bearer token is that of an unexpired session of the address, and a challenge for
  the address has been consumed.
\<close>

theorem profile_changes_only_by_owner:
  assumes "backend_reach b (c, db)" and "backend_step b (c, db) (c', db')"
    and "profile_of db' a \<noteq> profile_of db a"
  shows "\<exists>d r. (c', db') = snd (serve b d r (c, db)) \<and> owner_request b (dr_now1 d) a r db"
  using assms(2)
proof cases
  case (request d r)
  note auth = backend_auth_reach [OF assms(1), simplified]
  have change: "profile_of (snd (snd (serve b d r (c, db)))) a \<noteq> profile_of db a"
    using assms(3) request by (metis snd_conv)
  from serve_profile [OF change] have "owner_request b (dr_now1 d) a r db"
  proof (elim disjE exE)
    fix header req assume r: "r = FarmersRequest (RegisterFarmer header req)"
    from register_profile_owner [OF auth change [unfolded r]] show "owner_request b (dr_now1 d) a r db" unfolding r .
  next
    fix header input m assume r: "r = FarmersRequest (UpdateMetadata header input m)"
    from update_profile_owner [OF auth change [unfolded r]] show "owner_request b (dr_now1 d) a r db" unfolding r .
  qed
  with request show ?thesis by blast
next
  case pass
  with assms(3) keepsD [OF keeps_profile_pass [of a "profile_of db a"], of db] show ?thesis by simp
next
  case (rewound cid l)
  have "keeps (\<lambda>x. profile_of x a = profile_of db a) (rewind cid l)"
    unfolding rewind_def by (intro keeps_and_then keeps_execute profile_blind) (auto simp: profile_of_def)
  from keepsD [OF this, of db] rewound assms(3) show ?thesis by simp
next
  case fault
  with assms(3) show ?thesis by (simp add: profile_of_def)
next
  case chain
  with assms(3) show ?thesis by simp
qed

theorem profile_changes_only_by_owner_witness:
  "\<exists>d r. sample_registered = snd (serve sample_backend d r sample_session)
      \<and> owner_request sample_backend (dr_now1 d) ''GA'' r (snd sample_session)"
proof -
  obtain c db where s: "sample_session = (c, db)" by force
  obtain c' db' where s': "sample_registered = (c', db')" by force
  have "profile_of db' ''GA'' \<noteq> profile_of db ''GA''"
    using sample_registered_values(3,4) unfolding s s' by auto
  moreover have "backend_reach sample_backend (c, db)" using sample_backend_reach(1) unfolding s .
  moreover have "backend_step sample_backend (c, db) (c', db')"
    unfolding s' [symmetric] sample_registered_def s by (rule backend_step.request)
  ultimately show ?thesis
    using profile_changes_only_by_owner [of sample_backend c db c' db' "''GA''"] unfolding s s' by simp
qed

end
