(* ===== verification/Tasks.thy ===== *)
theory Tasks
  imports Prelude
begin

text \<open>
  Operations as tasks: what the runtime interleaves. A task is finished, or waits for its next
  atomic step (one SQL statement, one call of a backend), which changes the shared state and
  leaves a task. \<open>run_task\<close> runs a task alone, which gives back the actions of the sequential
  model; \<open>safe\<close> is its rely-guarantee semantics among other tasks.
\<close>

named_theorems task_simps \<open>running a task\<close>

section \<open>Tasks\<close>

datatype ('s, 'r) task = Finish 'r | Await "'s \<Rightarrow> 's \<times> ('s, 'r) task"

primrec run_task :: "('s, 'r) task \<Rightarrow> 's \<Rightarrow> 'r \<times> 's" where
  "run_task (Finish r) = (\<lambda>s. (r, s))"
| "run_task (Await f) = (\<lambda>s. case (map_prod (\<lambda>x. x) run_task \<circ> f) s of (s', k) \<Rightarrow> k s')"

primrec bind_task :: "('s, 'r) task \<Rightarrow> ('r \<Rightarrow> ('s, 'q) task) \<Rightarrow> ('s, 'q) task" where
  "bind_task (Finish r) k = k r"
| "bind_task (Await f) k = Await (\<lambda>s. (map_prod (\<lambda>x. x) (\<lambda>t. bind_task t k) \<circ> f) s)"

definition atomic :: "('s \<Rightarrow> 'r \<times> 's) \<Rightarrow> ('s, 'r) task" where
  "atomic m = Await (\<lambda>s. case m s of (r, s') \<Rightarrow> (s', Finish r))"

text \<open>The \<open>?\<close> operator, error conversion and mapping of a result do not wait.\<close>

definition and_await :: "('s, 'e + 'a) task \<Rightarrow> ('a \<Rightarrow> ('s, 'e + 'b) task) \<Rightarrow> ('s, 'e + 'b) task" where
  "and_await t k = bind_task t (\<lambda>r. case r of Inl e \<Rightarrow> Finish (Inl e) | Inr a \<Rightarrow> k a)"

definition map_task :: "('r \<Rightarrow> 'q) \<Rightarrow> ('s, 'r) task \<Rightarrow> ('s, 'q) task" where
  "map_task g t = bind_task t (\<lambda>r. Finish (g r))"

definition awaiting_err :: "('e \<Rightarrow> 'f) \<Rightarrow> ('s, 'e + 'a) task \<Rightarrow> ('s, 'f + 'a) task" where
  "awaiting_err g t = map_task (map_sum g (\<lambda>a. a)) t"

fun for_each_await :: "('x \<Rightarrow> ('s, 'e + unit) task) \<Rightarrow> 'x list \<Rightarrow> ('s, 'e + unit) task" where
  "for_each_await f [] = Finish (Inr ())"
| "for_each_await f (x # xs) = and_await (f x) (\<lambda>_. for_each_await f xs)"

section \<open>Running a task alone\<close>

lemma run_await: "run_task (Await f) s = run_task (snd (f s)) (fst (f s))"
  by (simp add: case_prod_beta)

lemma run_bind: "run_task (bind_task t k) s = (case run_task t s of (r, s') \<Rightarrow> run_task (k r) s')"
  by (induction t arbitrary: s) (auto simp: case_prod_beta prod_set_defs)

lemma run_atomic [task_simps]: "run_task (atomic m) = m"
  by (simp add: atomic_def fun_eq_iff case_prod_beta)

lemma run_finish [task_simps]: "run_task (Finish r) = lift_result r"
  by (simp add: fun_eq_iff)

lemma run_finish_ok [task_simps]:
  "run_task (Finish (Inr a)) = ok a" "run_task (Finish (Inl e)) = fail e"
  by (simp_all add: fun_eq_iff)

lemma run_and_await [task_simps]:
  "run_task (and_await t k) = and_then (run_task t) (\<lambda>a. run_task (k a))"
  by (simp add: and_await_def fun_eq_iff run_bind and_then_apply split: prod.split sum.split)

lemma run_map: "run_task (map_task g t) s = (case run_task t s of (r, s') \<Rightarrow> (g r, s'))"
  by (simp add: map_task_def run_bind)

lemma run_awaiting_err [task_simps]: "run_task (awaiting_err g t) = map_err g (run_task t)"
  by (simp add: awaiting_err_def fun_eq_iff run_map map_err_apply split: prod.split sum.split)

lemma run_for_each [task_simps]:
  "run_task (for_each_await f xs) = for_each (\<lambda>x. run_task (f x)) xs"
  by (induction xs) (simp_all add: task_simps)

declare run_task.simps [simp del]

section \<open>Rely and guarantee\<close>

text \<open>
  \<open>safe R G Q t s\<close>: from \<open>s\<close> on, while the others change the state as \<open>R\<close> allows before each step
  of \<open>t\<close>, every step of \<open>t\<close> is a \<open>G\<close> step, and its result satisfies \<open>Q\<close>.
\<close>

inductive safe ::
  "('s \<Rightarrow> 's \<Rightarrow> bool) \<Rightarrow> ('s \<Rightarrow> 's \<Rightarrow> bool) \<Rightarrow> ('r \<Rightarrow> 's \<Rightarrow> bool) \<Rightarrow> ('s, 'r) task \<Rightarrow> 's \<Rightarrow> bool"
  for R G Q where
  finish: "(\<And>s'. R s s' \<Longrightarrow> Q r s') \<Longrightarrow> safe R G Q (Finish r) s"
| await: "(\<And>s'. R s s' \<Longrightarrow> G s' (fst (f s'))) \<Longrightarrow>
    (\<And>s'. R s s' \<Longrightarrow> safe R G Q (snd (f s')) (fst (f s'))) \<Longrightarrow> safe R G Q (Await f) s"

inductive_cases safe_FinishE: "safe R G Q (Finish r) s"
inductive_cases safe_AwaitE: "safe R G Q (Await f) s"

lemma safe_outcome: "safe R G Q (Finish r) s \<Longrightarrow> R s s' \<Longrightarrow> Q r s'"
  by (auto elim: safe_FinishE)

lemma safe_step:
  "safe R G Q (Await f) s \<Longrightarrow> R s s' \<Longrightarrow> G s' (fst (f s')) \<and> safe R G Q (snd (f s')) (fst (f s'))"
  by (auto elim: safe_AwaitE)

text \<open>A rely is reflexive and transitive: the others take any number of steps.\<close>

definition rely :: "('s \<Rightarrow> 's \<Rightarrow> bool) \<Rightarrow> bool" where
  "rely R \<longleftrightarrow> (\<forall>s. R s s) \<and> (\<forall>s s' s''. R s s' \<longrightarrow> R s' s'' \<longrightarrow> R s s'')"

lemma rely_refl: "rely R \<Longrightarrow> R s s"
  and rely_trans: "rely R \<Longrightarrow> R s s' \<Longrightarrow> R s' s'' \<Longrightarrow> R s s''"
  unfolding rely_def by blast+

lemma safe_stable:
  assumes "safe R G Q t s" and "rely R" and "R s s'"
  shows "safe R G Q t s'"
  using assms(1)
proof cases
  case (finish r)
  with assms(2,3) show ?thesis by (auto intro!: safe.finish dest: rely_trans)
next
  case (await f)
  with assms(2,3) show ?thesis by (auto intro!: safe.await dest: rely_trans)
qed

lemma safe_bind:
  assumes "safe R G Q t s" and "rely R" and "\<And>r s'. Q r s' \<Longrightarrow> safe R G Q' (k r) s'"
  shows "safe R G Q' (bind_task t k) s"
  using assms(1)
proof (induction rule: safe.induct)
  case (finish s r)
  then show ?case using assms(2,3) by (simp add: rely_refl)
next
  case (await s f)
  then show ?case by (auto intro!: safe.await)
qed

lemma safe_weaken:
  assumes "safe R G Q t s" and "\<And>s s'. G s s' \<Longrightarrow> G' s s'" and "\<And>r s'. Q r s' \<Longrightarrow> Q' r s'"
  shows "safe R G' Q' t s"
  using assms(1) by (induction rule: safe.induct) (auto intro!: safe.intros assms(2,3))

lemma safe_atomic:
  assumes "\<And>s'. R s s' \<Longrightarrow> G s' (snd (m s'))"
    and "\<And>s' s''. R s s' \<Longrightarrow> R (snd (m s')) s'' \<Longrightarrow> Q (fst (m s')) s''"
  shows "safe R G Q (atomic m) s"
  using assms by (auto simp: atomic_def case_prod_beta intro!: safe.intros)

text \<open>The rules for composed tasks; the outcome of an early error must hold for the rest of the run.\<close>

definition stable :: "('s \<Rightarrow> 's \<Rightarrow> bool) \<Rightarrow> ('r \<Rightarrow> 's \<Rightarrow> bool) \<Rightarrow> bool" where
  "stable R Q \<longleftrightarrow> (\<forall>r s s'. Q r s \<longrightarrow> R s s' \<longrightarrow> Q r s')"

lemma safe_Finish: "stable R Q \<Longrightarrow> Q r s \<Longrightarrow> safe R G Q (Finish r) s"
  by (auto simp: stable_def intro: safe.finish)

lemma safe_and_await:
  assumes "safe R G P t s" and "rely R" and "\<And>e s'. P (Inl e) s' \<Longrightarrow> safe R G Q (Finish (Inl e)) s'"
    and "\<And>a s'. P (Inr a) s' \<Longrightarrow> safe R G Q (k a) s'"
  shows "safe R G Q (and_await t k) s"
  unfolding and_await_def
  by (rule safe_bind [OF assms(1,2)]) (auto simp: assms(3,4) split: sum.split)

lemma safe_map:
  assumes "safe R G P t s" and "rely R" and "\<And>r s'. P r s' \<Longrightarrow> safe R G Q (Finish (g r)) s'"
  shows "safe R G Q (map_task g t) s"
  unfolding map_task_def by (rule safe_bind [OF assms])

text \<open>When nothing is claimed of the result, only the steps count.\<close>

abbreviation any_outcome :: "'r \<Rightarrow> 's \<Rightarrow> bool" where
  "any_outcome \<equiv> \<lambda>_ _. True"

lemma steps_finish: "safe R G any_outcome (Finish r) s"
  by (auto intro: safe.finish)

lemma steps_atomic: "(\<And>s. G s (snd (m s))) \<Longrightarrow> safe R G any_outcome (atomic m) s"
  by (auto intro: safe_atomic)

lemma steps_and_await:
  "rely R \<Longrightarrow> safe R G any_outcome t s \<Longrightarrow> (\<And>a s. safe R G any_outcome (k a) s) \<Longrightarrow>
    safe R G any_outcome (and_await t k) s"
  by (rule safe_and_await [where P = any_outcome]) (auto intro: steps_finish)

lemma steps_map: "rely R \<Longrightarrow> safe R G any_outcome t s \<Longrightarrow> safe R G any_outcome (map_task g t) s"
  by (rule safe_map [where P = any_outcome]) (auto intro: steps_finish)

lemma steps_awaiting_err:
  "rely R \<Longrightarrow> safe R G any_outcome t s \<Longrightarrow> safe R G any_outcome (awaiting_err g t) s"
  unfolding awaiting_err_def by (rule steps_map)

lemma steps_for_each:
  "rely R \<Longrightarrow> (\<And>x s. safe R G any_outcome (f x) s) \<Longrightarrow> safe R G any_outcome (for_each_await f xs) s"
  by (induction xs arbitrary: s) (auto intro: steps_finish steps_and_await)

section \<open>Interference\<close>

text \<open>What a task has left to do after some of its steps.\<close>

inductive remains :: "('s, 'r) task \<Rightarrow> ('s, 'r) task \<Rightarrow> bool" for t where
  whole: "remains t t"
| rest: "remains t (Await f) \<Longrightarrow> remains t (snd (f s))"

lemma safe_remains:
  assumes "\<And>s. safe (\<lambda>_ _. True) G any_outcome t s" and "remains t u"
  shows "safe (\<lambda>_ _. True) G any_outcome u s"
  using assms(2)
proof (induction arbitrary: s)
  case (rest f s')
  from safe_step [OF rest.IH [of s']]
  have "safe (\<lambda>_ _. True) G any_outcome (snd (f s')) (fst (f s'))" by blast
  then show ?case by (rule safe_stable) (simp_all add: rely_def)
qed (rule assms(1))

text \<open>A run of a task in which the others change the state as \<open>R\<close> allows before each step and at the end.\<close>

inductive interfered :: "('s \<Rightarrow> 's \<Rightarrow> bool) \<Rightarrow> ('s, 'r) task \<Rightarrow> 's \<Rightarrow> 'r \<Rightarrow> 's \<Rightarrow> bool" for R where
  ended: "R s s' \<Longrightarrow> interfered R (Finish r) s r s'"
| go_on: "R s s' \<Longrightarrow> interfered R (snd (f s')) (fst (f s')) r s2 \<Longrightarrow> interfered R (Await f) s r s2"

lemma interfered_alone:
  assumes "\<And>s. R s s" and "R (snd (run_task t s)) s'"
  shows "interfered R t s (fst (run_task t s)) s'"
  using assms(2)
proof (induction t arbitrary: s)
  case (Finish r)
  then show ?case by (simp add: run_task.simps interfered.ended)
next
  case (Await f)
  then have "R (snd (run_task (snd (f s)) (fst (f s)))) s'" by (simp add: run_await)
  from Await.IH [OF rangeI _ this] have "interfered R (snd (f s)) (fst (f s)) (fst (run_task (snd (f s)) (fst (f s)))) s'"
    by (simp add: prod_set_defs)
  with assms(1) show ?case by (auto simp: run_await intro: interfered.go_on)
qed

text \<open>
  A task is oblivious to what a view hides: in acceptable states with the same view it takes the
  same step on the view and goes on with the same rest.
\<close>

definition indifferent :: "('s \<Rightarrow> 'v) \<Rightarrow> ('s \<Rightarrow> bool) \<Rightarrow> ('s \<Rightarrow> 'r \<times> 's) \<Rightarrow> bool" where
  "indifferent view acceptable m \<longleftrightarrow>
    (\<forall>s1 s2. acceptable s1 \<longrightarrow> acceptable s2 \<longrightarrow> view s1 = view s2 \<longrightarrow>
      fst (m s1) = fst (m s2) \<and> view (snd (m s1)) = view (snd (m s2)) \<and> acceptable (snd (m s1)))"

inductive oblivious :: "('s \<Rightarrow> 'v) \<Rightarrow> ('s \<Rightarrow> bool) \<Rightarrow> ('s, 'r) task \<Rightarrow> bool" for view acceptable where
  finish: "oblivious view acceptable (Finish r)"
| await: "(\<And>s1 s2. acceptable s1 \<Longrightarrow> acceptable s2 \<Longrightarrow> view s1 = view s2 \<Longrightarrow>
      snd (f s1) = snd (f s2) \<and> view (fst (f s1)) = view (fst (f s2)) \<and> acceptable (fst (f s1))) \<Longrightarrow>
    (\<And>s. acceptable s \<Longrightarrow> oblivious view acceptable (snd (f s))) \<Longrightarrow> oblivious view acceptable (Await f)"

lemma oblivious_AwaitD:
  assumes "oblivious view acceptable (Await f)" and "acceptable s1" and "acceptable s2" and "view s1 = view s2"
  shows "snd (f s1) = snd (f s2) \<and> view (fst (f s1)) = view (fst (f s2)) \<and> acceptable (fst (f s1))"
    and "oblivious view acceptable (snd (f s1))"
  using assms(1)
proof (atomize(full), cases rule: oblivious.cases)
  case await
  from await(1) [OF assms(2-4)] await(2) [OF assms(2)]
  show "(snd (f s1) = snd (f s2) \<and> view (fst (f s1)) = view (fst (f s2)) \<and> acceptable (fst (f s1)))
      \<and> oblivious view acceptable (snd (f s1))" by blast
qed

lemma oblivious_atomic:
  assumes "indifferent view acceptable m"
  shows "oblivious view acceptable (atomic m)"
  unfolding atomic_def case_prod_beta
proof (rule oblivious.await)
  fix s1 s2 assume "acceptable s1" "acceptable s2" "view s1 = view s2"
  then have "fst (m s1) = fst (m s2) \<and> view (snd (m s1)) = view (snd (m s2)) \<and> acceptable (snd (m s1))"
    using assms unfolding indifferent_def by blast
  then show "snd (snd (m s1), Finish (fst (m s1))) = snd (snd (m s2), Finish (fst (m s2)))
      \<and> view (fst (snd (m s1), Finish (fst (m s1)))) = view (fst (snd (m s2), Finish (fst (m s2))))
      \<and> acceptable (fst (snd (m s1), Finish (fst (m s1))))" by simp
qed (simp add: oblivious.finish)

lemma oblivious_bind:
  assumes "oblivious view acceptable t" and "\<And>r. oblivious view acceptable (k r)"
  shows "oblivious view acceptable (bind_task t k)"
  using assms(1)
proof (induction rule: oblivious.induct)
  case (finish r)
  show ?case using assms(2) by simp
next
  case (await f)
  let ?g = "\<lambda>s. (map_prod (\<lambda>x. x) (\<lambda>t. bind_task t k) \<circ> f) s"
  have g: "fst (?g s) = fst (f s)" "snd (?g s) = bind_task (snd (f s)) k" for s
    by (simp_all add: map_prod_def case_prod_beta)
  show ?case
    unfolding bind_task.simps
  proof (rule oblivious.await)
    fix s1 s2 assume "acceptable s1" "acceptable s2" "view s1 = view s2"
    from await(1) [OF this] show "snd (?g s1) = snd (?g s2) \<and> view (fst (?g s1)) = view (fst (?g s2))
        \<and> acceptable (fst (?g s1))"
      unfolding g by simp
  next
    fix s assume "acceptable s"
    from await(3) [OF this] show "oblivious view acceptable (snd (?g s))" unfolding g .
  qed
qed

lemma oblivious_and_await:
  "oblivious view acceptable t \<Longrightarrow> (\<And>a. oblivious view acceptable (k a)) \<Longrightarrow>
    oblivious view acceptable (and_await t k)"
  unfolding and_await_def by (rule oblivious_bind) (auto intro: oblivious.finish split: sum.split)

lemma oblivious_awaiting_err:
  "oblivious view acceptable t \<Longrightarrow> oblivious view acceptable (awaiting_err g t)"
  unfolding awaiting_err_def map_task_def by (rule oblivious_bind) (auto intro: oblivious.finish)

lemma oblivious_for_each:
  "(\<And>x. oblivious view acceptable (f x)) \<Longrightarrow> oblivious view acceptable (for_each_await f xs)"
  by (induction xs) (auto intro: oblivious.finish oblivious_and_await)

text \<open>Run among others that leave the view alone, it does what it does alone.\<close>

lemma oblivious_serial:
  assumes "interfered R t s r s'" and "oblivious view acceptable t"
    and others: "\<And>s s'. R s s' \<Longrightarrow> acceptable s \<Longrightarrow> acceptable s' \<and> view s' = view s"
    and "acceptable s" and "acceptable s0" and "view s0 = view s"
  shows "r = fst (run_task t s0) \<and> view s' = view (snd (run_task t s0)) \<and> acceptable s'"
  using assms(1,2,4-6)
proof (induction arbitrary: s0 rule: interfered.induct)
  case (ended s s' r)
  with others [OF ended(1)] show ?case by (simp add: run_task.simps)
next
  case (go_on s s' f r s2)
  from others [OF go_on.hyps(1)] go_on.prems have s': "acceptable s'" "view s0 = view s'" by auto
  note here = oblivious_AwaitD [OF go_on.prems(1,3) s']
  have "acceptable (fst (f s'))"
    using oblivious_AwaitD(1) [OF go_on.prems(1) s'(1) go_on.prems(3) s'(2) [symmetric]] by blast
  with go_on.IH [of "fst (f s0)"] here show ?case by (simp add: run_await)
qed

section \<open>Pools of tasks\<close>

text \<open>
  The state and the tasks in flight, each with the job it was spawned for. Any task may take its
  next step, new jobs are spawned, a task may be dropped between two steps (its client has gone),
  and the environment acts.
\<close>

type_synonym ('s, 'j, 'r) pool = "'s \<times> ('j \<times> ('s, 'r) task) list"

inductive pool_step ::
  "('j \<Rightarrow> ('s, 'r) task) \<Rightarrow> ('s \<Rightarrow> 's \<Rightarrow> bool) \<Rightarrow> ('s, 'j, 'r) pool \<Rightarrow> ('s, 'j, 'r) pool \<Rightarrow> bool"
  for job_task env where
  spawn: "pool_step job_task env (s, p) (s, p @ [(j, job_task j)])"
| run: "i < length p \<Longrightarrow> p ! i = (j, Await f) \<Longrightarrow> f s = (s', t) \<Longrightarrow>
    pool_step job_task env (s, p) (s', p[i := (j, t)])"
| drop: "i < length p \<Longrightarrow> pool_step job_task env (s, p) (s, take i p @ drop (Suc i) p)"
| environment: "env s s' \<Longrightarrow> pool_step job_task env (s, p) (s', p)"

inductive pool_reach ::
  "('s \<Rightarrow> bool) \<Rightarrow> ('j \<Rightarrow> ('s, 'r) task) \<Rightarrow> ('s \<Rightarrow> 's \<Rightarrow> bool) \<Rightarrow> ('s, 'j, 'r) pool \<Rightarrow> bool"
  for initial job_task env where
  start: "initial s \<Longrightarrow> pool_reach initial job_task env (s, [])"
| step: "pool_reach initial job_task env x \<Longrightarrow> pool_step job_task env x y \<Longrightarrow> pool_reach initial job_task env y"

inductive_cases pool_stepE: "pool_step job_task env (s, p) (s', p')"

text \<open>A job may be run to its end at once.\<close>

lemma pool_finish:
  "pool_reach initial job_task env (s, p @ [(j, t)]) \<Longrightarrow>
    pool_reach initial job_task env (snd (run_task t s), p @ [(j, Finish (fst (run_task t s)))])"
proof (induction t arbitrary: s)
  case (Finish r)
  then show ?case by (simp add: run_task.simps)
next
  case (Await f)
  have "pool_step job_task env (s, p @ [(j, Await f)]) (fst (f s), (p @ [(j, Await f)])[length p := (j, snd (f s))])"
    by (rule pool_step.run) simp_all
  with Await.prems have "pool_reach initial job_task env (fst (f s), p @ [(j, snd (f s))])"
    by (auto dest: pool_reach.step)
  from Await.IH [OF rangeI _ this] show ?case by (simp add: run_await prod_set_defs)
qed

lemma pool_perform:
  assumes "pool_reach initial job_task env (s, p)"
  shows "pool_reach initial job_task env
    (snd (run_task (job_task j) s), p @ [(j, Finish (fst (run_task (job_task j) s)))])"
  by (rule pool_finish, rule pool_reach.step [OF assms pool_step.spawn])

lemma pool_steps_run:
  assumes "i < length p" and "p ! i = (j, t)"
  shows "(pool_step job_task env)\<^sup>*\<^sup>* (s, p)
    (snd (run_task t s), p[i := (j, Finish (fst (run_task t s)))])"
  using assms
proof (induction t arbitrary: s p)
  case (Finish r)
  then have "p[i := (j, Finish r)] = p" by (metis list_update_id)
  then show ?case by (simp add: run_task.simps)
next
  case (Await f)
  have "pool_step job_task env (s, p) (fst (f s), p[i := (j, snd (f s))])"
    by (rule pool_step.run [OF Await.prems]) simp
  moreover have "(pool_step job_task env)\<^sup>*\<^sup>* (fst (f s), p[i := (j, snd (f s))])
      (snd (run_task (Await f) s), p[i := (j, Finish (fst (run_task (Await f) s)))])"
    using Await.IH [OF rangeI, of "snd (f s)" s "p[i := (j, snd (f s))]" "fst (f s)"] Await.prems(1)
    by (simp add: run_await prod_set_defs)
  ultimately show ?case by (rule converse_rtranclp_into_rtranclp)
qed

text \<open>If a job changes something, one of its steps does.\<close>

lemma pool_changing_step:
  assumes "pool_reach initial job_task env (s, p @ [(j, t)])" and "v (snd (run_task t s)) \<noteq> v s"
  obtains s1 p1 s2 p2 where "pool_reach initial job_task env (s1, p1)"
    and "pool_step job_task env (s1, p1) (s2, p2)" and "v s2 \<noteq> v s1"
proof -
  have "\<exists>s1 p1 s2 p2. pool_reach initial job_task env (s1, p1)
      \<and> pool_step job_task env (s1, p1) (s2, p2) \<and> v s2 \<noteq> v s1"
    using assms
  proof (induction t arbitrary: s)
    case (Finish r)
    then show ?case by (simp add: run_task.simps)
  next
    case (Await f)
    have step: "pool_step job_task env (s, p @ [(j, Await f)])
        (fst (f s), (p @ [(j, Await f)])[length p := (j, snd (f s))])"
      by (rule pool_step.run) simp_all
    show ?case
    proof (cases "v (fst (f s)) = v s")
      case True
      from step Await.prems(1) have "pool_reach initial job_task env (fst (f s), p @ [(j, snd (f s))])"
        by (auto dest: pool_reach.step)
      from Await.IH [OF rangeI _ this] Await.prems(2) True show ?thesis
        by (simp add: run_await prod_set_defs)
    next
      case False
      with step Await.prems(1) show ?thesis by blast
    qed
  qed
  with that show thesis by blast
qed

text \<open>
  The contract of a pool: all steps are evolutions, each job's task is safe among evolutions and
  keeps the job's own guarantee, and what is sound stays sound.
\<close>

locale guarded_pool =
  fixes initial :: "'s \<Rightarrow> bool" and job_task :: "'j \<Rightarrow> ('s, 'r) task" and env :: "'s \<Rightarrow> 's \<Rightarrow> bool"
    and evolves :: "'s \<Rightarrow> 's \<Rightarrow> bool" and sound :: "'s \<Rightarrow> bool"
    and guarantee :: "'j \<Rightarrow> 's \<Rightarrow> 's \<Rightarrow> bool" and outcome :: "'j \<Rightarrow> 'r \<Rightarrow> 's \<Rightarrow> bool"
  assumes evolves_rely: "rely evolves"
    and initial_sound: "initial s \<Longrightarrow> sound s"
    and evolves_sound: "evolves s s' \<Longrightarrow> sound s \<Longrightarrow> sound s'"
    and env_evolves: "env s s' \<Longrightarrow> evolves s s'"
    and guarantee_evolves: "guarantee j s s' \<Longrightarrow> evolves s s'"
    and job_safe: "sound s \<Longrightarrow> safe evolves (guarantee j) (outcome j) (job_task j) s"
begin

definition guarded :: "('s, 'j, 'r) pool \<Rightarrow> bool" where
  "guarded x \<longleftrightarrow> sound (fst x)
    \<and> (\<forall>(j, t) \<in> set (snd x). safe evolves (guarantee j) (outcome j) t (fst x))"

lemma guarded_evolves:
  assumes "guarded (s, p)" and "evolves s s'" and "set p' \<subseteq> set p"
  shows "guarded (s', p')"
  using assms evolves_sound [of s s'] safe_stable [OF _ evolves_rely, of _ _ _ s s']
  by (fastforce simp: guarded_def)

lemma run_guarantee:
  assumes "guarded (s, p)" and "i < length p" and "p ! i = (j, Await f)"
  shows "guarantee j s (fst (f s))"
    and "safe evolves (guarantee j) (outcome j) (snd (f s)) (fst (f s))"
proof -
  have "(j, Await f) \<in> set p" using assms(2,3) by (metis nth_mem)
  with assms(1) have "safe evolves (guarantee j) (outcome j) (Await f) s"
    by (auto simp: guarded_def)
  from safe_step [OF this rely_refl [OF evolves_rely]]
  show "guarantee j s (fst (f s))"
    and "safe evolves (guarantee j) (outcome j) (snd (f s)) (fst (f s))" by blast+
qed

lemma guarded_step:
  assumes "guarded x" and "pool_step job_task env x y"
  shows "guarded y"
  using assms(2,1)
proof cases
  case (spawn s p j)
  with assms(1) show ?thesis by (auto simp: guarded_def job_safe)
next
  case (run i p j f s s' t)
  note g = run_guarantee [OF assms(1) [unfolded run(1)] run(3,4)]
  have "guarded (s', p)"
    by (rule guarded_evolves [OF assms(1) [unfolded run(1)]])
      (use g(1) run(5) guarantee_evolves in \<open>auto\<close>)
  moreover have "set (p[i := (j, t)]) \<subseteq> insert (j, t) (set p)" by (rule set_update_subset_insert)
  ultimately show ?thesis using g(2) run(2,5) by (fastforce simp: guarded_def)
next
  case (drop i p s)
  have "set (take i p @ List.drop (Suc i) p) \<subseteq> set p" by (auto dest: in_set_takeD in_set_dropD)
  from guarded_evolves [OF assms(1) [unfolded drop(1)] rely_refl [OF evolves_rely] this] drop show ?thesis
    by simp
next
  case (environment s s' p)
  with assms(1) env_evolves show ?thesis by (auto intro: guarded_evolves)
qed

lemma reach_guarded: "pool_reach initial job_task env x \<Longrightarrow> guarded x"
proof (induction rule: pool_reach.induct)
  case (step x y)
  from guarded_step [OF step.IH step.hyps(2)] show ?case .
qed (simp add: guarded_def initial_sound)

lemma reach_sound: "pool_reach initial job_task env (s, p) \<Longrightarrow> sound s"
  using reach_guarded by (auto simp: guarded_def)

lemma steps_evolve:
  assumes "(pool_step job_task env)\<^sup>*\<^sup>* x y" and "pool_reach initial job_task env x"
  shows "evolves (fst x) (fst y) \<and> pool_reach initial job_task env y"
  using assms
proof (induction rule: rtranclp_induct)
  case base
  then show ?case by (simp add: rely_refl [OF evolves_rely])
next
  case (step y z)
  then have reach: "pool_reach initial job_task env y" and ev: "evolves (fst x) (fst y)" by auto
  have "evolves (fst y) (fst z)"
    using step.hyps(2)
  proof cases
    case (run i p j f s s' t)
    with run_guarantee(1) [OF reach_guarded [OF reach, unfolded run(1)] run(3,4)] guarantee_evolves
    show ?thesis by auto
  qed (auto simp: rely_refl [OF evolves_rely] env_evolves)
  with ev reach step.hyps(2) show ?case
    by (auto intro: rely_trans [OF evolves_rely] pool_reach.step)
qed

text \<open>A finished job's result, and who made a step that is not the environment's.\<close>

lemma reach_outcome:
  assumes "pool_reach initial job_task env (s, p)" and "(j, Finish r) \<in> set p"
  shows "outcome j r s"
proof -
  have "safe evolves (guarantee j) (outcome j) (Finish r) s"
    using reach_guarded [OF assms(1)] assms(2) by (auto simp: guarded_def)
  then show ?thesis by (rule safe_outcome) (rule rely_refl [OF evolves_rely])
qed

lemma step_by_job:
  assumes "pool_reach initial job_task env (s, p)" and "pool_step job_task env (s, p) (s', p')"
  shows "s' = s \<or> env s s' \<or> (\<exists>j t. (j, t) \<in> set p \<and> guarantee j s s')"
  using assms(2)
proof cases
  case (run i j f t)
  with run_guarantee(1) [OF reach_guarded [OF assms(1)] run(2,3)] have "guarantee j s s'" by simp
  with run(2,3) show ?thesis by (metis nth_mem)
qed auto

end

end
