(* ===== verification/Service_Tasks.thy ===== *)
theory Service_Tasks
  imports Tasks Backend
begin

text \<open>
  The operations of the service as tasks, statement by statement: between two of their statements
  (and between a statement and a call of the chain backend or of the event source) the runtime
  runs other tasks. Each task run alone is the operation of the sequential model.
\<close>

section \<open>Awaiting the database\<close>

definition await_pg :: "(pg, 'e, 'a) action \<Rightarrow> ('c \<times> pg, 'e + 'a) task" where
  "await_pg m = atomic (on_pg m)"

lemma run_await_pg [task_simps]: "run_task (await_pg m) = on_pg m"
  by (simp add: await_pg_def run_atomic)

lemma on_pg_simps [task_simps]:
  "on_pg (ok a) = ok a" "on_pg (fail e) = fail e" "on_pg (lift_result r) = lift_result r"
  "on_pg (and_then m f) = and_then (on_pg m) (\<lambda>a. on_pg (f a))"
  "on_pg (map_err g m) = map_err g (on_pg m)"
  by (auto simp: fun_eq_iff on_pg_def and_then_apply map_err_apply split: prod.splits sum.splits)

lemma lift_result_simps [task_simps]:
  "lift_result (Inr a) = ok a" "lift_result (Inl e) = fail e"
  by (simp_all add: fun_eq_iff)

lemma on_pg_for_each [task_simps]: "on_pg (for_each f xs) = for_each (\<lambda>x. on_pg (f x)) xs"
  by (induction xs) (simp_all add: task_simps del: ok_apply)

lemma on_pg_case_option [task_simps]:
  "on_pg (case x of None \<Rightarrow> m | Some a \<Rightarrow> f a) = (case x of None \<Rightarrow> on_pg m | Some a \<Rightarrow> on_pg (f a))"
  "run_task (case x of None \<Rightarrow> t | Some a \<Rightarrow> k a) =
    (case x of None \<Rightarrow> run_task t | Some a \<Rightarrow> run_task (k a))"
  by (simp_all split: option.split)

lemma on_pg_case_sum [task_simps]:
  "on_pg (case r of Inl e \<Rightarrow> m e | Inr a \<Rightarrow> f a) = (case r of Inl e \<Rightarrow> on_pg (m e) | Inr a \<Rightarrow> on_pg (f a))"
  "run_task (case r of Inl e \<Rightarrow> t e | Inr a \<Rightarrow> k a) =
    (case r of Inl e \<Rightarrow> run_task (t e) | Inr a \<Rightarrow> run_task (k a))"
  by (simp_all split: sum.split)

lemma on_pg_if [task_simps]:
  "on_pg (if b then m else n) = (if b then on_pg m else on_pg n)"
  "run_task (if b then t else u) = (if b then run_task t else run_task u)"
  by simp_all

section \<open>The read-only handlers with two statements\<close>

definition list_page_task ::
  "bool \<Rightarrow> int \<Rightarrow> int \<Rightarrow> (pg \<Rightarrow> 'r list) \<Rightarrow> ('c \<times> pg, failure + 'r list \<times> pagination) task" where
  "list_page_task checks q_page q_page_size matching =
    (let page = normalize_page q_page; page_size = normalize_page_size q_page_size in
     and_await (Finish (page_offset checks page page_size)) (\<lambda>offset.
     and_await (await_pg (select (\<lambda>db. limit_offset page_size offset (matching db)))) (\<lambda>rows.
     and_await (await_pg (select (\<lambda>db. Inr (int (length (matching db)))))) (\<lambda>total.
     Finish (Inr (rows,
       \<lparr> pg_page = page, pg_page_size = page_size, pg_total = total,
         pg_total_pages = total_pages_of total page_size \<rparr>))))))"

definition search_farmers_task ::
  "bool \<Rightarrow> (json \<Rightarrow> string) \<Rightarrow> (string \<Rightarrow> string \<Rightarrow> bool) \<Rightarrow> (farmer_row list \<Rightarrow> farmer_row list) \<Rightarrow>
    string option \<Rightarrow> int \<Rightarrow> int \<Rightarrow> ('c \<times> pg, failure + farmer_search_item list \<times> pagination) task" where
  "search_farmers_task checks as_text ilike arrange q q_page q_page_size =
    (let page = max q_page 1; page_size = clamp 1 100 q_page_size in
     and_await (Finish (page_offset checks page page_size)) (\<lambda>offset.
     let search_pattern = (case q of Some s \<Rightarrow> s | None \<Rightarrow> []) in
     and_await (await_pg (select (\<lambda>db. Inr (int (length (matching_farmers as_text ilike search_pattern db))))))
       (\<lambda>total.
     and_await (await_pg (select (\<lambda>db. limit_offset page_size offset
         (newest_first arrange (matching_farmers as_text ilike search_pattern db))))) (\<lambda>rows.
     Finish (Inr (map search_item rows,
       \<lparr> pg_page = page, pg_page_size = page_size, pg_total = total,
         pg_total_pages = total_pages_of total page_size \<rparr>))))))"

section \<open>Authentication\<close>

definition verify_check_task ::
  "('k, 'g) crypto \<Rightarrow> string \<Rightarrow> verify_request \<Rightarrow> int \<Rightarrow> ('c \<times> pg, app_error + unit) task" where
  "verify_check_task cr domain req now = await_pg (verify_check cr domain req now)"

definition verify_commit_task ::
  "('k, 'g) crypto \<Rightarrow> string + int \<Rightarrow> verify_request \<Rightarrow> string \<Rightarrow> int \<Rightarrow>
    ('c \<times> pg, failure + session) task" where
  "verify_commit_task cr ttl req token now =
    and_await (await_pg (map_err (\<lambda>e. Failed (Database e)) (consume_nonce (rq_nonce req)))) (\<lambda>_.
    let token_hash = hash_token cr token in
    case ttl of
      Inl e \<Rightarrow> Finish (Inl (Failed (InternalError e)))
    | Inr session_ttl \<Rightarrow>
        (case cr_add_date cr now session_ttl of
           None \<Rightarrow> Finish (Inl Panic)
         | Some expires_at \<Rightarrow>
             and_await (await_pg (map_err (\<lambda>e. Failed (Database e)) (insert_session
               \<lparr> se_token_hash = token_hash, se_address = rq_address req, se_roles = [''farmer''],
                 se_expires_at = expires_at \<rparr>))) (\<lambda>_.
             Finish (Inr \<lparr> sn_token = token, sn_address = rq_address req, sn_roles = [''farmer''],
                  sn_expires_at = expires_at \<rparr>))))"

definition verify_task ::
  "('k, 'g) crypto \<Rightarrow> string \<Rightarrow> string + int \<Rightarrow> verify_request \<Rightarrow> string \<Rightarrow> int \<Rightarrow> int \<Rightarrow>
    ('c \<times> pg, failure + session) task" where
  "verify_task cr domain ttl req token now1 now2 =
    and_await (awaiting_err Failed (verify_check_task cr domain req now1)) (\<lambda>_. verify_commit_task cr ttl req token now2)"

section \<open>Farmers\<close>

definition register_task ::
  "(string \<Rightarrow> bool) \<Rightarrow> (farmer_metadata \<Rightarrow> string) \<Rightarrow>
    (string \<Rightarrow> string \<Rightarrow> 'c \<Rightarrow> (chain_error + chain_farmer) \<times> 'c) \<Rightarrow>
    register_farmer_request \<Rightarrow> string \<Rightarrow> ('c \<times> pg, app_error + farmer) task" where
  "register_task is_pk hash chain_register req actor =
    (case parse_farmer_identifier is_pk (req_address req) of
       Inl e \<Rightarrow> Finish (Inl e)
     | Inr address \<Rightarrow>
        if actor \<noteq> address then Finish (Inl (Unauthorized ERR_UNAUTHORIZED_ACTOR))
        else if trim (name (req_metadata req)) = [] then
          Finish (Inl (BadRequest ''metadata.name must be non-empty''))
        else
          (let canonical_hash = hash (req_metadata req) in
           if (case req_metadata_hash req of Some provided \<Rightarrow> provided \<noteq> canonical_hash | None \<Rightarrow> False)
           then Finish (Inl (BadRequest ''provided metadataHash does not match canonical hash''))
           else
             and_await (awaiting_err map_chain_error (atomic (on_backend (chain_register address canonical_hash))))
               (\<lambda>chain_farmer.
             let ident = farmer_id address in
             and_await (await_pg (map_err Database
               (insert_farmer address (req_metadata req) canonical_hash chain_farmer))) (\<lambda>_.
             Finish (Inr \<lparr> f_address = address, f_id = ident, f_registered = True,
                  f_created_ledger = Some (cf_created_ledger chain_farmer),
                  f_updated_ledger = Some (cf_updated_ledger chain_farmer),
                  f_metadata = req_metadata req, f_metadata_hash = canonical_hash,
                  f_verification_markers = [] \<rparr>)))))"

definition update_task ::
  "(string \<Rightarrow> bool) \<Rightarrow> (farmer_metadata \<Rightarrow> string) \<Rightarrow>
    (string \<Rightarrow> string \<Rightarrow> 'c \<Rightarrow> (chain_error + chain_farmer) \<times> 'c) \<Rightarrow>
    string \<Rightarrow> farmer_metadata \<Rightarrow> string \<Rightarrow> ('c \<times> pg, app_error + farmer) task" where
  "update_task is_pk hash chain_update input m actor =
    (case parse_farmer_identifier is_pk input of
       Inl e \<Rightarrow> Finish (Inl e)
     | Inr address \<Rightarrow>
        if actor \<noteq> address then Finish (Inl (Unauthorized ERR_UNAUTHORIZED_ACTOR))
        else if trim (name m) = [] then Finish (Inl (BadRequest ''metadata.name must be non-empty''))
        else
          (let canonical_hash = hash m in
           and_await (awaiting_err map_chain_error (atomic (on_backend (chain_update address canonical_hash))))
             (\<lambda>chain_farmer.
           and_await (await_pg (map_err Database
             (update_farmer_row address m canonical_hash chain_farmer))) (\<lambda>_.
           await_pg (get_farmer is_pk address)))))"

definition register_handler_task ::
  "('k, 'g) crypto \<Rightarrow> (string \<Rightarrow> bool) \<Rightarrow> (farmer_metadata \<Rightarrow> string) \<Rightarrow>
    (string \<Rightarrow> string \<Rightarrow> 'c \<Rightarrow> (chain_error + chain_farmer) \<times> 'c) \<Rightarrow>
    string option \<Rightarrow> int \<Rightarrow> register_farmer_request \<Rightarrow> ('c \<times> pg, app_error + nat \<times> farmer) task" where
  "register_handler_task cr is_pk hash chain_register header now req =
    and_await (await_pg (from_request_parts cr header now)) (\<lambda>actor.
    and_await (register_task is_pk hash chain_register req (au_address actor)) (\<lambda>farmer.
    Finish (Inr (201, farmer))))"

definition update_handler_task ::
  "('k, 'g) crypto \<Rightarrow> (string \<Rightarrow> bool) \<Rightarrow> (farmer_metadata \<Rightarrow> string) \<Rightarrow>
    (string \<Rightarrow> string \<Rightarrow> 'c \<Rightarrow> (chain_error + chain_farmer) \<times> 'c) \<Rightarrow>
    string option \<Rightarrow> int \<Rightarrow> string \<Rightarrow> farmer_metadata \<Rightarrow> ('c \<times> pg, app_error + farmer) task" where
  "update_handler_task cr is_pk hash chain_update header now address m =
    and_await (await_pg (from_request_parts cr header now)) (\<lambda>actor.
    update_task is_pk hash chain_update address m (au_address actor))"

section \<open>The indexer\<close>

definition internal_task ::
  "(sqlx_error \<Rightarrow> string) \<Rightarrow> ('s, sqlx_error + 'a) task \<Rightarrow> ('s, chain_events_error + 'a) task" where
  "internal_task text_of t = awaiting_err (\<lambda>e. ChainInternal (text_of e)) t"

fun apply_finalized_task ::
  "(sqlx_error \<Rightarrow> string) \<Rightarrow> (string \<Rightarrow> string option) \<Rightarrow> chain_event list \<Rightarrow> nat \<Rightarrow>
    ('c \<times> pg, chain_events_error + nat) task" where
  "apply_finalized_task text_of uuid [] applied = Finish (Inr applied)"
| "apply_finalized_task text_of uuid (event # rest) applied =
    and_await (internal_task text_of (await_pg (apply_event uuid event))) (\<lambda>consumed.
    apply_finalized_task text_of uuid rest (if consumed then applied + 1 else applied))"

text \<open>The calls of the event source wait for the network.\<close>

definition ingest_task ::
  "(sqlx_error \<Rightarrow> string) \<Rightarrow> (string \<Rightarrow> string option) \<Rightarrow>
    (string \<Rightarrow> cursor \<Rightarrow> chain_events_error + chain_event list) \<Rightarrow> chain_events_error + int \<Rightarrow>
    string \<Rightarrow> ('c \<times> pg, chain_events_error + nat) task" where
  "ingest_task text_of uuid pull head cid =
    and_await (internal_task text_of (await_pg (get_cursor cid))) (\<lambda>cur.
    and_await (atomic (lift_result (pull cid cur))) (\<lambda>events.
    if events = [] then Finish (Inr 0)
    else
      and_await (atomic (lift_result head)) (\<lambda>head.
      let finality_floor = head - TRUSTED_CUTOFF in
      and_await (internal_task text_of (for_each_await (\<lambda>e. await_pg (insert_statement e)) events)) (\<lambda>_.
      let lst = (case events of [] \<Rightarrow> cur | _ \<Rightarrow>
                  Cursor (ledger_sequence (last events)) (operation_index (last events))
                    (event_index (last events))) in
      and_await (internal_task text_of (await_pg (set_cursor cid lst))) (\<lambda>_.
      and_await (internal_task text_of (await_pg (finalized_events cid finality_floor))) (\<lambda>finalized.
      and_await (apply_finalized_task text_of uuid finalized 0) (\<lambda>applied.
      Finish (Inr (length events)))))))))"

text \<open>
  The background loop: in each tick a pass for each contract, whose errors are logged, then the
  sleep. The ticks are given with the answers of the source to each pass.
\<close>

fun round_task ::
  "(sqlx_error \<Rightarrow> string) \<Rightarrow> (string \<Rightarrow> string option) \<Rightarrow>
    (string \<times> (string \<Rightarrow> cursor \<Rightarrow> chain_events_error + chain_event list)
      \<times> (chain_events_error + int)) list \<Rightarrow> ('c \<times> pg, unit) task" where
  "round_task text_of uuid [] = Finish ()"
| "round_task text_of uuid ((cid, pull, head) # rest) =
    bind_task (ingest_task text_of uuid pull head cid) (\<lambda>logged. round_task text_of uuid rest)"

fun indexer_task ::
  "(sqlx_error \<Rightarrow> string) \<Rightarrow> (string \<Rightarrow> string option) \<Rightarrow>
    (string \<times> (string \<Rightarrow> cursor \<Rightarrow> chain_events_error + chain_event list)
      \<times> (chain_events_error + int)) list list \<Rightarrow> ('c \<times> pg, unit) task" where
  "indexer_task text_of uuid [] = Finish ()"
| "indexer_task text_of uuid (ticked # later) =
    bind_task (round_task text_of uuid ticked) (\<lambda>_.
    bind_task (atomic (\<lambda>s. ((), s))) (\<lambda>slept. indexer_task text_of uuid later))"

definition rewind_task :: "string \<Rightarrow> int \<Rightarrow> ('c \<times> pg, sqlx_error + unit) task" where
  "rewind_task cid from_ledger =
    and_await (await_pg (execute (\<lambda>db. Inr (db\<lparr>indexed_events :=
      filter (\<lambda>e. \<not> (contract_id e = cid \<and> ledger_sequence e \<ge> from_ledger))
        (indexed_events db)\<rparr>))))
    (\<lambda>_. await_pg (execute (\<lambda>db. Inr (db\<lparr>indexer_cursors :=
      filter (\<lambda>row. fst row \<noteq> cid) (indexer_cursors db)\<rparr>))))"

section \<open>Run alone\<close>

lemma run_map_task [task_simps]: "run_task (map_task g t) s = (g (fst (run_task t s)), snd (run_task t s))"
  by (simp add: run_map case_prod_beta)

lemma run_readers [task_simps]:
  "run_task (list_page_task checks p k matching) = on_pg (list_page checks p k matching)"
  "run_task (search_farmers_task checks as_text ilike arrange q p k) =
    on_pg (search_farmers checks as_text ilike arrange q p k)"
  by (simp_all add: list_page_task_def list_page_def search_farmers_task_def search_farmers_def Let_def task_simps split: sum.split)

lemma run_verify [task_simps]:
  "run_task (verify_task cr domain ttl req token now1 now2) = on_pg (verify cr domain ttl req token now1 now2)"
  by (simp add: verify_task_def verify_def verify_check_task_def verify_commit_task_def verify_commit_def
      Let_def task_simps split: sum.split option.split)

lemma run_register [task_simps]:
  "run_task (register_task is_pk hash reg req actor) = register_farmer is_pk hash reg req actor"
  by (simp add: register_task_def register_farmer_def Let_def task_simps split: sum.split)

lemma run_update [task_simps]:
  "run_task (update_task is_pk hash upd input m actor) = update_metadata is_pk hash upd input m actor"
  by (simp add: update_task_def update_metadata_def Let_def task_simps split: sum.split)

lemma run_handlers [task_simps]:
  "run_task (register_handler_task cr is_pk hash reg header now req) =
    register_farmer_handler cr is_pk hash reg header now req"
  "run_task (update_handler_task cr is_pk hash upd header now address m) =
    update_metadata_handler cr is_pk hash upd header now address m"
  by (simp_all add: register_handler_task_def register_farmer_handler_def update_handler_task_def
      update_metadata_handler_def task_simps)

lemma run_internal [task_simps]: "run_task (internal_task text_of t) = map_err (\<lambda>e. ChainInternal (text_of e)) (run_task t)"
  by (simp add: internal_task_def task_simps)

lemma run_apply_finalized [task_simps]:
  "run_task (apply_finalized_task text_of uuid evs n) = on_pg (apply_finalized text_of uuid evs n)"
  by (induction evs arbitrary: n) (simp_all add: internal_def task_simps)

lemma run_ingest [task_simps]:
  "run_task (ingest_task text_of uuid pull head cid) = on_pg (ingest text_of uuid pull head cid)"
  by (simp add: ingest_task_def ingest_def internal_def append_events_def Let_def task_simps cong: if_cong)

lemma run_round: "run_task (round_task text_of uuid ticked) (c, db) = ((), (c, indexer_round text_of uuid ticked db))"
  by (induction text_of uuid ticked db rule: indexer_round.induct)
    (simp_all add: run_task.simps run_bind run_ingest on_pg_def case_prod_beta)

lemma run_indexer: "run_task (indexer_task text_of uuid ticks) (c, db) = ((), (c, fold (indexer_round text_of uuid) ticks db))"
  by (induction ticks arbitrary: db) (simp_all add: run_task.simps(1) run_bind run_round run_atomic)

lemma run_rewind [task_simps]: "run_task (rewind_task cid l) = on_pg (rewind cid l)"
  by (simp add: rewind_task_def rewind_def task_simps)

section \<open>Jobs\<close>

fun serve_farmers_task ::
  "('c, 'k, 'g) backend \<Rightarrow> draw \<Rightarrow> farmers_request \<Rightarrow> ('c \<times> pg, response) task" where
  "serve_farmers_task b d (SearchFarmers q) =
    map_task (answer_or_abort b search_response_json)
      (search_farmers_task (be_checks b) (be_as_text b) (be_ilike b) (be_arrange b) (sq_q q) (sq_page q)
        (sq_page_size q))"
| "serve_farmers_task b d (GetFarmer address) =
    map_task (answer b (\<lambda>f. (200, farmer_json f))) (await_pg (get_farmer_handler (be_is_pk b) address))"
| "serve_farmers_task b d (RegisterFarmer header req) =
    map_task (answer b (\<lambda>(status, f). (status, farmer_json f)))
      (register_handler_task (be_crypto b) (be_is_pk b) (be_hash b) (be_register b) header (dr_now1 d) req)"
| "serve_farmers_task b d (UpdateMetadata header address m) =
    map_task (answer b (\<lambda>f. (200, farmer_json f)))
      (update_handler_task (be_crypto b) (be_is_pk b) (be_hash b) (be_update b) header (dr_now1 d) address m)"

fun serve_auth_task ::
  "('c, 'k, 'g) backend \<Rightarrow> draw \<Rightarrow> auth_request \<Rightarrow> ('c \<times> pg, response) task" where
  "serve_auth_task b d (PostChallenge address) =
    map_task (answer b (\<lambda>c. (200, challenge_json c)))
      (await_pg (challenge_handler (be_crypto b) (be_state b) address (dr_nonce d) (dr_now1 d)))"
| "serve_auth_task b d (PostVerify req) =
    map_task (answer_or_abort b (session_json (be_time b)))
      (verify_task (be_crypto b) (st_domain (be_state b)) (be_from_std b (st_session_ttl (be_state b))) req
        (dr_token d) (dr_now1 d) (dr_now2 d))"
| "serve_auth_task b d (GetSession token) =
    map_task (answer b (\<lambda>x. (200, session_row_json (be_time b) x)))
      (await_pg (session_handler (be_crypto b) token (dr_now1 d)))"

fun serve_projections_task ::
  "('c, 'k, 'g) backend \<Rightarrow> projections_request \<Rightarrow> ('c \<times> pg, response) task" where
  "serve_projections_task b (GetVerification row_id) =
    map_task (answer_or_abort b verification_json) (await_pg (get_verification_handler row_id))"
| "serve_projections_task b (ListVerifications q) =
    map_task (answer_or_abort b verification_list_json)
      (list_page_task (be_checks b) (vq_page q) (vq_page_size q) (matching_verifications q))"
| "serve_projections_task b (GetEscrow row_id) =
    map_task (answer_or_abort b escrow_json) (await_pg (get_escrow_handler row_id))"
| "serve_projections_task b (ListEscrows q) =
    map_task (answer_or_abort b escrow_list_json)
      (list_page_task (be_checks b) (eq_page q) (eq_page_size q) (matching_escrows q))"
| "serve_projections_task b (GetFinancing row_id) =
    map_task (answer_or_abort b financing_json) (await_pg (get_financing_handler row_id))"
| "serve_projections_task b (ListFinancings q) =
    map_task (answer_or_abort b financing_list_json)
      (list_page_task (be_checks b) (fq_page q) (fq_page_size q) (matching_financings q))"

fun serve_task :: "('c, 'k, 'g) backend \<Rightarrow> draw \<Rightarrow> request \<Rightarrow> ('c \<times> pg, response) task" where
  "serve_task b d HealthRequest = map_task (answer b (\<lambda>h. (200, health_json h))) (await_pg health)"
| "serve_task b d (FarmersRequest r) = serve_farmers_task b d r"
| "serve_task b d (AuthRequest r) = serve_auth_task b d r"
| "serve_task b d (ProjectionsRequest r) = serve_projections_task b r"

datatype job =
    Request draw request
  | Pass "string \<Rightarrow> cursor \<Rightarrow> chain_events_error + chain_event list" "chain_events_error + int" string
  | Rewind string int

datatype ending =
    Response response
  | PassEnded "chain_events_error + nat"
  | RewindEnded "sqlx_error + unit"

fun job_task :: "('c, 'k, 'g) backend \<Rightarrow> job \<Rightarrow> ('c \<times> pg, ending) task" where
  "job_task b (Request d r) = map_task Response (serve_task b d r)"
| "job_task b (Pass pull head cid) =
    map_task PassEnded (ingest_task (be_sqlx_text b) (be_uuid b) pull head cid)"
| "job_task b (Rewind cid from_ledger) = map_task RewindEnded (rewind_task cid from_ledger)"

text \<open>What a job does in the sequential model.\<close>

fun perform :: "('c, 'k, 'g) backend \<Rightarrow> job \<Rightarrow> 'c \<times> pg \<Rightarrow> ending \<times> 'c \<times> pg" where
  "perform b (Request d r) s = reply Response (serve b d r s)"
| "perform b (Pass pull head cid) s =
    reply PassEnded (on_pg (ingest (be_sqlx_text b) (be_uuid b) pull head cid) s)"
| "perform b (Rewind cid from_ledger) s = reply RewindEnded (on_pg (rewind cid from_ledger) s)"

lemma run_map_reply: "run_task (map_task g t) s = reply g (run_task t s)"
  by (simp add: run_map_task reply_def)

lemma run_serve: "run_task (serve_task b d r) s = serve b d r s"
proof (cases r)
  case HealthRequest
  then show ?thesis by (simp add: run_map_reply task_simps)
next
  case (FarmersRequest fr)
  then show ?thesis by (cases fr) (simp_all add: run_map_reply task_simps search_farmers_handler_def)
next
  case (AuthRequest ar)
  then show ?thesis by (cases ar) (simp_all add: run_map_reply task_simps verify_handler_def)
next
  case (ProjectionsRequest pr)
  then show ?thesis
    by (cases pr) (simp_all add: run_map_reply task_simps list_verifications_handler_def
        list_escrows_handler_def list_financings_handler_def)
qed

text \<open>
  The tasks are the operations of the sequential model cut into statements: run alone, a task gives
  the same answer, error or outcome and the same chain and database, for every request, pass and
  rewind and from every state, also when the connection is lost halfway.
\<close>

lemma tasks_run_alone: "run_task (job_task b j) s = perform b j s"
  by (cases j) (simp_all add: run_map_reply run_serve task_simps)

end
