(* ===== verification/Service_Rely.thy ===== *)
theory Service_Rely
  imports Service_Tasks Backend_Properties
begin

text \<open>
  Rely and guarantee for the service: what stays sound of the database (\<open>service_sound\<close>), how it
  evolves (\<open>service_evolves\<close>), what a step of each job guarantees (\<open>job_guarantee\<close>), and that the
  statements of passes and rewinds keep to it.
\<close>

section \<open>What is sound and how it evolves\<close>

text \<open>Every session is that of an address whose challenge has been consumed.\<close>

definition sessions_backed :: "pg \<Rightarrow> bool" where
  "sessions_backed db \<longleftrightarrow> tbl_ok ch_nonce (auth_challenges db)
    \<and> (\<forall>s \<in> set (auth_sessions db). \<exists>ch \<in> set (auth_challenges db). ch_used ch \<and> ch_address ch = se_address s)"

definition service_sound :: "(farmer_metadata \<Rightarrow> string) \<Rightarrow> pg \<Rightarrow> bool" where
  "service_sound hash db \<longleftrightarrow> tables_ok hash db \<and> sessions_backed db"

text \<open>Sessions, challenges and farmers are never deleted, and a consumed challenge stays so.\<close>

definition grows :: "pg \<Rightarrow> pg \<Rightarrow> bool" where
  "grows db db' \<longleftrightarrow>
    set (auth_sessions db) \<subseteq> set (auth_sessions db')
    \<and> (\<forall>ch \<in> set (auth_challenges db). \<exists>ch' \<in> set (auth_challenges db').
        ch_nonce ch' = ch_nonce ch \<and> ch_address ch' = ch_address ch \<and> (ch_used ch \<longrightarrow> ch_used ch'))
    \<and> fa_address ` set (farmers db) \<subseteq> fa_address ` set (farmers db')"

definition service_evolves :: "(farmer_metadata \<Rightarrow> string) \<Rightarrow> 'c \<times> pg \<Rightarrow> 'c \<times> pg \<Rightarrow> bool" where
  "service_evolves hash s s' \<longleftrightarrow>
    (service_sound hash (snd s) \<longrightarrow> service_sound hash (snd s')) \<and> grows (snd s) (snd s')"

text \<open>
  The environment: connections are lost and restored, the database's clock is set, and the chain
  backend changes by itself.
\<close>

definition service_env :: "'c \<times> pg \<Rightarrow> 'c \<times> pg \<Rightarrow> bool" where
  "service_env s s' \<longleftrightarrow> (\<exists>n lost now. snd s' = (snd s)\<lparr>budget := n, ack_lost := lost, pg_now := now\<rparr>)"

text \<open>What a job promises of each of its steps, and of its ending.\<close>

definition job_guarantee :: "('c, 'k, 'g) backend \<Rightarrow> job \<Rightarrow> 'c \<times> pg \<Rightarrow> 'c \<times> pg \<Rightarrow> bool" where
  "job_guarantee b j s s' \<longleftrightarrow>
    service_evolves (be_hash b) s s'
    \<and> (\<forall>a. profile_of (snd s') a \<noteq> profile_of (snd s) a \<longrightarrow>
        (\<exists>d r. j = Request d r \<and> owner_request b (dr_now1 d) a r (snd s)))"

definition session_stored :: "('c, 'k, 'g) backend \<Rightarrow> string \<Rightarrow> string \<Rightarrow> pg \<Rightarrow> bool" where
  "session_stored b token a db \<longleftrightarrow>
    (\<exists>x \<in> set (auth_sessions db). se_token_hash x = hash_token (be_crypto b) token \<and> se_address x = a)"

definition farmer_stored :: "('c, 'k, 'g) backend \<Rightarrow> string \<Rightarrow> pg \<Rightarrow> bool" where
  "farmer_stored b input db \<longleftrightarrow>
    (\<exists>a. parse_farmer_identifier (be_is_pk b) input = Inr a \<and> a \<in> fa_address ` set (farmers db))"

fun acknowledged :: "('c, 'k, 'g) backend \<Rightarrow> job \<Rightarrow> ending \<Rightarrow> 'c \<times> pg \<Rightarrow> bool" where
  "acknowledged b (Request d (AuthRequest (PostVerify req))) (Response (Answer status body)) s =
    (status = 200 \<longrightarrow> session_stored b (dr_token d) (rq_address req) (snd s))"
| "acknowledged b (Request d (FarmersRequest (RegisterFarmer header req))) (Response (Answer status body)) s =
    (status = 201 \<longrightarrow> farmer_stored b (req_address req) (snd s))"
| "acknowledged b j e s = True"

section \<open>Laws of the evolution\<close>

lemma grows_refl [simp]: "grows db db"
  by (auto simp: grows_def)

lemma grows_trans: "grows a b \<Longrightarrow> grows b c \<Longrightarrow> grows a c"
  unfolding grows_def by (intro conjI ballI; fastforce)

lemma grows_frame:
  "auth_sessions db' = auth_sessions db \<Longrightarrow> auth_challenges db' = auth_challenges db \<Longrightarrow>
    fa_address ` set (farmers db) \<subseteq> fa_address ` set (farmers db') \<Longrightarrow> grows db db'"
  by (auto simp: grows_def)

lemma service_evolves_rely: "rely (service_evolves hash)"
  by (auto simp: rely_def service_evolves_def intro: grows_trans)

lemma tables_ok_frame:
  "farmers db' = farmers db \<Longrightarrow> verification_projection db' = verification_projection db \<Longrightarrow>
    escrow_projection db' = escrow_projection db \<Longrightarrow> financing_projection db' = financing_projection db \<Longrightarrow>
    indexed_events db' = indexed_events db \<Longrightarrow> tables_ok hash db' = tables_ok hash db"
  by (simp add: tables_ok_def farmers_inv_def farmers_ok_def projections_typed_def store_ok_def)

lemma same_tables_evolve:
  assumes "same_auth (snd s) (snd s')" and "tables_ok hash (snd s) \<longrightarrow> tables_ok hash (snd s')"
    and "fa_address ` set (farmers (snd s)) \<subseteq> fa_address ` set (farmers (snd s'))"
  shows "service_evolves hash s s'"
  using assms grows_frame [of "snd s'" "snd s"]
  by (simp add: service_evolves_def service_sound_def sessions_backed_def same_auth_def)

lemma service_env_evolves: "service_env s s' \<Longrightarrow> service_evolves hash s s'"
  by (rule same_tables_evolve)
    (auto simp: service_env_def same_auth_def tables_ok_fault)

text \<open>The steps that leave authentication and profiles alone: those of the indexer.\<close>

definition indexer_step :: "('c, 'k, 'g) backend \<Rightarrow> pg \<Rightarrow> pg \<Rightarrow> bool" where
  "indexer_step b db db' \<longleftrightarrow>
    (tables_ok (be_hash b) db \<longrightarrow> tables_ok (be_hash b) db') \<and> same_auth db db'
    \<and> (\<forall>a. profile_of db' a = profile_of db a)
    \<and> fa_address ` set (farmers db) \<subseteq> fa_address ` set (farmers db')"

lemma indexer_step_guarantee:
  "indexer_step b (snd s) (snd s') \<Longrightarrow> job_guarantee b j s s'"
  by (auto simp: indexer_step_def job_guarantee_def intro: same_tables_evolve)

text \<open>A step that only spends the connection's budget.\<close>

lemma indexer_step_budget: "indexer_step b db (db\<lparr>budget := n\<rparr>)"
  using tables_ok_blind [of "be_hash b"]
  by (simp add: indexer_step_def fault_blind_def profile_of_def)

lemma indexer_step_refl: "indexer_step b db db"
  using indexer_step_budget [of b db "budget db"] by simp

text \<open>A statement that keeps every predicate blind to faults only spends budget.\<close>

lemma reading_step:
  assumes "\<And>P. fault_blind P \<Longrightarrow> keeps P m"
  obtains n where "snd (m db) = db\<lparr>budget := n\<rparr>"
proof -
  have "(snd (m db))\<lparr>budget := None\<rparr> = db\<lparr>budget := None\<rparr>"
    by (rule keepsD [OF assms]) (simp_all add: fault_blind_def)
  then have "snd (m db) = db\<lparr>budget := budget (snd (m db))\<rparr>" by (cases "snd (m db)"; cases db) auto
  then show thesis by (rule that)
qed

text \<open>A statement that keeps the parts one by one is an indexer step.\<close>

lemma keeps_indexer_step:
  assumes "keeps (tables_ok (be_hash b)) m" and "keeps (same_auth db) m"
    and "\<And>a p. keeps (\<lambda>x. profile_of x a = p) m"
    and "\<And>a. keeps (\<lambda>x. a \<in> fa_address ` set (farmers x)) m"
  shows "indexer_step b db (snd (m db))"
  unfolding indexer_step_def
proof (intro conjI allI impI subsetI)
  show "tables_ok (be_hash b) db \<Longrightarrow> tables_ok (be_hash b) (snd (m db))" by (rule keepsD [OF assms(1)])
  show "same_auth db (snd (m db))" by (rule keepsD [OF assms(2)]) simp
  show "profile_of (snd (m db)) a = profile_of db a" for a by (rule keepsD [OF assms(3)]) simp
  show "a \<in> fa_address ` set (farmers db) \<Longrightarrow> a \<in> fa_address ` set (farmers (snd (m db)))" for a
    by (rule keepsD [OF assms(4)])
qed

lemma safe_indexer:
  fixes b :: "('c, 'k, 'g) backend" and s :: "'c \<times> pg"
  assumes "\<And>db. indexer_step b db (snd (m db))"
  shows "safe (service_evolves (be_hash b)) (job_guarantee b j) any_outcome (await_pg m) s"
  unfolding await_pg_def
proof (rule steps_atomic)
  fix s :: "'c \<times> pg"
  show "job_guarantee b j s (snd (on_pg m s))"
    by (rule indexer_step_guarantee, cases s) (simp add: on_pg_state assms)
qed

lemma safe_reading:
  fixes b :: "('c, 'k, 'g) backend" and s :: "'c \<times> pg"
  assumes "\<And>P. fault_blind P \<Longrightarrow> keeps P m"
  shows "safe (service_evolves (be_hash b)) (job_guarantee b j) any_outcome (await_pg m) s"
proof (rule safe_indexer)
  fix db
  obtain n where "snd (m db) = db\<lparr>budget := n\<rparr>" using reading_step [OF assms] .
  then show "indexer_step b db (snd (m db))" by (simp add: indexer_step_budget)
qed

text \<open>The chain backend's call touches no table; neither does a call of the event source.\<close>

lemma safe_chain:
  fixes b :: "('c, 'k, 'g) backend" and s :: "'c \<times> pg"
  assumes "\<And>s. snd (snd (m s)) = snd s"
  shows "safe (service_evolves (be_hash b)) (job_guarantee b j) any_outcome (atomic m) s"
  by (rule steps_atomic, rule indexer_step_guarantee) (simp add: assms indexer_step_refl)

section \<open>The indexer's jobs\<close>

text \<open>No statement deletes a farmer.\<close>

lemma address_kept_blind: "fault_blind (\<lambda>x. a \<in> fa_address ` set (farmers x))"
  by (simp add: fault_blind_def)

lemma tbl_keys_update_mono:
  assumes "\<And>r. key (f r) = key r"
  shows "key ` set t \<subseteq> key ` set (tbl_update key k f t)"
  using tbl_keys_update [of key k f t] assms by (simp flip: set_map)

lemma tbl_keys_upsert_mono:
  assumes "\<And>r. key (merge r) = key r"
  shows "key ` set t \<subseteq> key ` set (tbl_upsert key new merge t)"
  using tbl_keys_update_mono [of key merge t "key new"] assms by (auto simp: tbl_upsert_def)

lemma address_kept_event: "keeps (\<lambda>x. a \<in> fa_address ` set (farmers x)) (apply_event uuid e)"
proof (cases "contract_name e = ''identity''")
  case True
  note kept = tbl_keys_upsert_mono [of fa_address, THEN subsetD] tbl_keys_update_mono [of fa_address, THEN subsetD]
  have "keeps (\<lambda>x. a \<in> fa_address ` set (farmers x)) (upsert_identity_farmer e)"
    unfolding upsert_identity_farmer_def insert_farmer_row_def Let_def
    by (auto intro!: keeps_case_option keeps_fail keeps_execute address_kept_blind kept
        simp: identity_conflict_def simp del: set_map split: if_splits)
  moreover have "keeps (\<lambda>x. a \<in> fa_address ` set (farmers x)) (update_identity_metadata e)"
    "keeps (\<lambda>x. a \<in> fa_address ` set (farmers x)) (append_identity_marker e)"
    unfolding update_identity_metadata_def append_identity_marker_def
    by (auto intro!: keeps_case_option keeps_fail keeps_execute address_kept_blind kept
        simp: identity_metadata_set_def identity_marker_set_def)
  ultimately show ?thesis unfolding apply_event_identity [OF True] by (intro keeps_intros)
next
  case False
  have "farmers (snd (apply_event uuid e db)) = farmers db" for db
    by (rule keepsD [OF apply_event_frame(4) [OF False] refl])
  then show ?thesis by (simp add: keeps_def)
qed

lemma indexer_step_event: "indexer_step b db (snd (apply_event uuid e db))"
proof (rule keeps_indexer_step)
  have "keeps store_ok (apply_event uuid e)"
    by (rule keeps_apply_event) (simp add: projection_blind_def store_ok_ignores store_ok_blind)
  with keeps_inv_event [of "be_hash b" uuid e] keeps_typed_event [of uuid e]
  show "keeps (tables_ok (be_hash b)) (apply_event uuid e)" by (auto simp: keeps_def tables_ok_def)
  show "keeps (same_auth db) (apply_event uuid e)" by (rule keeps_apply_event) (simp add: projection_blind_def)
qed (fact keeps_profile_event address_kept_event)+

lemma safe_if: "(c \<Longrightarrow> safe R G Q t s) \<Longrightarrow> (\<not> c \<Longrightarrow> safe R G Q u s) \<Longrightarrow> safe R G Q (if c then t else u) s"
  by simp

text \<open>The statements of the event store.\<close>

lemma indexer_step_store:
  assumes "\<And>n t. store_ok db \<Longrightarrow> f (db\<lparr>budget := n\<rparr>) = Inr t \<Longrightarrow> store_ok t"
    and "\<And>n t. f (db\<lparr>budget := n\<rparr>) = Inr t \<Longrightarrow>
      t\<lparr>indexed_events := [], indexer_cursors := []\<rparr>
        = db\<lparr>budget := n, indexed_events := [], indexer_cursors := []\<rparr>"
  shows "indexer_step b db (snd (execute f db))"
proof -
  have step: "indexer_step b db t" if "f (db\<lparr>budget := n\<rparr>) = Inr t" for n t
  proof -
    from assms(2) [OF that] have
      t: "t = db\<lparr>budget := n, indexed_events := indexed_events t, indexer_cursors := indexer_cursors t\<rparr>"
      by (cases t; cases db) simp
    have "farmers_inv (be_hash b) t = farmers_inv (be_hash b) db" by (rule farmers_inv_eq) (subst t, simp)
    moreover have "projections_typed t = projections_typed db" by (subst t, simp add: projections_typed_def)
    moreover have "same_auth db t" by (subst t, simp)
    moreover have "farmers t = farmers db" by (subst t, simp)
    ultimately show ?thesis
      using assms(1) [OF _ that] by (simp add: indexer_step_def tables_ok_def profile_of_def)
  qed
  show ?thesis
  proof (cases "tick db")
    case None
    with step [of "budget db"] show ?thesis by (auto simp: execute_def indexer_step_refl split: sum.split)
  next
    case (Some db0)
    then obtain n where "db0 = db\<lparr>budget := n\<rparr>" by (auto dest: tick_Some)
    with Some step show ?thesis by (auto simp: execute_def indexer_step_budget split: sum.split)
  qed
qed

lemma indexer_step_statements:
  "indexer_step b db (snd (insert_statement e db))"
  "indexer_step b db (snd (set_cursor cid cur db))"
  "indexer_step b db (snd (execute (\<lambda>db. Inr (db\<lparr>indexed_events := filter p (indexed_events db)\<rparr>)) db))"
  "indexer_step b db (snd (execute (\<lambda>db. Inr (db\<lparr>indexer_cursors := filter q (indexer_cursors db)\<rparr>)) db))"
  by (auto simp: insert_statement_def set_cursor_def store_ok_def insert_event_ok distinct_map_filter
        intro!: indexer_step_store)

lemma keeps_store_reads:
  "fault_blind P \<Longrightarrow> keeps P (get_cursor cid)" "fault_blind P \<Longrightarrow> keeps P (finalized_events cid l)"
  unfolding get_cursor_def finalized_events_def by (auto intro!: keeps_intros)

lemma safe_pass:
  fixes b :: "('c, 'k, 'g) backend" and s :: "'c \<times> pg"
  shows "safe (service_evolves (be_hash b)) (job_guarantee b j) any_outcome
    (ingest_task text_of uuid pull head cid) s"
proof -
  note steps = steps_awaiting_err [OF service_evolves_rely] steps_and_await [OF service_evolves_rely]
    steps_for_each [OF service_evolves_rely] steps_finish
  have applied: "safe (service_evolves (be_hash b)) (job_guarantee b j) any_outcome
      (apply_finalized_task text_of uuid evs n) s" for evs n and s :: "'c \<times> pg"
    by (induction evs arbitrary: n s)
      (simp_all only: apply_finalized_task.simps internal_task_def steps safe_indexer [OF indexer_step_event])
  show ?thesis
    unfolding ingest_task_def internal_task_def Let_def
    by (intro steps safe_if applied safe_indexer [OF indexer_step_statements(1)]
        safe_indexer [OF indexer_step_statements(2)] safe_reading [OF keeps_store_reads(1)]
        safe_reading [OF keeps_store_reads(2)] safe_chain)
      (simp_all add: case_prod_beta)
qed

lemma safe_rewind:
  fixes b :: "('c, 'k, 'g) backend" and s :: "'c \<times> pg"
  shows "safe (service_evolves (be_hash b)) (job_guarantee b j) any_outcome (rewind_task cid l) s"
  unfolding rewind_task_def
  by (intro steps_and_await service_evolves_rely safe_indexer indexer_step_statements)

section \<open>Statements that carry facts\<close>

text \<open>
  A statement in a sound state: what is known of the state so far, and what the statement
  establishes, holds until the job's next statement because the others only let the tables grow.
\<close>

lemma safe_statement:
  fixes b :: "('c, 'k, 'g) backend" and s :: "'c \<times> pg"
  assumes "service_sound (be_hash b) (snd s)"
    and step: "\<And>s'. grows (snd s) (snd s') \<Longrightarrow> service_sound (be_hash b) (snd s') \<Longrightarrow>
      job_guarantee b j s' (snd (m s')) \<and> Q (fst (m s')) (snd (snd (m s')))"
    and mono: "\<And>r db db'. Q r db \<Longrightarrow> grows db db' \<Longrightarrow> Q r db'"
  shows "safe (service_evolves (be_hash b)) (job_guarantee b j)
    (\<lambda>r s'. service_sound (be_hash b) (snd s') \<and> grows (snd s) (snd s') \<and> Q r (snd s')) (atomic m) s"
proof (rule safe_atomic)
  fix s' assume "service_evolves (be_hash b) s s'"
  with assms(1) have s': "grows (snd s) (snd s')" "service_sound (be_hash b) (snd s')"
    by (simp_all add: service_evolves_def)
  from step [OF s'] show "job_guarantee b j s' (snd (m s'))" ..
  fix s'' assume R: "service_evolves (be_hash b) (snd (m s')) s''"
  have "service_evolves (be_hash b) s' (snd (m s'))"
    using step [OF s'] by (simp add: job_guarantee_def)
  with R s' mono [of "fst (m s')" "snd (snd (m s'))" "snd s''"] step [OF s']
  show "service_sound (be_hash b) (snd s'') \<and> grows (snd s) (snd s'') \<and> Q (fst (m s')) (snd s'')"
    by (auto simp: service_evolves_def intro: grows_trans)
qed

lemma safe_reading_carry:
  fixes b :: "('c, 'k, 'g) backend" and s :: "'c \<times> pg"
  assumes "service_sound (be_hash b) (snd s)" and "\<And>P. fault_blind P \<Longrightarrow> keeps P m"
    and "\<And>db. Q (fst (m db)) (snd (m db))" and "\<And>r db db'. Q r db \<Longrightarrow> grows db db' \<Longrightarrow> Q r db'"
  shows "safe (service_evolves (be_hash b)) (job_guarantee b j)
    (\<lambda>r s'. service_sound (be_hash b) (snd s') \<and> grows (snd s) (snd s') \<and> Q r (snd s')) (await_pg m) s"
  unfolding await_pg_def
proof (rule safe_statement [OF assms(1) _ assms(4)])
  fix s' :: "'c \<times> pg"
  obtain c db where s': "s' = (c, db)" by force
  obtain n where "snd (m db) = db\<lparr>budget := n\<rparr>" using reading_step [OF assms(2)] .
  then have "indexer_step b db (snd (m db))" by (simp add: indexer_step_budget)
  then show "job_guarantee b j s' (snd (on_pg m s')) \<and> Q (fst (on_pg m s')) (snd (snd (on_pg m s')))"
    using assms(3) [of db] by (simp add: s' on_pg_apply indexer_step_guarantee case_prod_beta)
qed

lemma safe_chain_carry:
  fixes b :: "('c, 'k, 'g) backend" and s :: "'c \<times> pg"
  assumes "service_sound (be_hash b) (snd s)" and "\<And>s. snd (snd (m s)) = snd s"
  shows "safe (service_evolves (be_hash b)) (job_guarantee b j)
    (\<lambda>r s'. service_sound (be_hash b) (snd s') \<and> grows (snd s) (snd s') \<and> True) (atomic m) s"
  by (rule safe_statement [OF assms(1), where Q = "\<lambda>_ _. True"])
    (simp_all add: indexer_step_guarantee assms(2) indexer_step_refl)

lemma execute_state_cases [consumes 1]:
  assumes "m = execute f"
  obtains (idle) n e where "snd (m db) = db\<lparr>budget := n\<rparr>" and "fst (m db) = Inl e"
  | (written) n where "f (db\<lparr>budget := n\<rparr>) = Inr (snd (m db))"
proof (cases "tick db")
  case None
  show thesis
  proof (cases "\<exists>x. ack_lost db \<and> f db = Inr x")
    case True
    with None have "f (db\<lparr>budget := budget db\<rparr>) = Inr (snd (m db))" by (auto simp: assms execute_def)
    then show thesis by (rule written)
  next
    case False
    with None have "snd (m db) = db\<lparr>budget := budget db\<rparr>" "fst (m db) = Inl Io"
      by (auto simp: assms execute_def split: sum.split)
    then show thesis by (rule idle)
  qed
next
  case (Some db0)
  then obtain n where n: "db0 = db\<lparr>budget := n\<rparr>" by (auto dest: tick_Some)
  with Some idle [of n] written [of n] show thesis by (cases "f db0") (auto simp: assms execute_def)
qed

end
