(* ===== verification/Concurrency.thy ===== *)
theory Concurrency
  imports Service_Rely
begin

text \<open>
  The service with its jobs interleaved statement by statement: sign-ins, registrations and updates
  keep to the guarantees of \<open>Service_Rely\<close>, and the pool of jobs is an instance of \<open>guarded_pool\<close>.
\<close>

section \<open>Authentication\<close>

text \<open>Writing the authentication tables.\<close>

lemma auth_write_guarantee:
  assumes db': "db' = db\<lparr>budget := n, auth_challenges := x, auth_sessions := y\<rparr>"
    and "sessions_backed db \<Longrightarrow> sessions_backed db'" and "grows db db'"
  shows "job_guarantee b j (c, db) (c, db')"
proof -
  have "tables_ok (be_hash b) db' = tables_ok (be_hash b) db" by (rule tables_ok_frame) (simp_all add: db')
  moreover have "profile_of db' a = profile_of db a" for a by (simp add: db' profile_of_def)
  ultimately show ?thesis
    using assms(2,3) by (simp add: job_guarantee_def service_evolves_def service_sound_def)
qed

lemma insert_challenge_guarantee:
  "job_guarantee b j (c, db) (c, snd (insert_challenge row db))"
  using insert_challenge_def [of row]
proof (cases rule: execute_state_cases [of _ _ db])
  case (idle n e)
  then show ?thesis by (simp add: indexer_step_guarantee indexer_step_budget)
next
  case (written n)
  then have fresh: "ch_nonce row \<notin> ch_nonce ` set (auth_challenges db)"
    and db': "snd (insert_challenge row db) = db\<lparr>budget := n, auth_challenges := auth_challenges db @ [row],
      auth_sessions := auth_sessions db\<rparr>"
    by (auto split: if_splits)
  show ?thesis
    by (rule auth_write_guarantee [OF db']) (use fresh in \<open>auto simp: db' sessions_backed_def grows_def\<close>)
qed

lemma safe_challenge:
  fixes b :: "('c, 'k, 'g) backend" and s :: "'c \<times> pg"
  shows "safe (service_evolves (be_hash b)) (job_guarantee b j) any_outcome
    (await_pg (challenge_handler cr st address nonce now)) s"
  unfolding await_pg_def
proof (rule steps_atomic)
  fix s :: "'c \<times> pg"
  obtain c db where s: "s = (c, db)" by force
  have "snd (challenge_handler cr st address nonce now db) = db
      \<or> (\<exists>row. snd (challenge_handler cr st address nonce now db) = snd (insert_challenge row db))"
    by (auto simp: challenge_handler_def issue_challenge_def and_then_apply map_err_apply Let_def
        case_prod_beta split: sum.splits)
  then show "job_guarantee b j s (snd (on_pg (challenge_handler cr st address nonce now) s))"
    by (auto simp: s on_pg_state insert_challenge_guarantee indexer_step_guarantee indexer_step_refl)
qed

text \<open>The challenge of a request, issued and consumed.\<close>

definition issued :: "string \<Rightarrow> string \<Rightarrow> pg \<Rightarrow> bool" where
  "issued nonce a db \<longleftrightarrow> (\<exists>ch \<in> set (auth_challenges db). ch_nonce ch = nonce \<and> ch_address ch = a)"

definition consumed :: "string \<Rightarrow> pg \<Rightarrow> bool" where
  "consumed a db \<longleftrightarrow> (\<exists>ch \<in> set (auth_challenges db). ch_used ch \<and> ch_address ch = a)"

lemma issued_grows: "issued nonce a db \<Longrightarrow> grows db db' \<Longrightarrow> issued nonce a db'"
  and consumed_grows: "consumed a db \<Longrightarrow> grows db db' \<Longrightarrow> consumed a db'"
  and session_stored_grows: "session_stored b token a db \<Longrightarrow> grows db db' \<Longrightarrow> session_stored b token a db'"
  and farmer_stored_grows: "farmer_stored b input db \<Longrightarrow> grows db db' \<Longrightarrow> farmer_stored b input db'"
  unfolding issued_def consumed_def session_stored_def farmer_stored_def grows_def by (blast, metis, blast, blast)

lemma consume_nonce_guarantee:
  "job_guarantee b j (c, db) (c, snd (consume_nonce nonce db))"
  "issued nonce a db \<Longrightarrow> fst (consume_nonce nonce db) = Inr u \<Longrightarrow> consumed a (snd (consume_nonce nonce db))"
proof -
  let ?use = "tbl_update ch_nonce nonce (\<lambda>r. r\<lparr>ch_used := True\<rparr>) (auth_challenges db)"
  have "job_guarantee b j (c, db) (c, snd (consume_nonce nonce db))
    \<and> (issued nonce a db \<longrightarrow> fst (consume_nonce nonce db) = Inr u \<longrightarrow> consumed a (snd (consume_nonce nonce db)))"
    using consume_nonce_def [of nonce]
  proof (cases rule: execute_state_cases [of _ _ db])
    case (idle n e)
    then show ?thesis by (simp add: indexer_step_guarantee indexer_step_budget)
  next
    case (written n)
    then have use: "snd (consume_nonce nonce db) = db\<lparr>budget := n, auth_challenges := ?use\<rparr>" by simp
    have db': "snd (consume_nonce nonce db) = db\<lparr>budget := n, auth_challenges := ?use,
        auth_sessions := auth_sessions db\<rparr>"
      unfolding use by (cases db) simp
    have nonces: "tbl_ok ch_nonce ?use = tbl_ok ch_nonce (auth_challenges db)"
      by (simp add: tbl_keys_update)
    have used: "\<exists>ch' \<in> set ?use. ch_nonce ch' = ch_nonce ch \<and> ch_address ch' = ch_address ch
        \<and> (ch_used ch \<or> ch_nonce ch = nonce \<longrightarrow> ch_used ch')" if "ch \<in> set (auth_challenges db)" for ch
      using that by (intro bexI [of _ "if ch_nonce ch = nonce then ch\<lparr>ch_used := True\<rparr> else ch"])
        (auto simp: tbl_update_def)
    have "job_guarantee b j (c, db) (c, snd (consume_nonce nonce db))"
    proof (rule auth_write_guarantee [OF db'])
      show "sessions_backed db \<Longrightarrow> sessions_backed (snd (consume_nonce nonce db))"
        unfolding sessions_backed_def db' by (simp add: nonces) (metis used)
      show "grows db (snd (consume_nonce nonce db))"
        unfolding grows_def db' using used by auto
    qed
    moreover have "issued nonce a db \<longrightarrow> consumed a (snd (consume_nonce nonce db))"
      unfolding issued_def consumed_def db' by simp (metis used)
    ultimately show ?thesis by blast
  qed
  then show "job_guarantee b j (c, db) (c, snd (consume_nonce nonce db))"
    and "issued nonce a db \<Longrightarrow> fst (consume_nonce nonce db) = Inr u \<Longrightarrow> consumed a (snd (consume_nonce nonce db))"
    by blast+
qed

lemma insert_session_guarantee:
  assumes "consumed (se_address row) db"
  shows "job_guarantee b j (c, db) (c, snd (insert_session row db))"
    and "fst (insert_session row db) = Inr u \<Longrightarrow> row \<in> set (auth_sessions (snd (insert_session row db)))"
proof -
  have "job_guarantee b j (c, db) (c, snd (insert_session row db))
    \<and> (fst (insert_session row db) = Inr u \<longrightarrow> row \<in> set (auth_sessions (snd (insert_session row db))))"
    using insert_session_def [of row]
  proof (cases rule: execute_state_cases [of _ _ db])
    case (idle n e)
    then show ?thesis by (simp add: indexer_step_guarantee indexer_step_budget)
  next
    case (written n)
    then have db': "snd (insert_session row db) = db\<lparr>budget := n, auth_challenges := auth_challenges db,
        auth_sessions := auth_sessions db @ [row]\<rparr>"
      by (auto split: if_splits)
    have "job_guarantee b j (c, db) (c, snd (insert_session row db))"
      by (rule auth_write_guarantee [OF db'])
        (use assms in \<open>auto simp: db' sessions_backed_def grows_def consumed_def\<close>)
    then show ?thesis by (simp add: db')
  qed
  then show "job_guarantee b j (c, db) (c, snd (insert_session row db))"
    and "fst (insert_session row db) = Inr u \<Longrightarrow> row \<in> set (auth_sessions (snd (insert_session row db)))"
    by blast+
qed

lemma keeps_verify_check: "fault_blind P \<Longrightarrow> keeps P (verify_check cr domain req now)"
  unfolding verify_check_def Let_def
  by (auto intro!: keeps_intros split: sum.split)

lemma verify_check_issued:
  assumes "fst (verify_check cr domain req now db) = Inr u"
  shows "issued (rq_nonce req) (rq_address req) (snd (verify_check cr domain req now db))"
proof -
  have "verify_check cr domain req now db = (Inr u, snd (verify_check cr domain req now db))"
    using assms by (simp add: prod_eq_iff)
  from verify_check_query [OF this] have "acceptable cr domain req now (snd (verify_check cr domain req now db))"
    by blast
  then show ?thesis
    by (auto simp: acceptable_def find_challenge_def issued_def find_Some_iff split: option.splits)
qed

text \<open>The two writes of a verification, with what they establish for the rest of it.\<close>

lemma safe_consume:
  fixes b :: "('c, 'k, 'g) backend" and s :: "'c \<times> pg"
  assumes "service_sound (be_hash b) (snd s)" and "issued nonce a (snd s)"
  shows "safe (service_evolves (be_hash b)) (job_guarantee b j)
    (\<lambda>r s'. service_sound (be_hash b) (snd s') \<and> grows (snd s) (snd s')
      \<and> ((\<exists>u. r = Inr u) \<longrightarrow> consumed a (snd s')))
    (await_pg (map_err g (consume_nonce nonce))) s"
  unfolding await_pg_def
proof (rule safe_statement [OF assms(1)])
  fix s' :: "'c \<times> pg" assume "grows (snd s) (snd s')"
  let ?m = "on_pg (map_err g (consume_nonce nonce))"
  obtain c db where s': "s' = (c, db)" by force
  have "issued nonce a db" using issued_grows [OF assms(2) \<open>grows (snd s) (snd s')\<close>] by (simp add: s')
  from consume_nonce_guarantee(1) [of b j c db] consume_nonce_guarantee(2) [OF this, of "()"]
  show "job_guarantee b j s' (snd (?m s')) \<and> ((\<exists>u. fst (?m s') = Inr u) \<longrightarrow> consumed a (snd (snd (?m s'))))"
    by (force simp: s' on_pg_apply map_err_apply case_prod_beta split: sum.splits)
qed (auto intro: consumed_grows)

lemma safe_open_session:
  fixes b :: "('c, 'k, 'g) backend" and s :: "'c \<times> pg"
  assumes "service_sound (be_hash b) (snd s)" and "consumed (se_address row) (snd s)"
    and "se_token_hash row = hash_token (be_crypto b) token"
  shows "safe (service_evolves (be_hash b)) (job_guarantee b j)
    (\<lambda>r s'. service_sound (be_hash b) (snd s') \<and> grows (snd s) (snd s')
      \<and> ((\<exists>u. r = Inr u) \<longrightarrow> session_stored b token (se_address row) (snd s')))
    (await_pg (map_err g (insert_session row))) s"
  unfolding await_pg_def
proof (rule safe_statement [OF assms(1)])
  fix s' :: "'c \<times> pg" assume "grows (snd s) (snd s')"
  let ?m = "on_pg (map_err g (insert_session row))"
  obtain c db where s': "s' = (c, db)" by force
  have "consumed (se_address row) db"
    using consumed_grows [OF assms(2) \<open>grows (snd s) (snd s')\<close>] by (simp add: s')
  from insert_session_guarantee(1) [OF this, of b j c] insert_session_guarantee(2) [OF this, of "()"] assms(3)
  show "job_guarantee b j s' (snd (?m s'))
      \<and> ((\<exists>u. fst (?m s') = Inr u) \<longrightarrow> session_stored b token (se_address row) (snd (snd (?m s'))))"
    by (force simp: s' on_pg_apply map_err_apply case_prod_beta session_stored_def split: sum.splits)
qed (auto intro: session_stored_grows)

lemma safe_verify:
  fixes b :: "('c, 'k, 'g) backend" and s :: "'c \<times> pg"
  assumes "service_sound (be_hash b) (snd s)"
  shows "safe (service_evolves (be_hash b)) (job_guarantee b j)
    (\<lambda>r s'. \<forall>x. r = Inr x \<longrightarrow> session_stored b token (rq_address req) (snd s'))
    (verify_task (be_crypto b) domain ttl req token now1 now2) s"
proof -
  let ?R = "service_evolves (be_hash b) :: 'c \<times> pg \<Rightarrow> _" and ?G = "job_guarantee b j"
  let ?Q = "\<lambda>r (s' :: 'c \<times> pg). \<forall>x. r = Inr x \<longrightarrow> session_stored b token (rq_address req) (snd s')"
  let ?row = "\<lambda>x. \<lparr> se_token_hash = hash_token (be_crypto b) token, se_address = rq_address req,
    se_roles = [''farmer''], se_expires_at = x \<rparr>"
  have stable: "stable ?R ?Q"
    unfolding stable_def service_evolves_def by (blast intro: session_stored_grows)
  have last: "safe ?R ?G ?Q (Finish (Inr x)) s'" if "session_stored b token (rq_address req) (snd s')"
    for x and s' :: "'c \<times> pg"
    by (rule safe_Finish [OF stable]) (simp add: that)
  have error: "safe ?R ?G ?Q (Finish (Inl e)) s'" for e and s' :: "'c \<times> pg"
    by (rule safe_Finish [OF stable]) simp
  have opened: "safe ?R ?G ?Q (and_await (await_pg (map_err (\<lambda>e. Failed (Database e)) (insert_session (?row x))))
      (\<lambda>_. Finish (Inr y))) s'"
    if "service_sound (be_hash b) (snd s')" and "consumed (rq_address req) (snd s')" for s' :: "'c \<times> pg" and x y
  proof -
    have "consumed (se_address (?row x)) (snd s')" using that(2) by simp
    from safe_open_session [OF that(1) this, of token _ "\<lambda>e. Failed (Database e)"] show ?thesis
      by (rule safe_and_await [OF _ service_evolves_rely]) (use last error in auto)
  qed
  have commit: "safe ?R ?G ?Q (verify_commit_task (be_crypto b) ttl req token now2) s'"
    if "service_sound (be_hash b) (snd s')" and "issued (rq_nonce req) (rq_address req) (snd s')" for s' :: "'c \<times> pg"
    unfolding verify_commit_task_def Let_def
    by (rule safe_and_await [OF safe_consume [OF that, of j "\<lambda>e. Failed (Database e)"] service_evolves_rely])
      (use error opened in \<open>auto split: sum.split option.split\<close>)
  have reads: "safe ?R ?G (\<lambda>r s'. service_sound (be_hash b) (snd s') \<and> grows (snd s) (snd s')
      \<and> ((\<exists>u. r = Inr u) \<longrightarrow> issued (rq_nonce req) (rq_address req) (snd s')))
      (verify_check_task (be_crypto b) domain req now1) s"
    unfolding verify_check_task_def
    by (rule safe_reading_carry [OF assms keeps_verify_check]) (auto dest: verify_check_issued intro: issued_grows)
  have checked: "stable ?R (\<lambda>r s'. service_sound (be_hash b) (snd s') \<and> grows (snd s) (snd s')
      \<and> ((\<exists>u. r = Inr u) \<longrightarrow> issued (rq_nonce req) (rq_address req) (snd s')))"
    unfolding stable_def service_evolves_def by (blast intro: issued_grows grows_trans)
  have check: "safe ?R ?G (\<lambda>r s'. service_sound (be_hash b) (snd s') \<and> grows (snd s) (snd s')
      \<and> ((\<exists>u. r = Inr u) \<longrightarrow> issued (rq_nonce req) (rq_address req) (snd s')))
      (awaiting_err Failed (verify_check_task (be_crypto b) domain req now1)) s"
    unfolding awaiting_err_def
    by (rule safe_map [OF reads service_evolves_rely], rule safe_Finish [OF checked])
      (auto simp: map_sum_def split: sum.splits)
  show ?thesis
    unfolding verify_task_def
    by (rule safe_and_await [OF check service_evolves_rely]) (use error commit in auto)
qed

section \<open>Farmers\<close>

text \<open>The caller of a request: the holder of an unexpired session for the bearer token.\<close>

definition holder :: "('c, 'k, 'g) backend \<Rightarrow> string option \<Rightarrow> int \<Rightarrow> string \<Rightarrow> pg \<Rightarrow> bool" where
  "holder b header now a db \<longleftrightarrow>
    (\<exists>token. bearer_token header = Inr token \<and> (\<exists>x \<in> set (auth_sessions db).
      se_token_hash x = hash_token (be_crypto b) token \<and> now < se_expires_at x \<and> se_address x = a))"

lemma holder_grows: "holder b header now a db \<Longrightarrow> grows db db' \<Longrightarrow> holder b header now a db'"
  unfolding holder_def grows_def by blast

lemma holder_authorised:
  assumes "holder b header now a db" and "service_sound (be_hash b) db"
    and "parse_farmer_identifier (be_is_pk b) input = Inr a"
  shows "authorised (be_crypto b) (be_is_pk b) header now input db"
  using assms by (auto simp: holder_def authorised_def service_sound_def sessions_backed_def)

lemma extraction_holder:
  "fst (from_request_parts (be_crypto b) header now db) = Inr u \<Longrightarrow>
    holder b header now (au_address u) (snd (from_request_parts (be_crypto b) header now db))"
  using extracted_user [OF surjective_pairing, of "be_crypto b" header now db]
  by (auto simp: holder_def)

text \<open>The two writes change the profile of one address.\<close>

lemma profile_write_guarantee:
  assumes "db' = db\<lparr>budget := n, farmers := t\<rparr>" and "tables_ok (be_hash b) db \<Longrightarrow> tables_ok (be_hash b) db'"
    and "fa_address ` set (farmers db) \<subseteq> fa_address ` set t"
    and "\<And>x. x \<noteq> a \<Longrightarrow> profile_of db' x = profile_of db x" and "owner_request b (dr_now1 d) a r db"
  shows "job_guarantee b (Request d r) (c, db) (c, db')"
proof -
  have "same_auth (snd (c, db)) (snd (c, db'))" by (simp add: assms(1))
  moreover have "fa_address ` set (farmers (snd (c, db))) \<subseteq> fa_address ` set (farmers (snd (c, db')))"
    using assms(3) by (simp add: assms(1))
  ultimately have "service_evolves (be_hash b) (c, db) (c, db')"
    using assms(2) by (intro same_tables_evolve) simp_all
  moreover have "owner_request b (dr_now1 d) x r db" if "profile_of db' x \<noteq> profile_of db x" for x
    using that assms(4) [of x] assms(5) by (cases "x = a") auto
  ultimately show ?thesis by (auto simp: job_guarantee_def)
qed

lemma insert_farmer_guarantee:
  assumes "owner_request b (dr_now1 d) a r db"
  shows "job_guarantee b (Request d r) (c, db) (c, snd (insert_farmer a m (be_hash b m) cf db))"
    and "fst (insert_farmer a m (be_hash b m) cf db) = Inr u \<Longrightarrow>
      a \<in> fa_address ` set (farmers (snd (insert_farmer a m (be_hash b m) cf db)))"
proof -
  let ?db' = "snd (insert_farmer a m (be_hash b m) cf db)"
  have "job_guarantee b (Request d r) (c, db) (c, ?db')
    \<and> (fst (insert_farmer a m (be_hash b m) cf db) = Inr u \<longrightarrow> a \<in> fa_address ` set (farmers ?db'))"
    using insert_farmer_def [of a m "be_hash b m" cf]
  proof (cases rule: execute_state_cases [of _ _ db])
    case (idle n e)
    then show ?thesis by (simp add: indexer_step_guarantee indexer_step_budget)
  next
    case (written n)
    let ?row = "new_farmer_row (pg_now db) a m (be_hash b m) cf"
    have address: "fa_address ?row = a" by (simp add: new_farmer_row_def)
    from written have db': "?db' = db\<lparr>budget := n, farmers := farmers db @ [?row]\<rparr>"
      by (auto simp: insert_farmer_strict_def split: if_splits)
    have "profile_of ?db' x = profile_of db x" if "x \<noteq> a" for x
      using that address by (simp add: db' profile_of_def tbl_find_def find_append split: option.split)
    with assms have "job_guarantee b (Request d r) (c, db) (c, ?db')"
      by (intro profile_write_guarantee [OF db']) (auto intro: keepsD [OF keeps_tables(1)])
    then show ?thesis by (simp add: db' address)
  qed
  then show "job_guarantee b (Request d r) (c, db) (c, snd (insert_farmer a m (be_hash b m) cf db))"
    and "fst (insert_farmer a m (be_hash b m) cf db) = Inr u \<Longrightarrow>
      a \<in> fa_address ` set (farmers (snd (insert_farmer a m (be_hash b m) cf db)))"
    by blast+
qed

lemma update_farmer_guarantee:
  assumes "owner_request b (dr_now1 d) a r db"
  shows "job_guarantee b (Request d r) (c, db) (c, snd (update_farmer_row a m (be_hash b m) cf db))"
    (is "job_guarantee _ _ _ (c, ?db')")
  using update_farmer_row_def [of a m "be_hash b m" cf]
proof (cases rule: execute_state_cases [of _ _ db])
  case (idle n e)
  then show ?thesis by (simp add: indexer_step_guarantee indexer_step_budget)
next
  case (written n)
  let ?t = "tbl_update fa_address a (metadata_set m (be_hash b m) cf) (farmers db)"
  from written have db': "?db' = db\<lparr>budget := n, farmers := ?t\<rparr>" by simp
  have address: "fa_address (metadata_set m (be_hash b m) cf x) = fa_address x" for x
    by (simp add: metadata_set_def)
  have "profile_of ?db' x = profile_of db x" if "x \<noteq> a" for x
    using that address by (simp add: db' profile_of_def tbl_find_update)
  with assms show ?thesis
    by (intro profile_write_guarantee [OF db'] tbl_keys_update_mono)
      (auto intro: keepsD [OF keeps_tables(2)] simp: address)
qed

text \<open>A request writes for the holder of its token: the caller stays authorised until the write.\<close>

lemma safe_extraction:
  fixes b :: "('c, 'k, 'g) backend" and s :: "'c \<times> pg"
  assumes "service_sound (be_hash b) (snd s)"
  shows "safe (service_evolves (be_hash b)) (job_guarantee b j)
    (\<lambda>r s'. service_sound (be_hash b) (snd s') \<and> grows (snd s) (snd s')
      \<and> (\<forall>u. r = Inr u \<longrightarrow> holder b header now (au_address u) (snd s')))
    (await_pg (from_request_parts (be_crypto b) header now)) s"
  by (rule safe_reading_carry [OF assms keeps_from_request_parts])
    (auto dest: extraction_holder intro: holder_grows)

lemma safe_owner_write:
  fixes b :: "('c, 'k, 'g) backend" and s :: "'c \<times> pg"
  assumes "service_sound (be_hash b) (snd s)" and "holder b header now a (snd s)"
    and owner: "\<And>db. service_sound (be_hash b) db \<Longrightarrow> holder b header now a db \<Longrightarrow> owner_request b (dr_now1 d) a r db"
    and writes: "\<And>c db. owner_request b (dr_now1 d) a r db \<Longrightarrow>
      job_guarantee b (Request d r) (c, db) (c, snd (m db)) \<and> (\<forall>u. fst (m db) = Inr u \<longrightarrow> P (snd (m db)))"
    and mono: "\<And>db db'. P db \<Longrightarrow> grows db db' \<Longrightarrow> P db'"
  shows "safe (service_evolves (be_hash b)) (job_guarantee b (Request d r))
    (\<lambda>x s'. service_sound (be_hash b) (snd s') \<and> grows (snd s) (snd s') \<and> ((\<exists>u. x = Inr u) \<longrightarrow> P (snd s')))
    (await_pg (map_err Database m)) s"
  unfolding await_pg_def
proof (rule safe_statement [OF assms(1)])
  fix s' :: "'c \<times> pg" assume s': "grows (snd s) (snd s')" "service_sound (be_hash b) (snd s')"
  let ?m = "on_pg (map_err Database m)"
  obtain c db where s'_eq: "s' = (c, db)" by force
  have "owner_request b (dr_now1 d) a r db"
    using owner [of db] s' holder_grows [OF assms(2) s'(1)] by (simp add: s'_eq)
  from writes [OF this, of c]
  show "job_guarantee b (Request d r) s' (snd (?m s')) \<and> ((\<exists>u. fst (?m s') = Inr u) \<longrightarrow> P (snd (snd (?m s'))))"
    by (force simp: s'_eq on_pg_apply map_err_apply case_prod_beta split: sum.splits)
qed (auto intro: mono)

lemma safe_chain_call:
  fixes b :: "('c, 'k, 'g) backend" and s :: "'c \<times> pg"
  assumes "service_sound (be_hash b) (snd s)"
  shows "safe (service_evolves (be_hash b)) (job_guarantee b j)
    (\<lambda>r s'. service_sound (be_hash b) (snd s') \<and> grows (snd s) (snd s'))
    (awaiting_err map_chain_error (atomic (on_backend m))) s"
proof -
  have "safe (service_evolves (be_hash b)) (job_guarantee b j)
      (\<lambda>r s'. service_sound (be_hash b) (snd s') \<and> grows (snd s) (snd s') \<and> True) (atomic (on_backend m)) s"
    by (rule safe_chain_carry [OF assms]) (simp add: on_backend_def case_prod_beta)
  then show ?thesis
    unfolding awaiting_err_def
    by (rule safe_map [OF _ service_evolves_rely])
      (auto simp: stable_def service_evolves_def intro!: safe_Finish intro: grows_trans)
qed

lemma safe_register:
  fixes b :: "('c, 'k, 'g) backend" and s :: "'c \<times> pg"
  assumes r: "r = FarmersRequest (RegisterFarmer header req)"
    and "service_sound (be_hash b) (snd s)" and "holder b header (dr_now1 d) actor (snd s)"
  shows "safe (service_evolves (be_hash b)) (job_guarantee b (Request d r))
    (\<lambda>x s'. (\<exists>f. x = Inr f) \<longrightarrow> farmer_stored b (req_address req) (snd s'))
    (register_task (be_is_pk b) (be_hash b) (be_register b) req actor) s"
    (is "safe ?R ?G ?Q _ _")
proof -
  have stable: "stable ?R ?Q"
    unfolding stable_def service_evolves_def by (blast intro: farmer_stored_grows)
  have error: "safe ?R ?G ?Q (Finish (Inl e)) s'" for e and s' :: "'c \<times> pg"
    by (rule safe_Finish [OF stable]) simp
  have writes: "safe ?R ?G ?Q (and_await (await_pg (map_err Database
      (insert_farmer actor (req_metadata req) (be_hash b (req_metadata req)) cf))) (\<lambda>_. Finish (Inr f))) s'"
    if "parse_farmer_identifier (be_is_pk b) (req_address req) = Inr actor"
      and "service_sound (be_hash b) (snd s')" and "grows (snd s) (snd s')" for s' :: "'c \<times> pg" and cf f
  proof (rule safe_and_await [OF safe_owner_write [where P = "farmer_stored b (req_address req)"] service_evolves_rely])
    show "holder b header (dr_now1 d) actor (snd s')" by (rule holder_grows [OF assms(3) that(3)])
    show "owner_request b (dr_now1 d) actor r db"
      if "service_sound (be_hash b) db" "holder b header (dr_now1 d) actor db" for db
      using holder_authorised [OF that(2,1)] \<open>parse_farmer_identifier _ _ = _\<close> r
      by (auto simp: owner_request_def)
    show "job_guarantee b (Request d r) (c, db)
        (c, snd (insert_farmer actor (req_metadata req) (be_hash b (req_metadata req)) cf db))
      \<and> (\<forall>u. fst (insert_farmer actor (req_metadata req) (be_hash b (req_metadata req)) cf db) = Inr u \<longrightarrow>
        farmer_stored b (req_address req)
          (snd (insert_farmer actor (req_metadata req) (be_hash b (req_metadata req)) cf db)))"
      if "owner_request b (dr_now1 d) actor r db" for c db
      using insert_farmer_guarantee(1) [OF that, of c "req_metadata req" cf]
        insert_farmer_guarantee(2) [OF that, of "req_metadata req" cf] \<open>parse_farmer_identifier _ _ = _\<close>
      by (auto simp: farmer_stored_def)
    show "farmer_stored b (req_address req) db \<Longrightarrow> grows db db' \<Longrightarrow> farmer_stored b (req_address req) db'" for db db'
      by (rule farmer_stored_grows)
  qed (use that(2) error stable in \<open>auto intro: safe_Finish\<close>)
  have chain: "safe ?R ?G ?Q (and_await (awaiting_err map_chain_error (atomic (on_backend m))) k) s"
    if "\<And>cf s'. service_sound (be_hash b) (snd s') \<Longrightarrow> grows (snd s) (snd s') \<Longrightarrow> safe ?R ?G ?Q (k cf) s'"
    for m and k :: "_ \<Rightarrow> ('c \<times> pg, _) task"
    by (rule safe_and_await [OF safe_chain_call [OF assms(2)] service_evolves_rely]) (use that error in auto)
  show ?thesis
    unfolding register_task_def Let_def
    using writes error by (auto split: sum.split intro!: chain simp del: split_paired_All)
qed

lemma safe_update:
  fixes b :: "('c, 'k, 'g) backend" and s :: "'c \<times> pg"
  assumes r: "r = FarmersRequest (UpdateMetadata header input m)"
    and "service_sound (be_hash b) (snd s)" and "holder b header (dr_now1 d) actor (snd s)"
  shows "safe (service_evolves (be_hash b)) (job_guarantee b (Request d r)) any_outcome
    (update_task (be_is_pk b) (be_hash b) (be_update b) input m actor) s"
    (is "safe ?R ?G _ _ _")
proof -
  have writes: "safe ?R ?G any_outcome (and_await (await_pg (map_err Database
      (update_farmer_row actor m (be_hash b m) cf))) (\<lambda>_. await_pg (get_farmer (be_is_pk b) actor))) s'"
    if "parse_farmer_identifier (be_is_pk b) input = Inr actor"
      and "service_sound (be_hash b) (snd s')" and "grows (snd s) (snd s')" for s' :: "'c \<times> pg" and cf
  proof (rule safe_and_await [OF safe_owner_write [where P = "\<lambda>_. True"] service_evolves_rely])
    show "holder b header (dr_now1 d) actor (snd s')" by (rule holder_grows [OF assms(3) that(3)])
    show "owner_request b (dr_now1 d) actor r db"
      if "service_sound (be_hash b) db" "holder b header (dr_now1 d) actor db" for db
      using holder_authorised [OF that(2,1)] \<open>parse_farmer_identifier _ _ = _\<close> r
      by (auto simp: owner_request_def)
    show "job_guarantee b (Request d r) (c, db) (c, snd (update_farmer_row actor m (be_hash b m) cf db))
      \<and> (\<forall>u. fst (update_farmer_row actor m (be_hash b m) cf db) = Inr u \<longrightarrow> True)"
      if "owner_request b (dr_now1 d) actor r db" for c db
      using update_farmer_guarantee [OF that] by blast
  qed (use that(2) in \<open>auto intro: steps_finish safe_reading keeps_get_farmer\<close>)
  have chain: "safe ?R ?G any_outcome (and_await (awaiting_err map_chain_error (atomic (on_backend x))) k) s"
    if "\<And>cf s'. service_sound (be_hash b) (snd s') \<Longrightarrow> grows (snd s) (snd s') \<Longrightarrow> safe ?R ?G any_outcome (k cf) s'"
    for x and k :: "_ \<Rightarrow> ('c \<times> pg, _) task"
    by (rule safe_and_await [OF safe_chain_call [OF assms(2)] service_evolves_rely])
      (use that steps_finish in auto)
  show ?thesis
    unfolding update_task_def Let_def
    using writes steps_finish by (auto split: sum.split intro!: chain simp del: split_paired_All)
qed

lemma safe_register_handler:
  fixes b :: "('c, 'k, 'g) backend" and s :: "'c \<times> pg"
  assumes "service_sound (be_hash b) (snd s)"
  shows "safe (service_evolves (be_hash b))
    (job_guarantee b (Request d (FarmersRequest (RegisterFarmer header req))))
    (\<lambda>x s'. (\<exists>f. x = Inr f) \<longrightarrow> farmer_stored b (req_address req) (snd s'))
    (register_handler_task (be_crypto b) (be_is_pk b) (be_hash b) (be_register b) header (dr_now1 d) req) s"
    (is "safe ?R ?G ?Q _ _")
proof -
  have stable: "stable ?R ?Q"
    unfolding stable_def service_evolves_def by (blast intro: farmer_stored_grows)
  have error: "safe ?R ?G ?Q (Finish (Inl e)) s'" for e and s' :: "'c \<times> pg"
    by (rule safe_Finish [OF stable]) simp
  have last: "safe ?R ?G ?Q (Finish (Inr x)) s'" if "farmer_stored b (req_address req) (snd s')"
    for x and s' :: "'c \<times> pg"
    by (rule safe_Finish [OF stable]) (simp add: that)
  show ?thesis
    unfolding register_handler_task_def
  proof (rule safe_and_await [OF safe_extraction [OF assms] service_evolves_rely])
    fix u and s' :: "'c \<times> pg"
    assume "service_sound (be_hash b) (snd s') \<and> grows (snd s) (snd s')
      \<and> (\<forall>v. Inr u = Inr v \<longrightarrow> holder b header (dr_now1 d) (au_address v) (snd s'))"
    then have "service_sound (be_hash b) (snd s')" "holder b header (dr_now1 d) (au_address u) (snd s')"
      by blast+
    from safe_register [OF refl this]
    show "safe ?R ?G ?Q (and_await (register_task (be_is_pk b) (be_hash b) (be_register b) req (au_address u))
        (\<lambda>farmer. Finish (Inr (201, farmer)))) s'"
      by (rule safe_and_await [OF _ service_evolves_rely]) (use error last in blast)+
  qed (rule error)
qed

lemma safe_update_handler:
  fixes b :: "('c, 'k, 'g) backend" and s :: "'c \<times> pg"
  assumes "service_sound (be_hash b) (snd s)"
  shows "safe (service_evolves (be_hash b))
    (job_guarantee b (Request d (FarmersRequest (UpdateMetadata header input m)))) any_outcome
    (update_handler_task (be_crypto b) (be_is_pk b) (be_hash b) (be_update b) header (dr_now1 d) input m) s"
  unfolding update_handler_task_def
  by (rule safe_and_await [OF safe_extraction [OF assms] service_evolves_rely])
    (auto intro!: steps_finish safe_update)

section \<open>The jobs\<close>

lemma safe_list_page:
  fixes b :: "('c, 'k, 'g) backend" and s :: "'c \<times> pg"
  shows "safe (service_evolves (be_hash b)) (job_guarantee b j) any_outcome
    (list_page_task checks p k matching) s"
  unfolding list_page_task_def Let_def
  by (intro steps_and_await service_evolves_rely steps_finish safe_reading keeps_select)

lemma safe_search:
  fixes b :: "('c, 'k, 'g) backend" and s :: "'c \<times> pg"
  shows "safe (service_evolves (be_hash b)) (job_guarantee b j) any_outcome
    (search_farmers_task checks as_text ilike arrange q p k) s"
  unfolding search_farmers_task_def Let_def
  by (intro steps_and_await service_evolves_rely steps_finish safe_reading keeps_select)

text \<open>A success status is the answer of a success.\<close>

lemma answer_success:
  "answer b f r = Answer status body \<Longrightarrow> status < 400 \<Longrightarrow> \<exists>x. r = Inr x"
  by (cases r; cases "projl r") (auto simp: answer_def respond_def)

lemma answer_or_abort_success:
  "answer_or_abort b f r = Answer status body \<Longrightarrow> status < 400 \<Longrightarrow> \<exists>x. r = Inr x"
  by (auto simp: answer_or_abort_def dest: answer_success split: sum.splits failure.splits)

lemma safe_reply:
  fixes b :: "('c, 'k, 'g) backend" and s :: "'c \<times> pg"
  assumes "safe (service_evolves (be_hash b)) G (\<lambda>r s'. (\<exists>x. r = Inr x) \<longrightarrow> P (snd s')) t s"
    and mono: "\<And>db db'. P db \<Longrightarrow> grows db db' \<Longrightarrow> P db'"
    and "\<And>r body. h r = Answer code body \<Longrightarrow> \<exists>x. r = Inr x"
  shows "safe (service_evolves (be_hash b)) G
    (\<lambda>e s'. \<forall>body. e = Response (Answer code body) \<longrightarrow> P (snd s'))
    (map_task Response (map_task h t)) s"
    (is "safe ?R _ ?Q _ _")
proof -
  have stable: "stable ?R (\<lambda>e (s' :: 'c \<times> pg). \<forall>body. e = Answer code body \<longrightarrow> P (snd s'))" "stable ?R ?Q"
    unfolding stable_def service_evolves_def by (blast intro: mono)+
  have "safe ?R G (\<lambda>e s'. \<forall>body. e = Answer code body \<longrightarrow> P (snd s')) (map_task h t) s"
    by (rule safe_map [OF assms(1) service_evolves_rely], rule safe_Finish [OF stable(1)])
      (use assms(3) in blast)
  then show ?thesis
    by (rule safe_map [OF _ service_evolves_rely]) (use stable(2) in \<open>auto intro: safe_Finish\<close>)
qed

text \<open>The jobs of whose ending nothing is claimed.\<close>

lemma steps_job:
  fixes b :: "('c, 'k, 'g) backend" and s :: "'c \<times> pg"
  assumes "service_sound (be_hash b) (snd s)"
  shows "safe (service_evolves (be_hash b)) (job_guarantee b j) any_outcome (job_task b j) s"
proof -
  note steps = steps_map [OF service_evolves_rely] safe_reading safe_list_page safe_search
  show ?thesis
  proof (cases j)
    case (Request d r)
    have "safe (service_evolves (be_hash b)) (job_guarantee b (Request d r)) any_outcome (serve_task b d r) s"
    proof (cases r)
      case HealthRequest
      then show ?thesis by (simp add: steps keeps_health)
    next
      case (FarmersRequest fr)
      show ?thesis
      proof (cases fr)
        case (RegisterFarmer header req)
        then show ?thesis
          using safe_weaken [OF safe_register_handler [OF assms, of d header req], where Q' = any_outcome, OF _ TrueI]
          by (simp add: FarmersRequest steps)
      qed (simp_all add: FarmersRequest steps keeps_get_farmer get_farmer_handler_def
          safe_update_handler [OF assms])
    next
      case (AuthRequest ar)
      show ?thesis
      proof (cases ar)
        case (PostVerify req)
        then show ?thesis
          using safe_weaken [OF safe_verify [OF assms], where Q' = any_outcome, OF _ TrueI]
          by (simp add: AuthRequest steps)
      qed (simp_all add: AuthRequest steps safe_challenge session_handler_def keeps_session_by_token)
    next
      case (ProjectionsRequest pr)
      then show ?thesis
        by (cases pr) (simp_all add: steps keeps_get_by_id get_verification_handler_def
            get_escrow_handler_def get_financing_handler_def)
    qed
    then show ?thesis by (simp add: Request steps)
  qed (simp_all add: steps safe_pass safe_rewind)
qed

lemma acknowledged_iff:
  "acknowledged b (Request d (AuthRequest (PostVerify req))) e s \<longleftrightarrow>
    (\<forall>body. e = Response (Answer 200 body) \<longrightarrow> session_stored b (dr_token d) (rq_address req) (snd s))"
  "acknowledged b (Request d (FarmersRequest (RegisterFarmer header r))) e s \<longleftrightarrow>
    (\<forall>body. e = Response (Answer 201 body) \<longrightarrow> farmer_stored b (req_address r) (snd s))"
  by (cases e; cases "case e of Response x \<Rightarrow> x"; auto)+

lemma safe_job:
  fixes b :: "('c, 'k, 'g) backend" and s :: "'c \<times> pg"
  assumes "service_sound (be_hash b) (snd s)"
  shows "safe (service_evolves (be_hash b)) (job_guarantee b j) (acknowledged b j) (job_task b j) s"
proof -
  consider (verify) d req where "j = Request d (AuthRequest (PostVerify req))"
    | (register) d header req where "j = Request d (FarmersRequest (RegisterFarmer header req))"
    | (other) "\<forall>e s'. acknowledged b j e s'"
  proof (cases j)
    case (Request d r)
    then show thesis
      using that by (cases r; cases "case r of FarmersRequest fr \<Rightarrow> fr"; cases "case r of AuthRequest ar \<Rightarrow> ar") auto
  qed (use that in auto)
  then show ?thesis
  proof cases
    case verify
    have "safe (service_evolves (be_hash b)) (job_guarantee b j)
        (\<lambda>r s'. (\<exists>x. r = Inr x) \<longrightarrow> session_stored b (dr_token d) (rq_address req) (snd s'))
        (verify_task (be_crypto b) (st_domain (be_state b)) (be_from_std b (st_session_ttl (be_state b))) req
          (dr_token d) (dr_now1 d) (dr_now2 d)) s"
      by (rule safe_weaken [OF safe_verify [OF assms]]) auto
    from safe_reply [OF this session_stored_grows answer_or_abort_success, where code = 200]
    show ?thesis
      unfolding verify job_task.simps serve_task.simps serve_auth_task.simps
      by (rule safe_weaken) (auto simp: acknowledged_iff)
  next
    case register
    from safe_reply [OF safe_register_handler [OF assms] farmer_stored_grows answer_success, where code = 201]
    show ?thesis
      unfolding register job_task.simps serve_task.simps serve_farmers_task.simps
      by (rule safe_weaken) (auto simp: acknowledged_iff)
  next
    case other
    from safe_weaken [OF steps_job [OF assms]] other show ?thesis by blast
  qed
qed

section \<open>The pool\<close>

lemma empty_sound: "service_sound hash empty_pg"
  by (simp add: service_sound_def sessions_backed_def tables_ok_def farmers_inv_def farmers_ok_def
      projections_typed_def store_ok_def empty_pg_def)

definition service_start :: "'c \<times> pg \<Rightarrow> bool" where
  "service_start s \<longleftrightarrow> snd s = empty_pg"

interpretation service: guarded_pool service_start "job_task b" service_env "service_evolves (be_hash b)"
  "\<lambda>s. service_sound (be_hash b) (snd s)" "job_guarantee b" "acknowledged b"
  for b :: "('c, 'k, 'g) backend"
proof unfold_locales
  show "rely (service_evolves (be_hash b))" by (rule service_evolves_rely)
  show "service_sound (be_hash b) (snd s)" if "service_start s" for s :: "'c \<times> pg"
    using that by (simp add: service_start_def empty_sound)
  show "safe (service_evolves (be_hash b)) (job_guarantee b j) (acknowledged b j) (job_task b j) s"
    if "service_sound (be_hash b) (snd s)" for s :: "'c \<times> pg" and j
    by (rule safe_job [OF that])
  show "service_evolves (be_hash b) s s'" if "service_env s s'" for s s' :: "'c \<times> pg"
    by (rule service_env_evolves [OF that])
qed (simp_all add: service_evolves_def job_guarantee_def)

end
