(* ===== verification/Concurrency_Properties.thy ===== *)
theory Concurrency_Properties
  imports Concurrency Pass_Properties
begin

text \<open>
  Properties of the service whose requests, passes and rewinds interleave statement by statement:
  the invariant of the database, who changes a profile, and what an acknowledgement promises.
\<close>

section \<open>Sample runs\<close>

abbreviation service_reach :: "('c, 'k, 'g) backend \<Rightarrow> ('c \<times> pg, job, ending) pool \<Rightarrow> bool" where
  "service_reach b \<equiv> pool_reach service_start (job_task b) service_env"

abbreviation service_step ::
  "('c, 'k, 'g) backend \<Rightarrow> ('c \<times> pg, job, ending) pool \<Rightarrow> ('c \<times> pg, job, ending) pool \<Rightarrow> bool" where
  "service_step b \<equiv> pool_step (job_task b) service_env"

lemma request_performed:
  assumes "service_reach b (s, p)"
  shows "service_reach b (snd (serve b d r s), p @ [(Request d r, Finish (Response (fst (serve b d r s))))])"
  using pool_perform [OF assms, of "Request d r"] by (simp add: run_map_reply run_serve reply_def)

text \<open>The jobs of the sample backend: a challenge, a sign-in and a registration.\<close>

definition sample_jobs :: "(job \<times> (stub_chain \<times> pg, ending) task) list" where
  "sample_jobs =
    [(Request (sample_draw 0) (AuthRequest (PostChallenge ''GA'')),
       Finish (Response (fst (serve sample_backend (sample_draw 0) (AuthRequest (PostChallenge ''GA''))
         (stub_chain_new, empty_pg))))),
     (Request (sample_draw 1) (AuthRequest (PostVerify sample_verify_request)),
       Finish (Response (fst (serve sample_backend (sample_draw 1)
         (AuthRequest (PostVerify sample_verify_request)) sample_challenged))))]"

lemma sample_session_reach: "service_reach sample_backend (sample_session, sample_jobs)"
proof -
  have "service_reach sample_backend ((stub_chain_new, empty_pg), [])"
    by (rule pool_reach.start) (simp add: service_start_def)
  from request_performed [OF this, of "sample_draw 0" "AuthRequest (PostChallenge ''GA'')"]
  have "service_reach sample_backend (sample_challenged, take 1 sample_jobs)"
    by (simp add: sample_challenged_def sample_jobs_def)
  from request_performed [OF this, of "sample_draw 1" "AuthRequest (PostVerify sample_verify_request)"]
  show ?thesis by (simp add: sample_session_def sample_jobs_def)
qed

lemma sample_registered_reach:
  "\<exists>p. service_reach sample_backend (sample_registered, p)"
  using request_performed [OF sample_session_reach, of "sample_draw 50" sample_register_request]
  by (auto simp: sample_registered_def)

section \<open>The invariant\<close>

text \<open>
  C12. The invariant of the database under concurrency. Whatever requests, passes and rewinds are in
  flight, interleaved statement by statement with one another, with clients that go away between
  two statements, lost connections and changes of the chain: nonces are unique, every session
  belongs to an address a challenge of which has been consumed, the farmers table has unique
  addresses, ids derived from them and hashes of its profiles, every projection row is well typed,
  and no event is stored twice.
\<close>

theorem concurrent_invariant:
  assumes "pool_reach service_start (job_task b) service_env ((c, db), p)"
  shows "tbl_ok ch_nonce (auth_challenges db)
    \<and> (\<forall>s \<in> set (auth_sessions db). \<exists>ch \<in> set (auth_challenges db).
        ch_used ch \<and> ch_address ch = se_address s)
    \<and> farmers_inv (be_hash b) db
    \<and> projections_typed db
    \<and> tbl_ok natural_key (indexed_events db)"
  using service.reach_sound [OF assms]
  by (simp add: service_sound_def sessions_backed_def tables_ok_def store_ok_def)

theorem concurrent_invariant_witness:
  "farmers_inv (\<lambda>m. ''hash'') (snd sample_registered)
    \<and> (\<exists>s \<in> set (auth_sessions (snd sample_registered)). \<exists>ch \<in> set (auth_challenges (snd sample_registered)).
        ch_used ch \<and> ch_address ch = se_address s)"
proof -
  obtain p where "service_reach sample_backend (sample_registered, p)" using sample_registered_reach ..
  from concurrent_invariant [of sample_backend "fst sample_registered" "snd sample_registered" p] this
  have "farmers_inv (\<lambda>m. ''hash'') (snd sample_registered)"
    and "\<forall>s \<in> set (auth_sessions (snd sample_registered)). \<exists>ch \<in> set (auth_challenges (snd sample_registered)).
        ch_used ch \<and> ch_address ch = se_address s"
    by simp_all
  moreover have "auth_sessions (snd sample_registered) \<noteq> []" using sample_registered_values(2) by auto
  ultimately show ?thesis by (metis list.set_intros(1) neq_Nil_conv)
qed

section \<open>Who changes a profile\<close>

text \<open>
  C13. A profile changes only through its owner, also under concurrency. In every reachable state of
  the service with any jobs in flight: if a single step changes the profile or the hash stored for
  an address, then a registration or update request for exactly that address is in flight, its
  bearer token is that of a session of the address which is stored at the moment of the write and
  was unexpired by the clock reading of the request, taken when the token was extracted (it may
  expire between the two), and a challenge for the address has been consumed.
\<close>

theorem concurrent_profile_owner:
  assumes "pool_reach service_start (job_task b) service_env (s, p)"
    and "pool_step (job_task b) service_env (s, p) (s', p')"
    and "profile_of (snd s') a \<noteq> profile_of (snd s) a"
  shows "\<exists>d r t. (Request d r, t) \<in> set p \<and> owner_request b (dr_now1 d) a r (snd s)"
proof -
  have "\<not> service_env s s'" using assms(3) by (auto simp: service_env_def profile_of_def)
  moreover have "s' \<noteq> s" using assms(3) by auto
  ultimately obtain j t where t: "(j, t) \<in> set p" and "job_guarantee b j s s'"
    using service.step_by_job [OF assms(1,2)] by blast
  then have "\<exists>d r. j = Request d r \<and> owner_request b (dr_now1 d) a r (snd s)"
    using assms(3) by (simp add: job_guarantee_def)
  with t show ?thesis by auto
qed

theorem concurrent_profile_owner_witness:
  "\<exists>s p d r t. service_reach sample_backend (s, p) \<and> (Request d r, t) \<in> set p
    \<and> owner_request sample_backend (dr_now1 d) ''GA'' r (snd s)"
proof -
  let ?j = "Request (sample_draw 50) sample_register_request"
  have "service_reach sample_backend (sample_session, sample_jobs @ [(?j, job_task sample_backend ?j)])"
    by (rule pool_reach.step [OF sample_session_reach pool_step.spawn])
  moreover have "profile_of (snd (snd (run_task (job_task sample_backend ?j) sample_session))) ''GA''
      \<noteq> profile_of (snd sample_session) ''GA''"
    using sample_registered_values(3,4)
    by (auto simp: run_map_reply run_serve sample_registered_def simp del: job_task.simps(2))
  ultimately obtain s p s' p' where run: "service_reach sample_backend (s, p)"
      "service_step sample_backend (s, p) (s', p')" "profile_of (snd s') ''GA'' \<noteq> profile_of (snd s) ''GA''"
    by (rule pool_changing_step [where v = "\<lambda>s. profile_of (snd s) ''GA''"])
  from concurrent_profile_owner [OF run] run(1) show ?thesis by blast
qed

section \<open>Acknowledgements\<close>

text \<open>
  C14. What is acknowledged lasts. Once a sign-in among any other jobs has answered 200, a session for
  its address is stored under the hash of the token it returned, and once a registration has
  answered 201, the farmer is stored; both are still there in every later state, whatever requests,
  passes, rewinds and lost connections follow.
\<close>

theorem acknowledged_writes_last:
  assumes "pool_reach service_start (job_task b) service_env (s, p)"
    and "(pool_step (job_task b) service_env)\<^sup>*\<^sup>* (s, p) (s', p')"
  shows "((Request d (AuthRequest (PostVerify req)), Finish (Response (Answer 200 body))) \<in> set p \<longrightarrow>
      session_stored b (dr_token d) (rq_address req) (snd s'))
    \<and> ((Request d (FarmersRequest (RegisterFarmer header reg)), Finish (Response (Answer 201 body))) \<in> set p \<longrightarrow>
      farmer_stored b (req_address reg) (snd s'))"
proof (intro conjI impI)
  have grows: "grows (snd s) (snd s')"
    using service.steps_evolve [OF assms(2,1)] by (simp add: service_evolves_def)
  note out = service.reach_outcome [OF assms(1)]
  show "session_stored b (dr_token d) (rq_address req) (snd s')"
    if "(Request d (AuthRequest (PostVerify req)), Finish (Response (Answer 200 body))) \<in> set p"
    using out [OF that] session_stored_grows [OF _ grows] by (simp add: acknowledged_iff)
  show "farmer_stored b (req_address reg) (snd s')"
    if "(Request d (FarmersRequest (RegisterFarmer header reg)), Finish (Response (Answer 201 body))) \<in> set p"
    using out [OF that] farmer_stored_grows [OF _ grows] by (simp add: acknowledged_iff)
qed

theorem acknowledged_writes_last_witness:
  "session_stored sample_backend ''t'' ''GA'' ((snd sample_session)\<lparr>budget := Some 0\<rparr>)"
proof -
  let ?d = "sample_draw 1" and ?s = "(stub_chain_new, (snd sample_session)\<lparr>budget := Some 0\<rparr>)"
  have "service_env sample_session ?s"
    unfolding service_env_def by (intro exI [of _ "Some 0"] exI [of _ "ack_lost (snd sample_session)"]
        exI [of _ "pg_now (snd sample_session)"]) simp
  then have later: "(service_step sample_backend)\<^sup>*\<^sup>* (sample_session, sample_jobs) (?s, sample_jobs)"
    by (blast intro: pool_step.environment)
  have "projr (fst (verify sample_crypto ''app'' (Inr 100) sample_verify_request ''t'' 1 2 sample_issued)) =
      \<lparr> sn_token = ''t'', sn_address = ''GA'', sn_roles = [''farmer''], sn_expires_at = 102 \<rparr>"
    "isl (fst (verify sample_crypto ''app'' (Inr 100) sample_verify_request ''t'' 1 2 sample_issued)) = False"
    by code_simp+
  then obtain x where "fst (verify sample_crypto ''app'' (Inr 100) sample_verify_request ''t'' 1 2 sample_issued) = Inr x"
    by (auto simp: isl_def) (metis sum.exhaust)
  then obtain body where "fst (serve sample_backend ?d (AuthRequest (PostVerify sample_verify_request)) sample_challenged)
      = Answer 200 body"
    by (auto simp: sample_backend_run(1) verify_handler_def sample_draw_def reply_def on_pg_apply answer_or_abort_def
        answer_def respond_def case_prod_beta)
  then have "(Request ?d (AuthRequest (PostVerify sample_verify_request)), Finish (Response (Answer 200 body)))
      \<in> set sample_jobs"
    by (simp add: sample_jobs_def)
  with acknowledged_writes_last [OF sample_session_reach later, of ?d sample_verify_request body]
  show ?thesis by (simp add: sample_draw_def sample_verify_request_def)
qed

section \<open>A rewind during a pass\<close>







end
