(* ===== verification/Pass_Interference.thy ===== *)
theory Pass_Interference
  imports Concurrency Samples
begin

text \<open>
  A pass of the indexer while the service answers requests: the requests and the pass share the
  farmers table, and the pass reads and writes everything else it looks at alone.
\<close>

section \<open>What a pass looks at\<close>

definition pass_view :: "pg \<Rightarrow> chain_event list \<times> (string \<times> cursor) list
    \<times> verification_row list \<times> escrow_row list \<times> financing_row list" where
  "pass_view db = (indexed_events db, indexer_cursors db, verification_projection db,
     escrow_projection db, financing_projection db)"

definition undisturbed :: "(farmer_metadata \<Rightarrow> string) \<Rightarrow> 'c \<times> pg \<Rightarrow> bool" where
  "undisturbed hash s \<longleftrightarrow> budget (snd s) = None \<and> farmers_inv hash (snd s)"

text \<open>Two runs of a statement from states that agree in what a pass looks at.\<close>

definition statement_indifferent :: "(farmer_metadata \<Rightarrow> string) \<Rightarrow> (pg, 'e, 'a) action \<Rightarrow> bool" where
  "statement_indifferent hash m \<longleftrightarrow>
    (\<forall>d1 d2. budget d1 = None \<longrightarrow> budget d2 = None \<longrightarrow> farmers_inv hash d1 \<longrightarrow> farmers_inv hash d2 \<longrightarrow>
      pass_view d1 = pass_view d2 \<longrightarrow>
      fst (m d1) = fst (m d2) \<and> pass_view (snd (m d1)) = pass_view (snd (m d2))
      \<and> budget (snd (m d1)) = None \<and> farmers_inv hash (snd (m d1)))"

named_theorems indifferent_intros \<open>statements whose result a view determines\<close>

lemma indifferent_ok [indifferent_intros]: "statement_indifferent hash (ok a)"
  and indifferent_fail [indifferent_intros]: "statement_indifferent hash (fail e)"
  and indifferent_lift [indifferent_intros]: "statement_indifferent hash (lift_result r)"
  by (simp_all add: statement_indifferent_def)

lemma indifferentD:
  assumes "statement_indifferent hash m" "budget d1 = None" "budget d2 = None" "farmers_inv hash d1"
    "farmers_inv hash d2" "pass_view d1 = pass_view d2"
  shows "fst (m d1) = fst (m d2)" "pass_view (snd (m d1)) = pass_view (snd (m d2))"
    "budget (snd (m d1)) = None" "farmers_inv hash (snd (m d1))"
    "budget (snd (m d2)) = None" "farmers_inv hash (snd (m d2))"
  using assms assms(1,3,2,5,4) unfolding statement_indifferent_def by metis+

lemma indifferent_and_then [indifferent_intros]:
  assumes "statement_indifferent hash m" and "\<And>a. statement_indifferent hash (f a)"
  shows "statement_indifferent hash (and_then m f)"
  unfolding statement_indifferent_def
proof (intro allI impI)
  fix d1 d2 assume "budget d1 = None" "budget d2 = None" "farmers_inv hash d1" "farmers_inv hash d2"
    "pass_view d1 = pass_view d2"
  note here = indifferentD [OF assms(1) this]
  show "fst (and_then m f d1) = fst (and_then m f d2)
      \<and> pass_view (snd (and_then m f d1)) = pass_view (snd (and_then m f d2))
      \<and> budget (snd (and_then m f d1)) = None \<and> farmers_inv hash (snd (and_then m f d1))"
  proof (cases "fst (m d1)")
    case (Inl e)
    with here(1) have "fst (m d2) = Inl e" by simp
    with Inl here(2-4) show ?thesis by (simp add: and_then_apply case_prod_beta)
  next
    case (Inr a)
    with here(1) have "fst (m d2) = Inr a" by simp
    with Inr indifferentD [OF assms(2) [of a] here(3,5,4,6,2)] show ?thesis
      by (simp add: and_then_apply case_prod_beta)
  qed
qed

lemma indifferent_if [indifferent_intros]:
  "(c \<Longrightarrow> statement_indifferent hash m) \<Longrightarrow> (\<not> c \<Longrightarrow> statement_indifferent hash n) \<Longrightarrow>
    statement_indifferent hash (if c then m else n)"
  and indifferent_case_option [indifferent_intros]:
  "(x = None \<Longrightarrow> statement_indifferent hash m) \<Longrightarrow> (\<And>a. x = Some a \<Longrightarrow> statement_indifferent hash (f a)) \<Longrightarrow>
    statement_indifferent hash (case x of None \<Rightarrow> m | Some a \<Rightarrow> f a)"
  by (auto split: option.split)

lemma indifferent_query:
  assumes "\<And>d1 d2. pass_view d1 = pass_view d2 \<Longrightarrow> g d1 = g d2"
  shows "statement_indifferent hash (query g)"
  unfolding statement_indifferent_def
  by (intro allI impI, frule assms) simp

text \<open>A write: the outcome and the new view are functions of the view, or it writes farmers only.\<close>

lemma indifferent_execute:
  assumes "\<And>d1 d2. pass_view d1 = pass_view d2 \<Longrightarrow>
      (case f d1 of Inl e \<Rightarrow> f d2 = Inl e | Inr t1 \<Rightarrow> \<exists>t2. f d2 = Inr t2 \<and> pass_view t1 = pass_view t2)"
    and "\<And>d t. f d = Inr t \<Longrightarrow> budget t = budget d \<and> farmers t = farmers d"
  shows "statement_indifferent hash (execute f)"
  unfolding statement_indifferent_def
proof (intro allI impI)
  fix d1 d2 assume d: "budget d1 = None" "budget d2 = None" "farmers_inv hash d1" "farmers_inv hash d2"
    "pass_view d1 = pass_view d2"
  show "fst (execute f d1) = fst (execute f d2) \<and> pass_view (snd (execute f d1)) = pass_view (snd (execute f d2))
      \<and> budget (snd (execute f d1)) = None \<and> farmers_inv hash (snd (execute f d1))"
  proof (cases "f d1")
    case (Inl e)
    with assms(1) [OF d(5)] have "f d2 = Inl e" by simp
    with Inl d show ?thesis by (simp only: execute_healthy) simp
  next
    case (Inr t)
    with assms(1) [OF d(5)] have "\<exists>t2. f d2 = Inr t2 \<and> pass_view t = pass_view t2" by simp
    then obtain t2 where t2: "f d2 = Inr t2" "pass_view t = pass_view t2" by blast
    have "farmers_inv hash t = farmers_inv hash d1"
      by (rule farmers_inv_eq) (rule conjunct2 [OF assms(2) [OF Inr]])
    with Inr t2 d(1-3) assms(2) [OF Inr] show ?thesis by (simp only: execute_healthy) simp
  qed
qed

lemma indifferent_farmers:
  assumes "keeps (farmers_inv hash) (execute f)"
    and "\<And>d. farmers_inv hash d \<Longrightarrow> \<exists>t. f d = Inr (d\<lparr>farmers := t\<rparr>)"
  shows "statement_indifferent hash (execute f)"
  unfolding statement_indifferent_def
proof (intro allI impI)
  fix d1 d2 assume d: "budget d1 = None" "budget d2 = None" "farmers_inv hash d1" "farmers_inv hash d2"
    "pass_view d1 = pass_view d2"
  from assms(2) [OF d(3)] assms(2) [OF d(4)] d keepsD [OF assms(1) d(3)]
  show "fst (execute f d1) = fst (execute f d2) \<and> pass_view (snd (execute f d1)) = pass_view (snd (execute f d2))
      \<and> budget (snd (execute f d1)) = None \<and> farmers_inv hash (snd (execute f d1))"
    by (auto simp: pass_view_def)
qed

section \<open>The statements of a pass\<close>

lemma indifferent_identity:
  "statement_indifferent hash (upsert_identity_farmer e)"
  "statement_indifferent hash (update_identity_metadata e)"
  "statement_indifferent hash (append_identity_marker e)"
proof -
  have upsert: "\<exists>t. (let new = identity_row (pg_now d) a e in
      case insert_farmer_row new (identity_conflict new) (farmers d) of
        Inl err \<Rightarrow> Inl err | Inr t \<Rightarrow> Inr (d\<lparr>farmers := t\<rparr>)) = Inr (d\<lparr>farmers := t\<rparr>)"
    if "farmers_inv hash d" for d a
  proof -
    have "farmers_ok d" using that by (simp add: farmers_inv_def)
    from insert_farmer_row_cases [OF this, of "identity_row (pg_now d) a e"] show ?thesis
      unfolding Let_def by (auto simp: identity_row_def)
  qed
  show "statement_indifferent hash (upsert_identity_farmer e)"
    using keeps_inv_identity(1) [of hash e] upsert unfolding upsert_identity_farmer_def
    by (cases "identity_topics e") (simp_all add: indifferent_fail indifferent_farmers)
  show "statement_indifferent hash (update_identity_metadata e)"
    using keeps_inv_identity(2) [of hash e] unfolding update_identity_metadata_def
    by (cases "identity_topics e") (auto simp: indifferent_fail intro!: indifferent_farmers)
  show "statement_indifferent hash (append_identity_marker e)"
    using keeps_inv_identity(3) [of hash e] unfolding append_identity_marker_def
    by (cases "identity_topics e") (auto simp: indifferent_fail intro!: indifferent_farmers)
qed

lemma indifferent_event: "statement_indifferent hash (apply_event uuid e)"
proof (cases "contract_name e = ''identity''")
  case True
  show ?thesis
    unfolding apply_event_identity [OF True] by (intro indifferent_intros indifferent_identity)
next
  case False
  have "statement_indifferent hash (upsert_verification u c v)" "statement_indifferent hash (revoke_verification v')"
    "statement_indifferent hash (upsert_escrow u c x)" "statement_indifferent hash (upsert_financing c y)"
    for u c v v' x y
    unfolding upsert_verification_def revoke_verification_def upsert_escrow_def upsert_financing_def Let_def
    by (auto intro!: indifferent_execute simp: pass_view_def)
  moreover have "statement_indifferent hash (update_escrow k f)" "statement_indifferent hash (update_financing k g)"
    for k f g
    unfolding update_escrow_def update_financing_def
    by (auto intro!: indifferent_execute simp: pass_view_def split: sum.splits)
  ultimately show ?thesis
    using False
    unfolding apply_event_def Let_def consume_def add_escrow_deposit_def release_escrow_def refund_escrow_def
      add_financing_deposit_def release_financing_def refund_financing_def
    by (intro indifferent_intros) simp_all
qed

lemma indifferent_store:
  "statement_indifferent hash (get_cursor cid)" "statement_indifferent hash (set_cursor cid cur)"
  "statement_indifferent hash (insert_statement e)" "statement_indifferent hash (finalized_events cid l)"
  unfolding get_cursor_def set_cursor_def insert_statement_def finalized_events_def
  by (auto intro!: indifferent_intros indifferent_query indifferent_execute simp: pass_view_def)

lemma oblivious_await_pg:
  assumes "statement_indifferent hash m"
  shows "oblivious (\<lambda>s. pass_view (snd s)) (undisturbed hash) (await_pg m)"
  unfolding await_pg_def
proof (rule oblivious_atomic, unfold indifferent_def, intro allI impI)
  fix s1 s2 :: "'c \<times> pg"
  assume "undisturbed hash s1" "undisturbed hash s2" "pass_view (snd s1) = pass_view (snd s2)"
  then have d: "budget (snd s1) = None" "budget (snd s2) = None" "farmers_inv hash (snd s1)"
    "farmers_inv hash (snd s2)" "pass_view (snd s1) = pass_view (snd s2)"
    by (simp_all add: undisturbed_def)
  from indifferentD [OF assms d]
  show "fst (on_pg m s1) = fst (on_pg m s2) \<and> pass_view (snd (snd (on_pg m s1))) = pass_view (snd (snd (on_pg m s2)))
      \<and> undisturbed hash (snd (on_pg m s1))"
    by (cases s1; cases s2) (simp add: on_pg_apply case_prod_beta undisturbed_def)
qed

lemma oblivious_source: "oblivious (\<lambda>s. pass_view (snd s)) (undisturbed hash) (atomic (lift_result r))"
  by (rule oblivious_atomic) (simp add: indifferent_def)

lemma oblivious_pass:
  "oblivious (\<lambda>s. pass_view (snd s)) (undisturbed hash) (ingest_task text_of uuid pull head cid)"
proof -
  have applied: "oblivious (\<lambda>s. pass_view (snd s)) (undisturbed hash) (apply_finalized_task text_of uuid evs n)" for evs n
    by (induction evs arbitrary: n)
      (auto simp: internal_task_def intro!: oblivious.finish oblivious_and_await oblivious_awaiting_err
        oblivious_await_pg indifferent_event)
  have if_rule: "oblivious v a t \<Longrightarrow> oblivious v a u \<Longrightarrow> oblivious v a (if c then t else u)" for v a t u and c
    by simp
  show ?thesis
    unfolding ingest_task_def internal_task_def Let_def
    by (intro oblivious_and_await oblivious_awaiting_err oblivious_for_each oblivious.finish applied if_rule
        oblivious_source oblivious_await_pg indifferent_store)
qed

section \<open>The steps of requests\<close>

text \<open>
  What happens between two steps of a pass: requests take any of their steps, the clock advances
  and the chain changes.
\<close>

definition request_step :: "('c, 'k, 'g) backend \<Rightarrow> 'c \<times> pg \<Rightarrow> 'c \<times> pg \<Rightarrow> bool" where
  "request_step b s s' \<longleftrightarrow>
    (\<exists>d q f. remains (serve_task b d q) (Await f) \<and> s' = fst (f s))
    \<or> (\<exists>now. snd s' = (snd s)\<lparr>pg_now := now\<rparr>)"

definition pass_frame :: "(farmer_metadata \<Rightarrow> string) \<Rightarrow> 'c \<times> pg \<Rightarrow> 'c \<times> pg \<Rightarrow> bool" where
  "pass_frame hash s s' \<longleftrightarrow>
    pass_view (snd s') = pass_view (snd s) \<and> (undisturbed hash s \<longrightarrow> undisturbed hash s')"

text \<open>A statement of a request keeps the connection, the farmers' invariant and the view.\<close>

definition framed :: "(farmer_metadata \<Rightarrow> string) \<Rightarrow> (pg, 'e, 'a) action \<Rightarrow> bool" where
  "framed hash m \<longleftrightarrow> keeps (\<lambda>d. budget d = None) m \<and> keeps (farmers_inv hash) m
    \<and> (\<forall>v. keeps (\<lambda>d. pass_view d = v) m)"

named_theorems framed_intros \<open>statements of requests\<close>

lemma framed_simple [framed_intros]:
  "framed hash (ok a)" "framed hash (fail e)" "framed hash (lift_result r)"
  by (auto simp: framed_def intro: keeps_intros)

lemma framed_and_then [framed_intros]:
  "framed hash m \<Longrightarrow> (\<And>a. framed hash (f a)) \<Longrightarrow> framed hash (and_then m f)"
  and framed_map_err [framed_intros]: "framed hash n \<Longrightarrow> framed hash (map_err g n)"
  by (auto simp: framed_def intro!: keeps_intros)

lemma framed_case [framed_intros]:
  "framed hash m \<Longrightarrow> (\<And>a. framed hash (f a)) \<Longrightarrow> framed hash (case x of None \<Rightarrow> m | Some a \<Rightarrow> f a)"
  "framed hash m \<Longrightarrow> framed hash n \<Longrightarrow> framed hash (if c then m else n)"
  "(\<And>e. framed hash (p e)) \<Longrightarrow> (\<And>a. framed hash (q a)) \<Longrightarrow>
    framed hash (case r of Inl e \<Rightarrow> p e | Inr a \<Rightarrow> q a)"
  by (simp_all split: option.split sum.split)

lemma pass_view_blind: "fault_blind (\<lambda>d. pass_view d = v)"
  by (simp add: fault_blind_def pass_view_def)

lemma framed_query [framed_intros]: "framed hash (query g)"
  using keeps_query [OF farmers_inv_blind, of hash g] keeps_query [OF pass_view_blind, of _ g]
  by (simp add: framed_def) (simp add: keeps_def)

lemma framed_execute:
  assumes "keeps (farmers_inv hash) (execute f)"
    and "\<And>d t. f d = Inr t \<Longrightarrow> budget t = budget d \<and> pass_view t = pass_view d"
  shows "framed hash (execute f)"
proof -
  have "keeps (\<lambda>d. budget d = None) (execute f)"
    using assms(2) by (auto simp: keeps_def split: sum.split)
  moreover have "keeps (\<lambda>d. pass_view d = v) (execute f)" for v
    by (rule keeps_execute [OF pass_view_blind]) (use assms(2) in auto)
  ultimately show ?thesis using assms(1) by (simp add: framed_def)
qed

lemma farmers_inv_auth:
  "farmers_inv hash (d\<lparr>auth_challenges := t\<rparr>) = farmers_inv hash d"
  "farmers_inv hash (d\<lparr>auth_sessions := x\<rparr>) = farmers_inv hash d"
  by (rule farmers_inv_eq, simp)+

lemma framed_writes [framed_intros]:
  "framed hash (insert_challenge row)" "framed hash (consume_nonce nonce)" "framed hash (insert_session x)"
  "framed hash (insert_farmer a m (hash m) cf)" "framed hash (update_farmer_row a m (hash m) cf)"
proof -
  have "keeps (farmers_inv hash) (insert_challenge row)" "keeps (farmers_inv hash) (consume_nonce nonce)"
    "keeps (farmers_inv hash) (insert_session x)"
    unfolding insert_challenge_def consume_nonce_def insert_session_def
    by (auto intro!: keeps_execute farmers_inv_blind simp: farmers_inv_auth split: if_splits)
  with keeps_inv_registration [of hash a m cf] keeps_inv_update_row [of hash a m cf]
  show "framed hash (insert_challenge row)" "framed hash (consume_nonce nonce)" "framed hash (insert_session x)"
    "framed hash (insert_farmer a m (hash m) cf)" "framed hash (update_farmer_row a m (hash m) cf)"
    unfolding insert_challenge_def consume_nonce_def insert_session_def insert_farmer_def update_farmer_row_def
    by (auto intro!: framed_execute simp: pass_view_def split: if_splits sum.splits)
qed

lemma framed_statements [framed_intros]:
  "framed hash (challenge_handler cr st address nonce now)"
  "framed hash (verify_check cr domain req now)"
  "framed hash (session_by_token cr token now)"
  "framed hash (session_handler cr token now)"
  "framed hash (from_request_parts cr header now)"
  "framed hash (get_farmer is_pk input)"
  "framed hash (get_farmer_handler is_pk input)"
  "framed hash (select g)"
  unfolding challenge_handler_def issue_challenge_def verify_check_def session_by_token_def session_handler_def
    from_request_parts_def get_farmer_def get_farmer_handler_def select_def Let_def
  by (intro framed_intros)+

lemma framed_gets [framed_intros]:
  "framed hash (get_verification_handler row_id)" "framed hash (get_escrow_handler row_id)"
  "framed hash (get_financing_handler row_id)" "framed hash health"
proof -
  show "framed hash (get_verification_handler row_id)" "framed hash (get_escrow_handler row_id)"
    "framed hash (get_financing_handler row_id)"
    unfolding get_verification_handler_def get_escrow_handler_def get_financing_handler_def get_by_id_def
    by (intro framed_intros)+
  have "keeps P health" if "keeps P (query (\<lambda>_. 1 :: int))" for P
    using that by (auto simp: health_def keeps_def Let_def split: prod.split)
  with framed_query [of hash "\<lambda>_. 1 :: int"] show "framed hash health" by (simp add: framed_def)
qed

lemma steps_framed:
  fixes s :: "'c \<times> pg"
  assumes "framed hash m"
  shows "safe (\<lambda>_ _. True) (pass_frame hash) any_outcome (await_pg m) s"
  unfolding await_pg_def
proof (rule steps_atomic)
  fix s :: "'c \<times> pg"
  obtain c d where s: "s = (c, d)" by force
  from assms have v: "keeps (\<lambda>x. pass_view x = pass_view d) m" and b: "keeps (\<lambda>d. budget d = None) m"
    and i: "keeps (farmers_inv hash) m"
    unfolding framed_def by blast+
  show "pass_frame hash s (snd (on_pg m s))"
    using keepsD [OF v refl] keepsD [OF b] keepsD [OF i]
    by (simp add: pass_frame_def undisturbed_def s on_pg_state)
qed

lemma anything_rely: "rely (\<lambda>_ _. True)"
  by (simp add: rely_def)

lemma steps_backend: "safe (\<lambda>_ _. True) (pass_frame hash) any_outcome (atomic (on_backend m)) s"
  by (rule steps_atomic) (simp add: pass_frame_def undisturbed_def on_backend_def case_prod_beta)

lemma steps_cases:
  "(\<And>e. safe R G any_outcome (p e) s) \<Longrightarrow> (\<And>a. safe R G any_outcome (q a) s) \<Longrightarrow>
    safe R G any_outcome (case r of Inl e \<Rightarrow> p e | Inr a \<Rightarrow> q a) s"
  "safe R G any_outcome t s \<Longrightarrow> (\<And>a. safe R G any_outcome (k a) s) \<Longrightarrow>
    safe R G any_outcome (case x of None \<Rightarrow> t | Some a \<Rightarrow> k a) s"
  "safe R G any_outcome t s \<Longrightarrow> safe R G any_outcome u s \<Longrightarrow> safe R G any_outcome (if c then t else u) s"
  by (auto split: sum.split option.split)

lemma requests_framed:
  fixes s :: "'c \<times> pg"
  shows "safe (\<lambda>_ _. True) (pass_frame (be_hash b)) any_outcome (serve_task b d r) s"
proof -
  note steps = steps_map [OF anything_rely] steps_and_await [OF anything_rely]
    steps_awaiting_err [OF anything_rely] steps_cases steps_finish steps_framed steps_backend
  note tasks = list_page_task_def search_farmers_task_def register_handler_task_def register_task_def
    update_handler_task_def update_task_def verify_task_def verify_check_task_def verify_commit_task_def Let_def
  show ?thesis
  proof (cases r)
    case HealthRequest
    then show ?thesis by (simp add: steps framed_intros)
  next
    case (FarmersRequest fr)
    show ?thesis
      by (cases fr) (simp_all only: FarmersRequest serve_task.simps serve_farmers_task.simps tasks,
          (intro steps framed_intros)+)
  next
    case (AuthRequest ar)
    show ?thesis
      by (cases ar) (simp_all only: AuthRequest serve_task.simps serve_auth_task.simps tasks,
          (intro steps framed_intros)+)
  next
    case (ProjectionsRequest pr)
    show ?thesis
      by (cases pr) (simp_all only: ProjectionsRequest serve_task.simps serve_projections_task.simps tasks,
          (intro steps framed_intros)+)
  qed
qed

lemma request_step_framed: "request_step b s s' \<Longrightarrow> pass_frame (be_hash b) s s'"
  unfolding request_step_def
proof (elim disjE exE conjE)
  fix d q f assume f: "remains (serve_task b d q) (Await f)" and s': "s' = fst (f s)"
  have "safe (\<lambda>_ _. True) (pass_frame (be_hash b)) any_outcome (Await f) s"
    by (rule safe_remains [OF requests_framed f])
  from safe_step [OF this, of s] s' show "pass_frame (be_hash b) s s'" by simp
next
  fix now assume s': "snd s' = (snd s)\<lparr>pg_now := now\<rparr>"
  have "farmers_inv (be_hash b) (snd s') = farmers_inv (be_hash b) (snd s)"
    by (rule farmers_inv_eq) (simp add: s')
  with s' show "pass_frame (be_hash b) s s'" by (simp add: pass_frame_def undisturbed_def pass_view_def)
qed

lemma request_steps_framed: "(request_step b)\<^sup>*\<^sup>* s s' \<Longrightarrow> pass_frame (be_hash b) s s'"
  by (induction rule: rtranclp_induct) (auto simp: pass_frame_def dest!: request_step_framed)

section \<open>The pass alone and among requests\<close>

text \<open>A pass among requests is the pass alone, with its result.\<close>

lemma pass_among_requests:
  assumes "interfered (request_step b)\<^sup>*\<^sup>* (ingest_task text_of uuid pull head cid) (c, db) r (c', db')"
    and "budget db = None" and "farmers_inv (be_hash b) db"
  shows "r = fst (ingest text_of uuid pull head cid db)
    \<and> pass_view db' = pass_view (snd (ingest text_of uuid pull head cid db))
    \<and> farmers_inv (be_hash b) db'"
proof -
  have "undisturbed (be_hash b) (c, db)" using assms(2,3) by (simp add: undisturbed_def)
  from oblivious_serial [OF assms(1) oblivious_pass [of "be_hash b"] _ this this refl] request_steps_framed [of b]
  show ?thesis by (simp add: pass_frame_def undisturbed_def task_simps on_pg_apply case_prod_beta)
qed

lemma oblivious_indexer: "oblivious (\<lambda>s. pass_view (snd s)) (undisturbed hash) (indexer_task text_of uuid ticks)"
proof (induction ticks)
  case (Cons ticked later)
  have round: "oblivious (\<lambda>s. pass_view (snd s)) (undisturbed hash) (round_task text_of uuid ticked)"
  proof (induction ticked)
    case (Cons p ticked)
    then show ?case by (cases p) (simp add: oblivious_bind oblivious_pass)
  qed (simp add: oblivious.finish)
  have sleep: "oblivious (\<lambda>s. pass_view (snd s)) (undisturbed hash) (atomic (\<lambda>s. ((), s)))"
    by (rule oblivious_atomic) (simp add: indifferent_def)
  show ?case unfolding indexer_task.simps by (intro oblivious_bind round sleep Cons.IH)
qed (simp add: oblivious.finish)

text \<open>
  C16. The indexer among requests is the indexer alone. Whatever steps requests take between the
  statements of any number of ticks of the background loop (sign-ins, registrations and updates of
  farmers the passes write too, lists of the rows they are changing), while the clock advances and
  the chain moves: with a sound connection the loop leaves the same event store, cursors and
  projections as if its rounds had run in one piece from the state it started in, and the farmers
  table keeps its invariant.
\<close>

theorem indexer_among_requests:
  assumes "interfered (request_step b)\<^sup>*\<^sup>* (indexer_task text_of uuid ticks) (c, db) r (c', db')"
    and "budget db = None" and "farmers_inv (be_hash b) db"
  shows "pass_view db' = pass_view (fold (indexer_round text_of uuid) ticks db)
    \<and> farmers_inv (be_hash b) db'"
proof -
  have "undisturbed (be_hash b) (c, db)" using assms(2,3) by (simp add: undisturbed_def)
  from oblivious_serial [OF assms(1) oblivious_indexer [of "be_hash b"] _ this this refl] request_steps_framed [of b]
  show ?thesis by (simp add: pass_frame_def undisturbed_def run_indexer)
qed

text \<open>A pass over the sample chain; a challenge is issued before it ends.\<close>

definition sample_interfered :: "stub_chain \<times> pg" where
  "sample_interfered = (stub_chain_new, snd (challenge_handler sample_crypto (be_state sample_backend) ''GA'' ''n'' 0
    (snd (ingest (\<lambda>_. ''error'') (\<lambda>_. None) (sample_pull sample_verification) (Inr 20) ''C'' empty_pg))))"

definition sample_passed :: pg where
  "sample_passed = snd (ingest (\<lambda>_. ''error'') (\<lambda>_. None) (sample_pull sample_verification) (Inr 20) ''C'' empty_pg)"

definition sample_challenge :: "pg \<Rightarrow> (app_error + challenge) \<times> pg" where
  "sample_challenge = challenge_handler sample_crypto (be_state sample_backend) ''GA'' ''n'' 0"

lemma sample_interfered_eq: "sample_interfered = (stub_chain_new, snd (sample_challenge sample_passed))"
  by (simp add: sample_interfered_def sample_challenge_def sample_passed_def)

lemma sample_interfered_values:
  "map ledger_sequence (indexed_events sample_passed) = [5, 6]"
  "map ch_nonce (auth_challenges (snd (sample_challenge sample_passed))) = [''n'']"
proof -
  show "map ledger_sequence (indexed_events sample_passed) = [5, 6]" by code_simp
  have "budget sample_passed = None" "auth_challenges sample_passed = []" by code_simp+
  then show "map ch_nonce (auth_challenges (snd (sample_challenge sample_passed))) = [''n'']"
    by (simp add: sample_challenge_def challenge_handler_def issue_challenge_def and_then_apply map_err_apply
        validate_address_def sample_crypto_def insert_challenge_healthy Let_def)
qed

lemma sample_challenge_step: "request_step sample_backend (c, db) (c, snd (sample_challenge db))"
proof -
  let ?q = "AuthRequest (PostChallenge ''GA'')"
  let ?f = "\<lambda>s. (snd (on_pg sample_challenge s), Finish (answer sample_backend (\<lambda>c. (200, challenge_json c))
    (fst (on_pg sample_challenge s))))"
  have "serve_task sample_backend (sample_draw 0) ?q = Await ?f"
    by (simp add: await_pg_def atomic_def Tasks.map_task_def sample_draw_def case_prod_beta
        flip: sample_challenge_def)
  then have "remains (serve_task sample_backend (sample_draw 0) ?q) (Await ?f)" by (simp add: remains.whole)
  moreover have "(c, snd (sample_challenge db)) = fst (?f (c, db))" by (simp add: on_pg_state)
  ultimately show ?thesis unfolding request_step_def by blast
qed

theorem indexer_among_requests_witness:
  "map ledger_sequence (indexed_events (snd sample_interfered)) = [5, 6]
    \<and> map ch_nonce (auth_challenges (snd sample_interfered)) = [''n'']"
proof -
  let ?ticks = "[[(''C'', sample_pull sample_verification, Inr 20)]]"
  let ?t = "indexer_task (\<lambda>_. ''error'') (\<lambda>_. None) ?ticks"
  let ?s = "(stub_chain_new, empty_pg)"
  have end_state: "snd (run_task ?t ?s) = (stub_chain_new, sample_passed)"
    by (simp only: run_indexer) (simp add: sample_passed_def)
  have "interfered (request_step sample_backend)\<^sup>*\<^sup>* ?t ?s (fst (run_task ?t ?s)) sample_interfered"
    by (rule interfered_alone) (simp_all only: end_state sample_interfered_eq sample_challenge_step
        r_into_rtranclp rtranclp.rtrancl_refl)
  then have run: "interfered (request_step sample_backend)\<^sup>*\<^sup>* ?t ?s (fst (run_task ?t ?s))
      (stub_chain_new, snd (sample_challenge sample_passed))" unfolding sample_interfered_eq .
  have start: "budget empty_pg = None" "farmers_inv (be_hash sample_backend) empty_pg"
    by (simp_all add: farmers_inv_def farmers_ok_def empty_pg_def)
  from indexer_among_requests [OF run start]
  have "pass_view (snd (sample_challenge sample_passed)) = pass_view sample_passed"
    unfolding sample_passed_def by simp
  with sample_interfered_values show ?thesis by (simp add: pass_view_def sample_interfered_eq)
qed

end
