(* ===== verification/Loop_Safety.thy ===== *)
theory Loop_Safety
  imports Pass_Interference
begin

text \<open>
  The indexer's loop among requests and faults, at every moment of its run: between two of its
  statements requests take steps, the connection is lost and restored and the clock advances. The
  event store never misses an event at or before the resume cursor.
\<close>

section \<open>What the loop promises of the event store\<close>

definition store_view :: "pg \<Rightarrow> (string \<Rightarrow> chain_event list) \<times> (string \<Rightarrow> cursor)" where
  "store_view db = (stored db, cursor_of db)"

text \<open>Only events of the chain are stored, and all of those at or before the cursor.\<close>

definition covers ::
  "(string \<Rightarrow> chain_event list) \<Rightarrow> (string \<Rightarrow> chain_event list) \<times> (string \<Rightarrow> cursor) \<Rightarrow> bool" where
  "covers chain v \<longleftrightarrow> (\<forall>cid. set (fst v cid) \<subseteq> set (chain cid)
    \<and> {e \<in> set (chain cid). event_pos e \<le> snd v cid} \<subseteq> set (fst v cid))"

text \<open>A step keeps the cover and deletes nothing.\<close>

definition extends ::
  "(string \<Rightarrow> chain_event list) \<Rightarrow> (string \<Rightarrow> chain_event list) \<times> (string \<Rightarrow> cursor) \<Rightarrow>
    (string \<Rightarrow> chain_event list) \<times> (string \<Rightarrow> cursor) \<Rightarrow> bool" where
  "extends chain v v' \<longleftrightarrow> (covers chain v \<longrightarrow> covers chain v') \<and> (\<forall>cid. set (fst v cid) \<subseteq> set (fst v' cid))"

lemma extends_refl [simp]: "extends chain v v"
  by (simp add: extends_def)

lemma extends_trans: "extends chain u v \<Longrightarrow> extends chain v w \<Longrightarrow> extends chain u w"
  unfolding extends_def by blast

text \<open>
  The chains: ordered, with the events under their contract, after the start of the chain. The
  source answers a pull with what lies behind the cursor in the part of the chain emitted so far.
\<close>

definition chains_ok :: "(string \<Rightarrow> chain_event list) \<Rightarrow> bool" where
  "chains_ok chain \<longleftrightarrow> (\<forall>cid. ordered_events (chain cid) \<and> (\<forall>e \<in> set (chain cid). contract_id e = cid))"

definition answers_part ::
  "(string \<Rightarrow> chain_event list) \<Rightarrow> string \<Rightarrow>
    (string \<Rightarrow> cursor \<Rightarrow> chain_events_error + chain_event list) \<Rightarrow> bool" where
  "answers_part chain cid pull \<longleftrightarrow> (\<forall>cur evs. pull cid cur = Inr evs \<longrightarrow>
    (\<exists>n. evs = filter (\<lambda>e. is_after (event_pos e) cur) (take n (chain cid))))"

lemma chain_positions:
  assumes "chains_ok chain" and "e \<in> set (chain cid)" and "e' \<in> set (chain cid)" and "event_pos e = event_pos e'"
  shows "e = e'"
  using chain_position_unique [of "chain cid" e e'] assms by (simp add: chains_ok_def)

section \<open>The statements of a pass\<close>

text \<open>Requests, faults and the clock leave the event store and the cursors.\<close>

definition store_rely :: "'c \<times> pg \<Rightarrow> 'c \<times> pg \<Rightarrow> bool" where
  "store_rely s s' \<longleftrightarrow> store_view (snd s') = store_view (snd s)"

lemma store_rely: "rely store_rely"
  by (simp add: rely_def store_rely_def)

definition store_guarantee :: "(string \<Rightarrow> chain_event list) \<Rightarrow> 'c \<times> pg \<Rightarrow> 'c \<times> pg \<Rightarrow> bool" where
  "store_guarantee chain s s' \<longleftrightarrow> extends chain (store_view (snd s)) (store_view (snd s'))"

text \<open>What a statement leaves: the cover, and with a result what the pass goes on with.\<close>

definition in_store :: "(string \<Rightarrow> chain_event list) \<Rightarrow>
    ('a \<Rightarrow> (string \<Rightarrow> chain_event list) \<times> (string \<Rightarrow> cursor) \<Rightarrow> bool) \<Rightarrow>
    'e + 'a \<Rightarrow> 'c \<times> pg \<Rightarrow> bool" where
  "in_store chain P r s \<longleftrightarrow> covers chain (store_view (snd s))
    \<and> (\<forall>a. r = Inr a \<longrightarrow> P a (store_view (snd s)))"

lemma in_store_simps [simp]:
  "in_store chain P (Inl e) s \<longleftrightarrow> covers chain (store_view (snd s))"
  "in_store chain P (Inr a) s \<longleftrightarrow> covers chain (store_view (snd s)) \<and> P a (store_view (snd s))"
  by (simp_all add: in_store_def)

lemma in_store_rely: "in_store chain P r s \<Longrightarrow> store_rely s s' \<Longrightarrow> in_store chain P r s'"
  by (simp add: in_store_def store_rely_def)

lemma safe_store_statement:
  assumes "L (store_view (snd s))"
    and "\<And>db. L (store_view db) \<Longrightarrow> extends chain (store_view db) (store_view (snd (m db)))
      \<and> in_store chain P (fst (m db)) ((), snd (m db))"
  shows "safe store_rely (store_guarantee chain) (in_store chain P) (await_pg m) s"
  unfolding await_pg_def
proof (rule safe_atomic)
  fix s' assume "store_rely s s'"
  then have L: "L (store_view (snd s'))" using assms(1) by (simp add: store_rely_def)
  then show "store_guarantee chain s' (snd (on_pg m s'))"
    using assms(2) [of "snd s'"] by (cases s') (simp add: on_pg_state store_guarantee_def)
  fix s'' assume "store_rely (snd (on_pg m s')) s''"
  with L show "in_store chain P (fst (on_pg m s')) s''"
    using assms(2) [of "snd s'"] by (cases s') (simp add: on_pg_apply case_prod_beta store_rely_def in_store_def)
qed

lemma safe_store_answer:
  assumes "covers chain (store_view (snd s))" and "\<And>a. x = Inr a \<Longrightarrow> P a (store_view (snd s))"
  shows "safe store_rely (store_guarantee chain) (in_store chain P) (atomic (lift_result x)) s"
  by (rule safe_atomic) (use assms in \<open>simp_all add: store_rely_def in_store_def store_guarantee_def\<close>)

text \<open>A finished task, a converted error and a composition.\<close>

lemma safe_store_finish:
  "in_store chain P r s \<Longrightarrow> safe store_rely (store_guarantee chain) (in_store chain P) (Finish r) s"
  by (rule safe.finish) (rule in_store_rely)

lemma safe_store_internal:
  assumes "safe store_rely (store_guarantee chain) (in_store chain P) t s"
  shows "safe store_rely (store_guarantee chain) (in_store chain P) (internal_task text_of t) s"
  unfolding internal_task_def awaiting_err_def
proof (rule safe_map [OF assms store_rely])
  show "in_store chain P r s' \<Longrightarrow> safe store_rely (store_guarantee chain) (in_store chain P)
      (Finish (map_sum (\<lambda>e. ChainInternal (text_of e)) (\<lambda>a. a) r)) s'" for r s'
    by (rule safe_store_finish) (cases r; simp)
qed

lemma safe_store_then:
  assumes "safe store_rely (store_guarantee chain) (in_store chain P) t s"
    and "\<And>a s'. covers chain (store_view (snd s')) \<Longrightarrow> P a (store_view (snd s')) \<Longrightarrow>
      safe store_rely (store_guarantee chain) (in_store chain Q) (k a) s'"
  shows "safe store_rely (store_guarantee chain) (in_store chain Q) (and_await t k) s"
proof (rule safe_and_await [OF assms(1) store_rely])
  show "in_store chain P (Inl e) s' \<Longrightarrow> safe store_rely (store_guarantee chain) (in_store chain Q) (Finish (Inl e)) s'"
    for e s' by (rule safe_store_finish) simp
qed (simp add: assms(2))

text \<open>The pass on a contract has read the cursor and stored a set of the events.\<close>

definition loaded :: "(string \<Rightarrow> chain_event list) \<Rightarrow> string \<Rightarrow> chain_event set \<Rightarrow> cursor \<Rightarrow>
    (string \<Rightarrow> chain_event list) \<times> (string \<Rightarrow> cursor) \<Rightarrow> bool" where
  "loaded chain cid A cur v \<longleftrightarrow> covers chain v \<and> A \<subseteq> set (fst v cid) \<and> snd v cid = cur"

lemma store_view_budget [simp]: "store_view (db\<lparr>budget := b\<rparr>) = store_view db"
  by (simp add: store_view_def stored_def [abs_def] cursor_of_def [abs_def])

lemma safe_get_cursor:
  assumes "covers chain (store_view (snd s))"
  shows "safe store_rely (store_guarantee chain) (in_store chain (loaded chain cid {})) (await_pg (get_cursor cid)) s"
proof (rule safe_store_statement [where L = "covers chain"])
  fix db assume c: "covers chain (store_view db)"
  obtain b where b: "snd (get_cursor cid db) = db\<lparr>budget := b\<rparr>"
    "\<forall>cur. fst (get_cursor cid db) = Inr cur \<longrightarrow> cur = cursor_of db cid"
    using get_cursor_effect [of cid db] by blast
  then show "extends chain (store_view db) (store_view (snd (get_cursor cid db)))
      \<and> in_store chain (loaded chain cid {}) (fst (get_cursor cid db)) ((), snd (get_cursor cid db))"
    using c by (auto simp: in_store_def loaded_def store_view_def [of db])
qed (rule assms)

text \<open>One event of the chain, then all of a pull.\<close>

lemma stored_insert:
  "set (stored (db\<lparr>indexed_events := insert_event e (indexed_events db)\<rparr>) cid) \<subseteq>
    set (stored db cid) \<union> (if contract_id e = cid then {e} else {})"
  "set (stored db cid) \<subseteq> set (stored (db\<lparr>indexed_events := insert_event e (indexed_events db)\<rparr>) cid)"
  "\<exists>e' \<in> set (stored (db\<lparr>indexed_events := insert_event e (indexed_events db)\<rparr>) (contract_id e)).
    event_pos e' = event_pos e"
proof -
  show "\<exists>e' \<in> set (stored (db\<lparr>indexed_events := insert_event e (indexed_events db)\<rparr>) (contract_id e)).
    event_pos e' = event_pos e"
  proof (cases "natural_key e \<in> natural_key ` set (indexed_events db)")
    case True
    then obtain e' where "e' \<in> set (indexed_events db)" "natural_key e' = natural_key e" by auto
    then show ?thesis using True by (auto simp: stored_def insert_event_def natural_key_pos)
  qed (auto simp: stored_def insert_event_def)
qed (auto simp: stored_def insert_event_def)

lemma loaded_insert:
  assumes "chains_ok chain" and "e \<in> set (chain cid)" and "loaded chain cid A cur (store_view db)"
  shows "loaded chain cid (insert e A) cur
      (store_view (db\<lparr>indexed_events := insert_event e (indexed_events db)\<rparr>))"
    (is "loaded _ _ _ _ (store_view ?db)")
proof -
  note here = assms(3) [unfolded loaded_def covers_def store_view_def]
  have cid: "contract_id e = cid" using assms(1,2) by (simp add: chains_ok_def)
  have sub: "set (stored ?db c) \<subseteq> set (chain c)" for c
  proof -
    have "set (stored db c) \<subseteq> set (chain c)" using here by simp
    with stored_insert(1) [of e db c] assms(2) cid show ?thesis by (auto split: if_splits)
  qed
  have e: "e \<in> set (stored ?db cid)"
    using stored_insert(3) [of e db] sub [of cid] chain_positions [OF assms(1,2)] cid by fastforce
  have curs: "cursor_of ?db = cursor_of db" by (simp add: fun_eq_iff cursor_of_def)
  show ?thesis
    unfolding loaded_def covers_def store_view_def fst_conv snd_conv curs
    using here sub e subset_trans [OF _ stored_insert(2) [of db _ e]] by simp
qed

lemma safe_insert:
  assumes "chains_ok chain" and "e \<in> set (chain cid)" and "loaded chain cid A cur (store_view (snd s))"
  shows "safe store_rely (store_guarantee chain) (in_store chain (\<lambda>_. loaded chain cid (insert e A) cur))
    (await_pg (insert_statement e)) s"
proof (rule safe_store_statement [where L = "loaded chain cid A cur"])
  fix db assume l: "loaded chain cid A cur (store_view db)"
  let ?g = "\<lambda>db. db\<lparr>indexed_events := insert_event e (indexed_events db)\<rparr>"
  note new = loaded_insert [OF assms(1,2) l]
  have ext: "extends chain (store_view db) (store_view (?g db))"
    using new stored_insert(2) [of db _ e] by (simp add: extends_def loaded_def store_view_def)
  have old: "covers chain (store_view db)" "covers chain (store_view (?g db))"
    using l new by (simp_all add: loaded_def)
  have same: "store_view (db\<lparr>budget := b, indexed_events := t\<rparr>) = store_view (db\<lparr>indexed_events := t\<rparr>)"
    for b t
    by (simp add: store_view_def stored_def [abs_def] cursor_of_def [abs_def])
  show "extends chain (store_view db) (store_view (snd (insert_statement e db)))
      \<and> in_store chain (\<lambda>_. loaded chain cid (insert e A) cur) (fst (insert_statement e db))
          ((), snd (insert_statement e db))"
    unfolding insert_statement_def
    by (cases rule: execute_write_cases [of ?g db]) (simp_all add: ext old new same del: split_paired_All)
qed (rule assms(3))

lemma safe_inserts:
  assumes "chains_ok chain" and "set evs \<subseteq> set (chain cid)" and "loaded chain cid A cur (store_view (snd s))"
  shows "safe store_rely (store_guarantee chain) (in_store chain (\<lambda>_. loaded chain cid (A \<union> set evs) cur))
    (for_each_await (\<lambda>e. await_pg (insert_statement e)) evs) s"
  using assms(2,3)
proof (induction evs arbitrary: A s)
  case Nil
  then have "in_store chain (\<lambda>_. loaded chain cid (A \<union> set []) cur) (Inr ()) s" by (simp add: loaded_def)
  then show ?case unfolding for_each_await.simps by (rule safe_store_finish)
next
  case (Cons e evs)
  have "e \<in> set (chain cid)" using Cons.prems(1) by simp
  from safe_insert [OF assms(1) this Cons.prems(2)] Cons.IH [of "insert e A"] Cons.prems(1) show ?case
    unfolding for_each_await.simps by (elim safe_store_then) simp
qed

text \<open>The resume cursor: after the last event of the pull nothing of the chain is missing before it.\<close>

lemma covers_advance:
  assumes "chains_ok chain" and "loaded chain cid (set evs) cur v" and "evs \<noteq> []"
    and "evs = filter (\<lambda>e. is_after (event_pos e) cur) (take n (chain cid))"
  shows "covers chain (fst v, (snd v)(cid := event_pos (last evs)))"
proof -
  have cov: "covers chain v" and A: "set evs \<subseteq> set (fst v cid)" and cur: "snd v cid = cur"
    using assms(2) by (simp_all add: loaded_def)
  have last: "last evs \<in> set (take n (chain cid))"
    using last_in_set [OF assms(3)] assms(4) by (metis filter_is_subset subsetD)
  have e: "e \<in> set (fst v cid)" if "e \<in> set (chain cid)" "event_pos e \<le> event_pos (last evs)" for e
  proof (cases "event_pos e \<le> cur")
    case True
    with cov cur that(1) show ?thesis by (auto simp: covers_def)
  next
    case False
    have "e \<notin> set (drop n (chain cid))"
    proof
      assume "e \<in> set (drop n (chain cid))"
      moreover have "ordered_events (take n (chain cid) @ drop n (chain cid))"
        using assms(1) by (simp add: chains_ok_def)
      ultimately have "event_pos (last evs) < event_pos e"
        using last unfolding map_append sorted_wrt_append by auto
      with that(2) show False by simp
    qed
    with that(1) have "e \<in> set (take n (chain cid))"
      by (metis append_take_drop_id Un_iff set_append)
    with False assms(4) have "e \<in> set evs" by simp
    with A show ?thesis by blast
  qed
  show ?thesis using cov e by (auto simp: covers_def)
qed

lemma safe_set_cursor:
  assumes "chains_ok chain" and "loaded chain cid (set evs) cur (store_view (snd s))" and "evs \<noteq> []"
    and "evs = filter (\<lambda>e. is_after (event_pos e) cur) (take n (chain cid))"
  shows "safe store_rely (store_guarantee chain) (in_store chain (\<lambda>_ _. True))
    (await_pg (set_cursor cid (event_pos (last evs)))) s"
proof (rule safe_store_statement [where L = "loaded chain cid (set evs) cur"])
  fix db assume l: "loaded chain cid (set evs) cur (store_view db)"
  let ?c = "event_pos (last evs)"
  have view: "store_view (with_cursor cid ?c (db\<lparr>budget := b\<rparr>)) = (stored db, (cursor_of db)(cid := ?c))" for b
    by (simp add: store_view_def fun_eq_iff stored_def cursor_of_def [of "_\<lparr>budget := b\<rparr>"])
  have new: "covers chain (stored db, (cursor_of db)(cid := ?c))"
    using covers_advance [OF assms(1) l assms(3,4)] by (simp add: store_view_def)
  have old: "covers chain (store_view db)" using l by (simp add: loaded_def)
  obtain b where "snd (set_cursor cid ?c db) = db\<lparr>budget := b\<rparr>
      \<or> snd (set_cursor cid ?c db) = with_cursor cid ?c (db\<lparr>budget := b\<rparr>)"
    using set_cursor_effect by blast
  then show "extends chain (store_view db) (store_view (snd (set_cursor cid ?c db)))
      \<and> in_store chain (\<lambda>_ _. True) (fst (set_cursor cid ?c db)) ((), snd (set_cursor cid ?c db))"
    using old new by (elim disjE) (simp_all add: view extends_def in_store_def, simp_all add: store_view_def)
qed (rule assms(2))

text \<open>The finalized events are read and projected.\<close>

lemma safe_finalized:
  assumes "covers chain (store_view (snd s))"
  shows "safe store_rely (store_guarantee chain) (in_store chain (\<lambda>_ _. True))
    (await_pg (finalized_events cid floor)) s"
proof (rule safe_store_statement [where L = "covers chain"])
  fix db assume "covers chain (store_view db)"
  moreover obtain b where "snd (finalized_events cid floor db) = db\<lparr>budget := b\<rparr>"
    using finalized_events_effect [of cid floor db] by blast
  ultimately show "extends chain (store_view db) (store_view (snd (finalized_events cid floor db)))
      \<and> in_store chain (\<lambda>_ _. True) (fst (finalized_events cid floor db)) ((), snd (finalized_events cid floor db))"
    by (simp add: in_store_def)
qed (rule assms)

lemma apply_event_view: "store_view (snd (apply_event uuid e db)) = store_view db"
proof -
  have "projection_blind (\<lambda>d. store_view d = store_view db)"
    by (simp add: projection_blind_def fault_blind_def store_view_def stored_def [abs_def] cursor_of_def [abs_def])
  from keepsD [OF keeps_apply_event [OF this] refl] show ?thesis .
qed

lemma safe_apply_event:
  assumes "covers chain (store_view (snd s))"
  shows "safe store_rely (store_guarantee chain) (in_store chain (\<lambda>_ _. True)) (await_pg (apply_event uuid e)) s"
  by (rule safe_store_statement [where L = "covers chain"]) (simp_all add: assms apply_event_view in_store_def)

lemma safe_apply_finalized:
  "covers chain (store_view (snd s)) \<Longrightarrow>
    safe store_rely (store_guarantee chain) (in_store chain (\<lambda>_ _. True))
      (apply_finalized_task text_of uuid evs applied) s"
proof (induction evs arbitrary: applied s)
  case (Cons e evs)
  show ?case
    unfolding apply_finalized_task.simps
    by (rule safe_store_then [OF safe_store_internal [OF safe_apply_event [OF Cons.prems]]]) (rule Cons.IH)
next
  case Nil
  then show ?case unfolding apply_finalized_task.simps by (intro safe_store_finish) simp
qed

section \<open>The pass, the round and the loop\<close>

lemma safe_ingest:
  fixes s :: "'c \<times> pg"
  assumes "chains_ok chain" and "answers_part chain cid pull" and "covers chain (store_view (snd s))"
  shows "safe store_rely (store_guarantee chain) (in_store chain (\<lambda>_ _. True))
    (ingest_task text_of uuid pull head cid) s"
proof -
  note steps = safe_store_then safe_store_internal
  have rest: "safe store_rely (store_guarantee chain) (in_store chain (\<lambda>_ _. True))
      (and_await (internal_task text_of (await_pg (finalized_events cid floor))) (\<lambda>finalized.
       and_await (apply_finalized_task text_of uuid finalized 0) (\<lambda>applied. Finish (Inr k)))) s"
    if "covers chain (store_view (snd s))" for floor k and s :: "'c \<times> pg"
    by (intro steps(1) [OF steps(2) [OF safe_finalized [OF that]]] steps(1) [OF safe_apply_finalized]
        safe_store_finish) simp_all
  have storing: "safe store_rely (store_guarantee chain) (in_store chain (\<lambda>_ _. True))
      (and_await (internal_task text_of (for_each_await (\<lambda>e. await_pg (insert_statement e)) evs)) (\<lambda>_.
       and_await (internal_task text_of (await_pg (set_cursor cid (event_pos (last evs))))) (\<lambda>_.
       and_await (internal_task text_of (await_pg (finalized_events cid floor))) (\<lambda>finalized.
       and_await (apply_finalized_task text_of uuid finalized 0) (\<lambda>applied. Finish (Inr k)))))) s"
    if evs: "evs = filter (\<lambda>e. is_after (event_pos e) cur) (take n (chain cid))" "evs \<noteq> []"
      and cur: "loaded chain cid {} cur (store_view (snd s))" for evs n cur floor k and s :: "'c \<times> pg"
  proof -
    have "set evs \<subseteq> set (chain cid)" using evs(1) by (auto dest: in_set_takeD)
    from safe_inserts [OF assms(1) this cur, unfolded Un_empty_left] show ?thesis
      by (intro steps(1) [OF steps(2)] steps(1) [OF steps(2) [OF safe_set_cursor [OF assms(1) _ evs(2,1)]]] rest)
  qed
  have pulled: "safe store_rely (store_guarantee chain) (in_store chain (\<lambda>events v. loaded chain cid {} cur v
      \<and> (\<exists>n. events = filter (\<lambda>e. is_after (event_pos e) cur) (take n (chain cid)))))
      (atomic (lift_result (pull cid cur))) s"
    if "loaded chain cid {} cur (store_view (snd s))" for cur and s :: "'c \<times> pg"
    by (rule safe_store_answer)
      (use that assms(2) in \<open>auto simp: loaded_def answers_part_def\<close>)
  have height: "safe store_rely (store_guarantee chain) (in_store chain (\<lambda>_. loaded chain cid {} cur))
      (atomic (lift_result head)) s"
    if "loaded chain cid {} cur (store_view (snd s))" for cur and s :: "'c \<times> pg"
    by (rule safe_store_answer) (use that in \<open>simp_all add: loaded_def\<close>)
  have last_pos: "(case events of [] \<Rightarrow> cur | _ \<Rightarrow>
      Cursor (ledger_sequence (last events)) (operation_index (last events)) (event_index (last events)))
      = event_pos (last events)" if "events \<noteq> []" for cur events
    using that by (simp add: event_pos_def split: list.split)
  show ?thesis
    unfolding ingest_task_def Let_def
  proof (intro steps(1) [OF steps(2) [OF safe_get_cursor [OF assms(3)]]] steps(1) [OF pulled], assumption)
    fix cur events and s :: "'c \<times> pg"
    assume l: "covers chain (store_view (snd s))" "loaded chain cid {} cur (store_view (snd s))
      \<and> (\<exists>n. events = filter (\<lambda>e. is_after (event_pos e) cur) (take n (chain cid)))"
    then obtain n where n: "events = filter (\<lambda>e. is_after (event_pos e) cur) (take n (chain cid))" by blast
    show "safe store_rely (store_guarantee chain) (in_store chain (\<lambda>_ _. True))
      (if events = [] then Finish (Inr 0)
       else and_await (atomic (lift_result head)) (\<lambda>head.
         and_await (internal_task text_of (for_each_await (\<lambda>e. await_pg (insert_statement e)) events)) (\<lambda>_.
         and_await (internal_task text_of (await_pg (set_cursor cid (case events of [] \<Rightarrow> cur | _ \<Rightarrow>
           Cursor (ledger_sequence (last events)) (operation_index (last events))
             (event_index (last events)))))) (\<lambda>_.
         and_await (internal_task text_of (await_pg (finalized_events cid (head - TRUSTED_CUTOFF)))) (\<lambda>finalized.
         and_await (apply_finalized_task text_of uuid finalized 0) (\<lambda>applied. Finish (Inr (length events)))))))) s"
    proof (cases "events = []")
      case True
      with l show ?thesis by (simp add: safe_store_finish)
    next
      case False
      from l have "loaded chain cid {} cur (store_view (snd s))" by blast
      from height [OF this] show ?thesis
        unfolding if_not_P [OF False] last_pos [OF False] by (rule steps(1)) (rule storing [OF n False])
    qed
  qed
qed

lemma safe_round:
  fixes s :: "'c \<times> pg"
  assumes "chains_ok chain" and "\<And>cid pull head. (cid, pull, head) \<in> set ticked \<Longrightarrow> answers_part chain cid pull"
    and "covers chain (store_view (snd s))"
  shows "safe store_rely (store_guarantee chain) (\<lambda>_ s. covers chain (store_view (snd s)))
    (round_task text_of uuid ticked) s"
  using assms(2,3)
proof (induction ticked arbitrary: s)
  case (Cons p ticked)
  obtain cid pull head where p: "p = (cid, pull, head)" by (cases p)
  have "answers_part chain cid pull" by (rule Cons.prems(1) [of cid pull head]) (simp add: p)
  from safe_ingest [OF assms(1) this Cons.prems(2)] show ?case
    unfolding p round_task.simps
    by (rule safe_bind [OF _ store_rely]) (rule Cons.IH, use Cons.prems(1) in \<open>auto simp: in_store_def\<close>)
qed (auto intro: safe.finish simp: store_rely_def)

lemma safe_indexer_store:
  fixes s :: "'c \<times> pg"
  assumes "chains_ok chain"
    and "\<And>ticked cid pull head. ticked \<in> set ticks \<Longrightarrow> (cid, pull, head) \<in> set ticked \<Longrightarrow>
      answers_part chain cid pull"
    and "covers chain (store_view (snd s))"
  shows "safe store_rely (store_guarantee chain) (\<lambda>_ s. covers chain (store_view (snd s)))
    (indexer_task text_of uuid ticks) s"
  using assms(2,3)
proof (induction ticks arbitrary: s)
  case (Cons ticked later)
  have sleep: "safe store_rely (store_guarantee chain) (\<lambda>_ s. covers chain (store_view (snd s)))
      (atomic (\<lambda>s. ((), s))) s" if "covers chain (store_view (snd s))" for s :: "'c \<times> pg"
    by (rule safe_atomic) (use that in \<open>simp_all add: store_rely_def store_guarantee_def\<close>)
  show ?case
    unfolding indexer_task.simps
    by (rule safe_bind [OF safe_round [OF assms(1) _ Cons.prems(2)] store_rely],
        use Cons.prems(1) in fastforce,
        rule safe_bind [OF sleep store_rely], assumption, rule Cons.IH)
      (use Cons.prems(1) in auto)
qed (auto intro: safe.finish simp: store_rely_def)

section \<open>The loop among the others\<close>

definition answered_ticks :: "(string \<Rightarrow> chain_event list) \<Rightarrow>
    (string \<times> (string \<Rightarrow> cursor \<Rightarrow> chain_events_error + chain_event list) \<times> (chain_events_error + int)) list list
    \<Rightarrow> bool" where
  "answered_ticks chain ticks \<longleftrightarrow>
    (\<forall>ticked \<in> set ticks. \<forall>(cid, pull, head) \<in> set ticked. answers_part chain cid pull)"

text \<open>
  The backend's process and the database: the loop's next statement, a step of a request, the clock,
  the connection lost or restored, and the process stopped and started again.
\<close>

inductive loop_step ::
  "('c, 'k, 'g) backend \<Rightarrow> (sqlx_error \<Rightarrow> string) \<Rightarrow> (string \<Rightarrow> string option) \<Rightarrow>
    (string \<Rightarrow> chain_event list) \<Rightarrow> ('c \<times> pg, unit) task \<times> 'c \<times> pg \<Rightarrow> ('c \<times> pg, unit) task \<times> 'c \<times> pg \<Rightarrow> bool"
  for b text_of uuid chain where
  own: "loop_step b text_of uuid chain (Await f, s) (snd (f s), fst (f s))"
| request: "request_step b s s' \<Longrightarrow> loop_step b text_of uuid chain (t, s) (t, s')"
| fault: "service_env s s' \<Longrightarrow> loop_step b text_of uuid chain (t, s) (t, s')"
| restart: "answered_ticks chain ticks \<Longrightarrow>
    loop_step b text_of uuid chain (t, s) (indexer_task text_of uuid ticks, s)"

inductive_cases loop_stepE: "loop_step b text_of uuid chain (t, s) (t', s')"

lemma others_leave_store:
  "request_step b s s' \<Longrightarrow> store_rely s s'"
  "service_env s s' \<Longrightarrow> store_rely s s'"
  by (auto simp: store_rely_def store_view_def stored_def [abs_def] cursor_of_def [abs_def] pass_frame_def
      pass_view_def service_env_def dest: request_step_framed)

lemma loop_safe:
  assumes "chains_ok chain" and "answered_ticks chain ticks" and "covers chain (store_view (snd s))"
  shows "safe store_rely (store_guarantee chain) (\<lambda>_ s. covers chain (store_view (snd s)))
    (indexer_task text_of uuid ticks) s"
  by (rule safe_indexer_store [OF assms(1) _ assms(3)]) (use assms(2) in \<open>auto simp: answered_ticks_def\<close>)

lemma loop_moment:
  assumes "(loop_step b text_of uuid chain)\<^sup>*\<^sup>* (indexer_task text_of uuid ticks, s) (t, s')"
    and "chains_ok chain" and "answered_ticks chain ticks" and "covers chain (store_view (snd s))"
  shows "safe store_rely (store_guarantee chain) (\<lambda>_ s. covers chain (store_view (snd s))) t s'
    \<and> extends chain (store_view (snd s)) (store_view (snd s'))"
  using assms(1)
proof (induction rule: rtranclp_induct2)
  case refl
  show ?case using loop_safe [OF assms(2-4)] by simp
next
  case (step t1 s1 t2 s2)
  then have here: "safe store_rely (store_guarantee chain) (\<lambda>_ s. covers chain (store_view (snd s))) t1 s1"
    and ext: "extends chain (store_view (snd s)) (store_view (snd s1))" by blast+
  with assms(4) have cov: "covers chain (store_view (snd s1))" by (simp add: extends_def)
  from step.hyps(2) show ?case
  proof (rule loop_stepE)
    fix f assume "t1 = Await f" "t2 = snd (f s1)" "s2 = fst (f s1)"
    with safe_step [OF here [unfolded \<open>t1 = Await f\<close>] rely_refl [OF store_rely]]
    have "extends chain (store_view (snd s1)) (store_view (snd s2))"
      and "safe store_rely (store_guarantee chain) (\<lambda>_ s. covers chain (store_view (snd s))) t2 s2"
      by (simp_all add: store_guarantee_def)
    with extends_trans [OF ext] show ?thesis by blast
  next
    fix ticks assume "t2 = indexer_task text_of uuid ticks" "s2 = s1" "answered_ticks chain ticks"
    with loop_safe [OF assms(2) _ cov] ext show ?thesis by simp
  next
    assume "t2 = t1" "request_step b s1 s2"
    with safe_stable [OF here store_rely] others_leave_store(1) ext show ?thesis
      by (metis store_rely_def)
  next
    assume "t2 = t1" "service_env s1 s2"
    with safe_stable [OF here store_rely] others_leave_store(2) ext show ?thesis
      by (metis store_rely_def)
  qed
qed

text \<open>
  C15. The running indexer loses nothing, at any moment. The background loop runs a statement at a
  time; in between, requests take any of their steps, the connection is lost and restored, the
  clock advances, and the process may be stopped in the middle of a pass and started again any
  number of times, while the chain grows. At every moment of such a run each contract's event store
  holds only events of its chain, every event at or before its cursor among them, and nothing that
  was stored before is gone.
\<close>

theorem interrupted_loop_loses_nothing:
  assumes "(loop_step b text_of uuid chain)\<^sup>*\<^sup>* (indexer_task text_of uuid ticks, (c, db)) (t, (c', db'))"
    and "chains_ok chain" and "answered_ticks chain ticks" and "covers chain (stored db, cursor_of db)"
  shows "set (stored db' cid) \<subseteq> set (chain cid)
    \<and> {e \<in> set (chain cid). event_pos e \<le> cursor_of db' cid} \<subseteq> set (stored db' cid)
    \<and> set (stored db cid) \<subseteq> set (stored db' cid)"
proof -
  have cov: "covers chain (store_view (snd (c, db)))" using assms(4) by (simp add: store_view_def)
  from loop_moment [OF assms(1-3) this] cov show ?thesis
    by (simp add: extends_def covers_def store_view_def)
qed

text \<open>A pass stopped after its first event, and the loop started again.\<close>

lemma own_steps: "(loop_step b text_of uuid chain)\<^sup>*\<^sup>* (t, s) (Finish (fst (run_task t s)), snd (run_task t s))"
proof (induction t arbitrary: s)
  case (Await f)
  have "(loop_step b text_of uuid chain)\<^sup>*\<^sup>* (snd (f s), fst (f s))
      (Finish (fst (run_task (snd (f s)) (fst (f s)))), snd (run_task (snd (f s)) (fst (f s))))"
    by (rule Await.IH [OF rangeI]) (simp add: prod_set_defs)
  then show ?case
    using loop_step.own [of b text_of uuid chain f s] by (simp add: run_await converse_rtranclp_into_rtranclp)
qed (simp add: run_task.simps)

definition sample_ticks ::
  "(string \<times> (string \<Rightarrow> cursor \<Rightarrow> chain_events_error + chain_event list) \<times> (chain_events_error + int)) list list"
  where "sample_ticks = [[(''C'', sample_pull sample_verification, Inr 20)]]"

definition sample_cut :: pg where
  "sample_cut = fold (indexer_round (\<lambda>_. ''error'') (\<lambda>_. None)) sample_ticks (empty_pg\<lparr>budget := Some 2\<rparr>)"

definition sample_resumed :: pg where
  "sample_resumed = fold (indexer_round (\<lambda>_. ''error'') (\<lambda>_. None)) sample_ticks (sample_cut\<lparr>budget := None\<rparr>)"

lemma sample_loop_values:
  "map ledger_sequence (stored sample_cut ''C'') = [5]" "cursor_of sample_cut ''C'' = START"
  "cursor_of sample_resumed ''C'' = Cursor 6 0 0"
  by code_simp+

theorem interrupted_loop_loses_nothing_witness:
  "map ledger_sequence (stored sample_cut ''C'') = [5] \<and> cursor_of sample_cut ''C'' = START
    \<and> {e \<in> set sample_verification. event_pos e \<le> cursor_of sample_resumed ''C''} \<subseteq> set (stored sample_resumed ''C'')
    \<and> set (stored sample_cut ''C'') \<subseteq> set (stored sample_resumed ''C'')
    \<and> cursor_of sample_resumed ''C'' = Cursor 6 0 0"
proof -
  let ?chain = "sample_log sample_verification"
  let ?t = "indexer_task (\<lambda>_. ''error'') (\<lambda>_. None) sample_ticks"
  let ?step = "loop_step sample_backend (\<lambda>_. ''error'') (\<lambda>_. None) ?chain"
  let ?c = stub_chain_new
  have ok: "chains_ok ?chain" by (simp add: chains_ok_def sample_log_def sample_verification_def
        sample_event_def event_pos_def less_cursor_def is_after_def del: is_after_less)
  have ticks: "answered_ticks ?chain sample_ticks"
    by (auto simp: answered_ticks_def sample_ticks_def answers_part_def sample_pull_def intro: exI [of _ 2]
        simp: sample_log_def sample_verification_def)
  have fault: "?step\<^sup>*\<^sup>* (t, ?c, db) (t, ?c, db\<lparr>budget := n\<rparr>)" for t db n
  proof (rule r_into_rtranclp, rule loop_step.fault)
    have "db\<lparr>budget := n\<rparr> = db\<lparr>budget := n, ack_lost := ack_lost db, pg_now := pg_now db\<rparr>" by simp
    then show "service_env (?c, db) (?c, db\<lparr>budget := n\<rparr>)" unfolding service_env_def snd_conv by blast
  qed
  have alone: "?step\<^sup>*\<^sup>* (?t, ?c, db)
      (Finish (), ?c, fold (indexer_round (\<lambda>_. ''error'') (\<lambda>_. None)) sample_ticks db)" for db
    using own_steps [of _ _ _ ?chain ?t "(?c, db)"] by (simp only: run_indexer fst_conv snd_conv)
  have first: "?step\<^sup>*\<^sup>* (?t, ?c, empty_pg) (Finish (), ?c, sample_cut)"
    unfolding sample_cut_def by (rule rtranclp_trans [OF fault alone])
  have again: "?step\<^sup>*\<^sup>* (?t, ?c, sample_cut) (Finish (), ?c, sample_resumed)"
    unfolding sample_resumed_def by (rule rtranclp_trans [OF fault alone])
  have genesis: "covers ?chain (stored empty_pg, cursor_of empty_pg)"
    by (auto simp: covers_def stored_def empty_pg_def cursor_of_def tbl_find_Nil sample_log_def
        sample_verification_def sample_event_def event_pos_def START_def less_eq_cursor_def less_cursor_def is_after_def
        simp del: is_after_less)
  have cut: "covers ?chain (stored sample_cut, cursor_of sample_cut)"
    using interrupted_loop_loses_nothing [OF first ok ticks genesis] by (simp add: covers_def)
  have "?step (Finish (), ?c, sample_cut) (?t, ?c, sample_cut)" by (rule loop_step.restart [OF ticks])
  note whole = rtranclp_trans [OF first converse_rtranclp_into_rtranclp [of ?step, OF this again]]
  from interrupted_loop_loses_nothing [OF whole ok ticks genesis, of "''C''"]
    interrupted_loop_loses_nothing [OF again ok ticks cut, of "''C''"] show ?thesis
    by (simp add: sample_loop_values sample_log_def)
qed

end
