(* ===== verification/Session_Limits.thy ===== *)
theory Session_Limits
  imports Auth_Properties
begin

text \<open>
  \<open>src/auth/service.rs\<close> at its limits: the random tokens as a header can carry them, and session
  lifetimes that leave the range of durations or dates.
\<close>

section \<open>Minted tokens\<close>

text \<open>\<open>bytes\<close> are the 32 bytes of the random source and \<open>hex\<close> is \<open>hex::encode\<close>.\<close>

definition new_nonce :: "(nat list \<Rightarrow> string) \<Rightarrow> nat list \<Rightarrow> string" where
  "new_nonce hex bytes = hex bytes"

text \<open>Two lower case hexadecimal digits for every byte.\<close>

definition hex_text :: "(nat list \<Rightarrow> string) \<Rightarrow> bool" where
  "hex_text hex \<longleftrightarrow> (\<forall>bytes. length (hex bytes) = 2 * length bytes \<and> set (hex bytes) \<subseteq> set ''0123456789abcdef'')"

lemma minted_token_presentable:
  assumes "hex_text hex" and "length bytes = 32"
  shows "bearer_token (Some (BEARER_PREFIX @ new_nonce hex bytes)) = Inr (new_nonce hex bytes)"
proof -
  have len: "length (hex bytes) = 64" and sub: "set (hex bytes) \<subseteq> set ''0123456789abcdef''"
    using assms by (simp_all add: hex_text_def)
  have "list_all (\<lambda>c. c = CHR 0x09 \<or> CHR 0x20 \<le> c \<and> c < CHR 0x7F) ''0123456789abcdef''" by code_simp
  with sub have "list_all (\<lambda>c. c = CHR 0x09 \<or> CHR 0x20 \<le> c \<and> c < CHR 0x7F) (hex bytes)"
    by (auto simp only: list_all_iff)
  moreover have "list_all (\<lambda>c. c = CHR 0x09 \<or> CHR 0x20 \<le> c \<and> c < CHR 0x7F) BEARER_PREFIX" by code_simp
  ultimately have "header_text (BEARER_PREFIX @ hex bytes) = Some (BEARER_PREFIX @ hex bytes)"
    by (simp only: header_text_def list_all_append simp_thms if_True)
  moreover have "hex bytes \<noteq> []" using len by auto
  ultimately show ?thesis by (simp add: bearer_token_def new_nonce_def)
qed

text \<open>The token a verification returned, sent back as a header, is let in until it expires.\<close>

theorem minted_token_signs_in:
  assumes "hex_text hex" and "length bytes = 32" and "budget db = None"
    and "hash_token cr (new_nonce hex bytes) \<notin> se_token_hash ` set (auth_sessions db)"
    and "acceptable cr domain req now1 db" and "cr_add_date cr now2 ttl = Some t" and "now3 < t"
  shows "\<exists>s db'. verify cr domain (Inr ttl) req (new_nonce hex bytes) now1 now2 db = (Inr s, db')
    \<and> from_request_parts cr (Some (BEARER_PREFIX @ sn_token s)) now3 db' =
        (Inr \<lparr> au_address = rq_address req, au_roles = [''farmer''] \<rparr>, db')"
proof -
  let ?token = "new_nonce hex bytes"
  let ?row = "new_session cr req ?token t"
  let ?db = "(used_nonce (rq_nonce req) db)\<lparr>auth_sessions := auth_sessions db @ [?row]\<rparr>"
  let ?s = "\<lparr> sn_token = ?token, sn_address = rq_address req, sn_roles = [''farmer''], sn_expires_at = t \<rparr>"
  have "verify_check cr domain req now1 db = (Inr (), db)"
    using verify_check_healthy(1) [OF assms(3)] assms(5) by blast
  then have run: "verify cr domain (Inr ttl) req ?token now1 now2 db = (Inr ?s, ?db)"
    using assms(3,4,6) by (simp add: verify_def and_then_apply map_err_apply verify_commit_healthy)
  have "find (\<lambda>r. se_token_hash r = hash_token cr ?token) (auth_sessions db) = None"
    unfolding find_None_iff using assms(4) by (metis imageI)
  then have "tbl_find se_token_hash (auth_sessions ?db) (hash_token cr ?token) = Some ?row"
    by (simp add: tbl_find_def find_append new_session_def)
  then have "session_by_token cr ?token now3 ?db = (Inr ?row, ?db)"
    using assms(3,7) by (simp add: session_by_token_def Let_def and_then_apply map_err_apply new_session_def)
  then have "from_request_parts cr (Some (BEARER_PREFIX @ sn_token ?s)) now3 ?db =
      (Inr \<lparr> au_address = rq_address req, au_roles = [''farmer''] \<rparr>, ?db)"
    by (simp add: from_request_parts_def minted_token_presentable [OF assms(1,2)] and_then_apply new_session_def)
  with run show ?thesis by blast
qed

section \<open>The range of dates\<close>

text \<open>
  C17. A session lifetime that leaves the range of durations or of dates costs the challenge. The
  nonce of an acceptable request is spent before the expiry is computed, so the handler answers 500
  (a duration out of range) or panics (a date out of range) with the nonce spent and no session
  opened, and the same signed request is answered 409 from then on, with whatever lifetime.
\<close>

theorem lifetime_out_of_range:
  assumes "acceptable cr domain req now1 db" and "budget db = None"
    and "case ttl of Inl e \<Rightarrow> True | Inr d \<Rightarrow> cr_add_date cr now2 d = None"
  shows "verify cr domain ttl req token now1 now2 db =
      (Inl (case ttl of Inl e \<Rightarrow> Failed (InternalError e) | Inr d \<Rightarrow> Panic), used_nonce (rq_nonce req) db)
    \<and> verify cr domain ttl2 req token2 now3 now4 (used_nonce (rq_nonce req) db) =
      (Inl (Failed (Conflict ERR_NONCE_UNUSED_OR_EXPIRED)), used_nonce (rq_nonce req) db)"
proof
  show "verify cr domain ttl req token now1 now2 db =
      (Inl (case ttl of Inl e \<Rightarrow> Failed (InternalError e) | Inr d \<Rightarrow> Panic), used_nonce (rq_nonce req) db)"
    using verify_accepted [OF assms(2,1), of ttl token now2] assms(2,3)
    by (simp add: verify_commit_healthy split: sum.splits)
  let ?db = "used_nonce (rq_nonce req) db"
  have "find_challenge req ?db = None \<or> (\<exists>r. find_challenge req ?db = Some r \<and> ch_used r)"
  proof (cases "find_challenge req ?db")
    case (Some r)
    then have "r \<in> set (auth_challenges ?db)" "ch_nonce r = rq_nonce req"
      by (auto simp: find_challenge_def find_Some_iff)
    then have "ch_used r" by (auto simp: used_nonce_def tbl_update_def split: if_splits)
    with Some show ?thesis by blast
  qed simp
  moreover have "validate_address cr (rq_address req) = Inr ()" using assms(1) by (simp add: acceptable_def)
  ultimately have "verify_check cr domain req now3 ?db = (Inl (Conflict ERR_NONCE_UNUSED_OR_EXPIRED), ?db)"
    using assms(2) by (auto simp: verify_check_def action_simps)
  then show "verify cr domain ttl2 req token2 now3 now4 ?db = (Inl (Failed (Conflict ERR_NONCE_UNUSED_OR_EXPIRED)), ?db)"
    by (simp add: verify_def and_then_apply map_err_apply)
qed

text \<open>A calendar that ends at time 1000.\<close>

theorem lifetime_out_of_range_witness:
  "let cr = sample_crypto\<lparr>cr_add_date := \<lambda>t d. if t + d \<le> 1000 then Some (t + d) else None\<rparr>;
       (r, db) = verify cr ''app'' (Inr 2000) sample_verify_request ''t'' 1 2 sample_issued in
     r = Inl Panic \<and> map ch_used (auth_challenges db) = [True] \<and> auth_sessions db = []
     \<and> fst (verify cr ''app'' (Inr 100) sample_verify_request ''t'' 3 4 db) =
        Inl (Failed (Conflict ERR_NONCE_UNUSED_OR_EXPIRED))"
proof -
  let ?cr = "sample_crypto\<lparr>cr_add_date := \<lambda>t d. if t + d \<le> 1000 then Some (t + d) else None\<rparr>"
  have "acceptable ?cr ''app'' sample_verify_request 1 sample_issued"
    by (simp add: acceptable_def validate_address_def verify_signature_def sample_crypto_def
        sample_verify_request_def find_challenge_def sample_issued_simp)
  moreover have "budget sample_issued = None" by (simp add: sample_issued_simp empty_pg_def)
  moreover have "case Inr 2000 :: string + int of Inl e \<Rightarrow> True | Inr d \<Rightarrow> cr_add_date ?cr 2 d = None" by simp
  moreover have "map ch_used (auth_challenges (used_nonce (rq_nonce sample_verify_request) sample_issued)) = [True]"
    "auth_sessions (used_nonce (rq_nonce sample_verify_request) sample_issued) = []"
    by (simp_all add: used_nonce_def sample_issued_simp tbl_update_def sample_verify_request_def empty_pg_def)
  ultimately show ?thesis
    using lifetime_out_of_range [of ?cr "''app''" sample_verify_request 1 sample_issued 2 "Inr 2000" "''t''"
        "Inr 100" "''t''" 3 4]
    by (simp add: Let_def)
qed

end
