(* ===== verification/Api_Contract.thy ===== *)
theory Api_Contract
  imports Backend Backend_Properties
begin

text \<open>
  The documented interface: the \<open>#[utoipa::path]\<close> attribute of each handler (method, path,
  parameters, statuses, body schema), the \<open>ApiDoc\<close> of \<open>src/routes/mod.rs\<close>, the
  \<open>FarmersApiDoc\<close> of \<open>src/routes/farmers.rs\<close> and the \<open>ProjectionsApiDoc\<close> of
  \<open>src/routes/projections.rs\<close>, against what the routers serve, the handlers decode and answer.
\<close>

section \<open>The query strings the handlers decode\<close>

text \<open>The keys of the query structs: the field names, renamed as their \<open>serde\<close> attributes say.\<close>

definition search_farmers_query_keys :: "string list" where
  "search_farmers_query_keys = [''q'', ''page'', ''pageSize'']"

definition session_query_keys :: "string list" where
  "session_query_keys = [''token'']"

definition list_verifications_query_keys :: "string list" where
  "list_verifications_query_keys = [''batch_id'', ''subject'', ''issuer'', ''revoked'', ''page'', ''pageSize'']"

definition list_escrows_query_keys :: "string list" where
  "list_escrows_query_keys = [''depositor'', ''beneficiary'', ''bookingRef'', ''status'', ''page'', ''pageSize'']"

definition list_financings_query_keys :: "string list" where
  "list_financings_query_keys = [''funder'', ''beneficiary'', ''status'', ''page'', ''pageSize'']"

section \<open>The documented operations\<close>

record operation =
  op_method :: string
  op_path :: string
  op_params :: "string list"
  op_statuses :: "nat list"
  op_body :: string

definition health_path :: operation where
  "health_path =
    \<lparr> op_method = ''GET'', op_path = ''/health'', op_params = [],
      op_statuses = [200], op_body = ''Health'' \<rparr>"

definition get_farmer_path :: operation where
  "get_farmer_path =
    \<lparr> op_method = ''GET'', op_path = ''/api/v1/farmers/{address}'', op_params = [''address''],
      op_statuses = [200, 400, 404, 500], op_body = ''Farmer'' \<rparr>"

definition register_farmer_path :: operation where
  "register_farmer_path =
    \<lparr> op_method = ''POST'', op_path = ''/api/v1/farmers/register'', op_params = [],
      op_statuses = [201, 400, 401, 409], op_body = ''Farmer'' \<rparr>"

definition update_metadata_path :: operation where
  "update_metadata_path =
    \<lparr> op_method = ''PUT'', op_path = ''/api/v1/farmers/{address}/metadata'', op_params = [''address''],
      op_statuses = [200, 400, 401, 404], op_body = ''Farmer'' \<rparr>"

definition search_farmers_path :: operation where
  "search_farmers_path =
    \<lparr> op_method = ''GET'', op_path = ''/api/v1/farmers'', op_params = [''q'', ''page'', ''page_size''],
      op_statuses = [200, 400, 500], op_body = ''FarmerSearchResponse'' \<rparr>"

definition challenge_path :: operation where
  "challenge_path =
    \<lparr> op_method = ''POST'', op_path = ''/api/v1/auth/challenge'', op_params = [],
      op_statuses = [200, 400, 500], op_body = ''Challenge'' \<rparr>"

definition verify_path :: operation where
  "verify_path =
    \<lparr> op_method = ''POST'', op_path = ''/api/v1/auth/verify'', op_params = [],
      op_statuses = [200, 400, 401, 409, 500], op_body = ''Session'' \<rparr>"

definition session_path :: operation where
  "session_path =
    \<lparr> op_method = ''GET'', op_path = ''/api/v1/auth/session'', op_params = [''token''],
      op_statuses = [200, 401], op_body = ''SessionRow'' \<rparr>"

definition get_verification_path :: operation where
  "get_verification_path =
    \<lparr> op_method = ''GET'', op_path = ''/api/v1/verifications/{id}'', op_params = [''id''],
      op_statuses = [200, 400, 404], op_body = ''Verification'' \<rparr>"

definition list_verifications_path :: operation where
  "list_verifications_path =
    \<lparr> op_method = ''GET'', op_path = ''/api/v1/verifications'', op_params = list_verifications_query_keys,
      op_statuses = [200, 400, 500], op_body = ''VerificationListResponse'' \<rparr>"

definition get_escrow_path :: operation where
  "get_escrow_path =
    \<lparr> op_method = ''GET'', op_path = ''/api/v1/escrows/{id}'', op_params = [''id''],
      op_statuses = [200, 400, 404], op_body = ''Escrow'' \<rparr>"

definition list_escrows_path :: operation where
  "list_escrows_path =
    \<lparr> op_method = ''GET'', op_path = ''/api/v1/escrows'', op_params = list_escrows_query_keys,
      op_statuses = [200, 500], op_body = ''EscrowListResponse'' \<rparr>"

definition get_financing_path :: operation where
  "get_financing_path =
    \<lparr> op_method = ''GET'', op_path = ''/api/v1/financings/{id}'', op_params = [''id''],
      op_statuses = [200, 400, 404], op_body = ''Financing'' \<rparr>"

definition list_financings_path :: operation where
  "list_financings_path =
    \<lparr> op_method = ''GET'', op_path = ''/api/v1/financings'', op_params = list_financings_query_keys,
      op_statuses = [200, 500], op_body = ''FinancingListResponse'' \<rparr>"

lemmas path_defs =
  health_path_def get_farmer_path_def register_farmer_path_def
  update_metadata_path_def search_farmers_path_def challenge_path_def
  verify_path_def session_path_def get_verification_path_def
  list_verifications_path_def get_escrow_path_def list_escrows_path_def
  get_financing_path_def list_financings_path_def

text \<open>The document that is served: its operations and the schemas it names.\<close>

definition api_doc :: "operation list" where
  "api_doc =
    [health_path, get_farmer_path, register_farmer_path,
     update_metadata_path, search_farmers_path, challenge_path,
     verify_path, session_path, get_verification_path,
     list_verifications_path, get_escrow_path, list_escrows_path,
     get_financing_path, list_financings_path]"

definition api_schemas :: "string list" where
  "api_schemas =
    [''Health'', ''Farmer'', ''FarmerMetadata'', ''VerificationMarker'', ''RegisterFarmerRequest'',
     ''UpdateMetadataRequest'', ''Challenge'', ''ChallengeRequest'', ''Session'', ''SessionRow'',
     ''VerifyRequest'', ''Verification'', ''VerificationListResponse'', ''Escrow'', ''EscrowListResponse'',
     ''Financing'', ''FinancingListResponse'', ''Pagination'']"

definition farmers_api_doc :: "operation list" where
  "farmers_api_doc = [get_farmer_path, register_farmer_path, update_metadata_path, search_farmers_path]"

definition farmers_api_schemas :: "string list" where
  "farmers_api_schemas =
    [''Farmer'', ''FarmerSearchResponse'', ''FarmerSearchItem'', ''Pagination'', ''FarmerMetadata'',
     ''VerificationMarker'', ''RegisterFarmerRequest'', ''UpdateMetadataRequest'']"

definition projections_api_doc :: "operation list" where
  "projections_api_doc =
    [get_verification_path, list_verifications_path, get_escrow_path, list_escrows_path,
     get_financing_path, list_financings_path]"

definition projections_api_schemas :: "string list" where
  "projections_api_schemas =
    [''Verification'', ''VerificationListResponse'', ''Escrow'', ''EscrowListResponse'', ''Financing'',
     ''FinancingListResponse'', ''Pagination'']"

section \<open>What a request is documented as\<close>

fun documented_as :: "request \<Rightarrow> operation" where
  "documented_as HealthRequest = health_path"
| "documented_as (FarmersRequest (SearchFarmers q)) = search_farmers_path"
| "documented_as (FarmersRequest (GetFarmer address)) = get_farmer_path"
| "documented_as (FarmersRequest (RegisterFarmer header req)) = register_farmer_path"
| "documented_as (FarmersRequest (UpdateMetadata header address m)) = update_metadata_path"
| "documented_as (AuthRequest (PostChallenge address)) = challenge_path"
| "documented_as (AuthRequest (PostVerify req)) = verify_path"
| "documented_as (AuthRequest (GetSession token)) = session_path"
| "documented_as (ProjectionsRequest (GetVerification row_id)) = get_verification_path"
| "documented_as (ProjectionsRequest (ListVerifications vq)) = list_verifications_path"
| "documented_as (ProjectionsRequest (GetEscrow row_id)) = get_escrow_path"
| "documented_as (ProjectionsRequest (ListEscrows eq)) = list_escrows_path"
| "documented_as (ProjectionsRequest (GetFinancing row_id)) = get_financing_path"
| "documented_as (ProjectionsRequest (ListFinancings fq)) = list_financings_path"

fun query_keys :: "request \<Rightarrow> string list" where
  "query_keys (FarmersRequest (SearchFarmers q)) = search_farmers_query_keys"
| "query_keys (AuthRequest (GetSession token)) = session_query_keys"
| "query_keys (ProjectionsRequest (ListVerifications vq)) = list_verifications_query_keys"
| "query_keys (ProjectionsRequest (ListEscrows eq)) = list_escrows_query_keys"
| "query_keys (ProjectionsRequest (ListFinancings fq)) = list_financings_query_keys"
| "query_keys r = []"

text \<open>
  Every request the routers serve is documented once, under its method and path; the query keys
  documented are those decoded, with one exception: the search documents \<open>page_size\<close> and decodes
  \<open>pageSize\<close>, so the documented parameter is ignored.
\<close>

lemma requests_documented:
  "documented_as r \<in> set api_doc"
  "endpoint r = (op_method (documented_as r), op_path (documented_as r))"
  "distinct (map (\<lambda>op. (op_method op, op_path op)) api_doc)"
  "set farmers_api_doc \<union> set projections_api_doc \<subseteq> set api_doc"
proof -
  show "documented_as r \<in> set api_doc"
    by (cases r rule: documented_as.cases) (simp_all add: api_doc_def)
  show "endpoint r = (op_method (documented_as r), op_path (documented_as r))"
    by (cases r rule: documented_as.cases) (simp_all add: path_defs)
  show "distinct (map (\<lambda>op. (op_method op, op_path op)) api_doc)" by (simp add: api_doc_def path_defs)
  show "set farmers_api_doc \<union> set projections_api_doc \<subseteq> set api_doc"
    by (auto simp: farmers_api_doc_def projections_api_doc_def api_doc_def)
qed

lemma documented_query_keys:
  assumes "query_keys r \<noteq> []"
  shows "op_params (documented_as r) = query_keys r \<longleftrightarrow> (\<forall>q. r \<noteq> FarmersRequest (SearchFarmers q))"
  using assms
  by (cases r rule: query_keys.cases) (simp_all add: path_defs search_farmers_query_keys_def session_query_keys_def)

lemma search_page_size_misdocumented:
  "''page_size'' \<in> set (op_params search_farmers_path)" "''page_size'' \<notin> set search_farmers_query_keys"
  by (simp_all add: search_farmers_path_def search_farmers_query_keys_def)

text \<open>Each body schema is registered, but for that of the search.\<close>

lemma bodies_registered:
  "op_body (documented_as r) \<in> set api_schemas \<longleftrightarrow> (\<forall>q. r \<noteq> FarmersRequest (SearchFarmers q))"
  "op_body search_farmers_path \<in> set farmers_api_schemas"
  "set projections_api_schemas \<subseteq> set api_schemas"
proof -
  show "op_body (documented_as r) \<in> set api_schemas \<longleftrightarrow> (\<forall>q. r \<noteq> FarmersRequest (SearchFarmers q))"
    by (cases r rule: documented_as.cases) (simp_all add: path_defs api_schemas_def)
  show "op_body search_farmers_path \<in> set farmers_api_schemas"
    by (simp add: path_defs farmers_api_schemas_def)
  show "set projections_api_schemas \<subseteq> set api_schemas" by (simp add: projections_api_schemas_def api_schemas_def)
qed

section \<open>What the handlers answer\<close>

text \<open>Every error of an action satisfies a predicate.\<close>

definition raises :: "('e \<Rightarrow> bool) \<Rightarrow> ('s, 'e, 'a) action \<Rightarrow> bool" where
  "raises P m \<longleftrightarrow> (\<forall>s e. fst (m s) = Inl e \<longrightarrow> P e)"

named_theorems raises_intros \<open>errors of actions\<close>

lemma raises_simple [raises_intros]:
  "raises P (ok a)" "P e \<Longrightarrow> raises P (fail e)" "(\<And>e. r = Inl e \<Longrightarrow> P e) \<Longrightarrow> raises P (lift_result r)"
  by (auto simp: raises_def)

lemma raises_and_then [raises_intros]:
  "raises P m \<Longrightarrow> (\<And>a. raises P (f a)) \<Longrightarrow> raises P (and_then m f)"
  by (auto simp: raises_def and_then_apply case_prod_beta split: sum.splits)

lemma raises_map_err: "(\<And>e. P (g e)) \<Longrightarrow> raises P (map_err g m)"
  by (auto simp: raises_def map_err_apply case_prod_beta split: sum.splits)

lemma raises_map_err_of: "raises (\<lambda>e. P (g e)) m \<Longrightarrow> raises P (map_err g m)"
  by (auto simp: raises_def map_err_apply case_prod_beta split: sum.splits)

lemma raises_cases [raises_intros]:
  "(x = None \<Longrightarrow> raises P m) \<Longrightarrow> (\<And>a. x = Some a \<Longrightarrow> raises P (f a)) \<Longrightarrow>
    raises P (case x of None \<Rightarrow> m | Some a \<Rightarrow> f a)"
  "(c \<Longrightarrow> raises P m) \<Longrightarrow> (\<not> c \<Longrightarrow> raises P n) \<Longrightarrow> raises P (if c then m else n)"
  "(\<And>e. r = Inl e \<Longrightarrow> raises P (p e)) \<Longrightarrow> (\<And>a. r = Inr a \<Longrightarrow> raises P (q a)) \<Longrightarrow>
    raises P (case r of Inl e \<Rightarrow> p e | Inr a \<Rightarrow> q a)"
  by (simp_all split: option.split sum.split)

lemma raises_on_pg [raises_intros]: "raises P m \<Longrightarrow> raises P (on_pg m)"
  by (auto simp: raises_def on_pg_def split: prod.splits) (metis fst_conv)

text \<open>The statuses of the errors of each operation.\<close>

abbreviation answers :: "nat set \<Rightarrow> app_error \<Rightarrow> bool" where
  "answers S \<equiv> \<lambda>e. status_of e \<in> insert 500 S"

abbreviation answers_failure :: "nat set \<Rightarrow> failure \<Rightarrow> bool" where
  "answers_failure S \<equiv> \<lambda>f. \<forall>e. f = Failed e \<longrightarrow> status_of e \<in> insert 500 S"

lemma raises_database: "raises (answers S) (map_err Database m)"
  by (rule raises_map_err) simp

lemma parse_farmer_identifier_status: "parse_farmer_identifier is_pk input = Inl e \<Longrightarrow> status_of e = 400"
  by (auto simp: parse_farmer_identifier_def Let_def split: option.splits if_splits)

lemma bearer_token_status: "bearer_token header = Inl e \<Longrightarrow> status_of e = 401"
  by (auto simp: bearer_token_def split: option.splits if_splits)

lemma farmer_of_row_status: "farmer_of_row row = Inl e \<Longrightarrow> status_of e = 500"
  by (auto simp: farmer_of_row_def split: option.splits)

lemma validate_address_status: "validate_address cr a = Inl e \<Longrightarrow> status_of e = 400"
  by (auto simp: validate_address_def split: sum.splits)

lemma session_by_token_raises: "401 \<in> S \<Longrightarrow> raises (answers S) (session_by_token cr token now)"
  unfolding session_by_token_def Let_def by (intro raises_intros raises_database) simp_all

lemma from_request_parts_raises: "401 \<in> S \<Longrightarrow> raises (answers S) (from_request_parts cr header now)"
  unfolding from_request_parts_def
  by (intro raises_intros session_by_token_raises) (auto dest: bearer_token_status)

lemma get_farmer_raises: "400 \<in> S \<Longrightarrow> 404 \<in> S \<Longrightarrow> raises (answers S) (get_farmer is_pk input)"
  unfolding get_farmer_def
  by (intro raises_intros raises_database) (auto dest: parse_farmer_identifier_status farmer_of_row_status)

lemma issue_challenge_raises: "400 \<in> S \<Longrightarrow> raises (answers S) (issue_challenge cr domain a nonce now)"
  unfolding issue_challenge_def Let_def
  by (intro raises_intros raises_database) (auto dest: validate_address_status)

lemma verify_raises:
  assumes "{400, 401, 409} \<subseteq> S"
  shows "raises (answers_failure S) (verify cr domain ttl req token now1 now2)"
proof -
  have "raises (answers S) (verify_check cr domain req now1)"
    unfolding verify_check_def Let_def
    by (intro raises_intros raises_database) (use assms in \<open>auto dest: validate_address_status\<close>)
  then have "raises (answers_failure S) (map_err Failed (verify_check cr domain req now1))"
    by (intro raises_map_err_of) simp
  moreover have "raises (answers_failure S) (map_err (\<lambda>e. Failed (Database e)) m)" for m :: "unit statement"
    by (rule raises_map_err) simp
  ultimately show ?thesis
    unfolding verify_def verify_commit_def Let_def by (intro raises_intros) simp_all
qed

text \<open>The chain backend: a registration does not miss a farmer, an update does not find one twice.\<close>

definition chain_answers ::
  "(string \<Rightarrow> string \<Rightarrow> 'c \<Rightarrow> (chain_error + chain_farmer) \<times> 'c) \<Rightarrow>
    (string \<Rightarrow> string \<Rightarrow> 'c \<Rightarrow> (chain_error + chain_farmer) \<times> 'c) \<Rightarrow> bool" where
  "chain_answers reg upd \<longleftrightarrow>
    (\<forall>a h c. fst (reg a h c) \<noteq> Inl ChainNotFound) \<and> (\<forall>a h c. fst (upd a h c) \<noteq> Inl AlreadyRegistered)"

lemma on_backend_raises: "(\<And>c. fst (m c) \<noteq> Inl x) \<Longrightarrow> raises (\<lambda>e. e \<noteq> x) (on_backend m)"
  by (auto simp: raises_def on_backend_def split: prod.splits) (metis fst_conv)

lemma register_raises:
  assumes "\<And>a h c. fst (reg a h c) \<noteq> Inl ChainNotFound" and "{400, 401, 409} \<subseteq> S"
  shows "raises (answers S) (register_farmer is_pk hash reg req actor)"
proof -
  have "raises (answers S) (map_err map_chain_error (on_backend (reg a h)))" for a h
  proof (rule raises_map_err_of)
    have "raises (\<lambda>e. e \<noteq> ChainNotFound) (on_backend (reg a h))" by (rule on_backend_raises [OF assms(1)])
    moreover have "e \<noteq> ChainNotFound \<Longrightarrow> answers S (map_chain_error e)" for e using assms(2) by (cases e) auto
    ultimately show "raises (\<lambda>e. answers S (map_chain_error e)) (on_backend (reg a h))"
      unfolding raises_def by blast
  qed
  note chain = this
  from assms(2) show ?thesis
    unfolding register_farmer_def Let_def
    by (intro raises_intros raises_database chain) (auto dest: parse_farmer_identifier_status)
qed

lemma update_raises:
  assumes "\<And>a h c. fst (upd a h c) \<noteq> Inl AlreadyRegistered" and "{400, 401, 404} \<subseteq> S"
  shows "raises (answers S) (update_metadata is_pk hash upd input m actor)"
proof -
  have "raises (answers S) (map_err map_chain_error (on_backend (upd a h)))" for a h
  proof (rule raises_map_err_of)
    have "raises (\<lambda>e. e \<noteq> AlreadyRegistered) (on_backend (upd a h))" by (rule on_backend_raises [OF assms(1)])
    moreover have "e \<noteq> AlreadyRegistered \<Longrightarrow> answers S (map_chain_error e)" for e using assms(2) by (cases e) auto
    ultimately show "raises (\<lambda>e. answers S (map_chain_error e)) (on_backend (upd a h))"
      unfolding raises_def by blast
  qed
  note chain = this
  from assms(2) show ?thesis
    unfolding update_metadata_def Let_def
    by (intro raises_intros raises_database chain get_farmer_raises) (auto dest: parse_farmer_identifier_status)
qed

text \<open>The lists and the lookups of the projections, and the search.\<close>

lemma page_offset_failure: "page_offset checks p k = Inl f \<Longrightarrow> f = Panic"
  by (auto simp: page_offset_def i64_value_def split: option.splits if_splits)

lemma select_raises: "raises (answers_failure S) (select g)"
  unfolding select_def by (rule raises_map_err) simp

lemma list_page_raises: "raises (answers_failure S) (list_page checks p k matching)"
  unfolding list_page_def Let_def
  by (intro raises_intros select_raises) (auto dest: page_offset_failure)

lemma search_raises: "raises (answers_failure S) (search_farmers checks as_text ilike arrange q p k)"
  unfolding search_farmers_def Let_def
  by (intro raises_intros select_raises) (auto dest: page_offset_failure)

lemma get_by_id_raises:
  assumes "\<And>e. norm raw = Inl e \<Longrightarrow> status_of e = 400" and "{400, 404} \<subseteq> S"
  shows "raises (answers_failure S) (get_by_id norm kind lookup raw)"
  unfolding get_by_id_def
  by (intro raises_intros select_raises) (use assms in auto)

lemma normalize_status:
  "normalize_verification_id raw = Inl e \<Longrightarrow> status_of e = 400"
  "normalize_escrow_id raw = Inl e \<Longrightarrow> status_of e = 400"
  "normalize_financing_id raw = Inl e \<Longrightarrow> status_of e = 400"
  by (auto simp: normalize_verification_id_def normalize_escrow_id_def normalize_financing_id_def
      normalize_counter_id_def split: option.splits if_splits)

text \<open>From errors to responses.\<close>

lemma answer_status:
  assumes "fst (reply (answer b success) (m s)) = Answer st body" and "raises (answers S) m"
    and "\<And>a s'. m s = (Inr a, s') \<Longrightarrow> fst (success a) \<in> S"
  shows "st \<in> insert 500 S"
proof (cases "fst (m s)")
  case (Inl e)
  have "st = status_of e"
    using assms(1) Inl by (cases e) (auto simp: reply_def answer_def respond_def)
  with assms(2) Inl show ?thesis unfolding raises_def by blast
next
  case (Inr a)
  with assms(1) have "st = fst (success a)"
    by (simp add: reply_def answer_def respond_def case_prod_beta)
  with assms(3) [of a "snd (m s)"] Inr show ?thesis by (simp add: prod_eq_iff)
qed

lemma failure_status:
  assumes "fst (reply (answer_or_abort b json_of) (on_pg m s)) = Answer st body" and "raises (answers_failure S) m"
    and "200 \<in> S"
  shows "st \<in> insert 500 S"
proof (cases "fst (on_pg m s)")
  case (Inl f)
  with assms(1) obtain e where f: "f = Failed e" by (cases f) (auto simp: reply_def answer_or_abort_def)
  have "st = status_of e"
    using assms(1) Inl f by (cases e) (auto simp: reply_def answer_or_abort_def answer_def respond_def)
  moreover have "answers_failure S f"
    using raises_on_pg [OF assms(2)] Inl unfolding raises_def by blast
  ultimately show ?thesis using f by blast
next
  case (Inr a)
  with assms(1,3) show ?thesis by (auto simp: reply_def answer_or_abort_def answer_def respond_def)
qed

text \<open>The handlers.\<close>

lemma handlers_raise:
  "raises (answers (set (op_statuses get_farmer_path))) (get_farmer_handler is_pk address)"
  "raises (answers (set (op_statuses challenge_path))) (challenge_handler cr ast address nonce now)"
  "raises (answers_failure (set (op_statuses verify_path))) (verify_handler cr from_std ast req token now1 now2)"
  "raises (answers (set (op_statuses session_path))) (session_handler cr token now)"
  unfolding get_farmer_handler_def challenge_handler_def verify_handler_def session_handler_def
  by (rule get_farmer_raises issue_challenge_raises verify_raises session_by_token_raises; simp add: path_defs)+

lemma projection_handlers_raise:
  "raises (answers_failure (set (op_statuses get_verification_path))) (get_verification_handler row_id)"
  "raises (answers_failure (set (op_statuses get_escrow_path))) (get_escrow_handler row_id)"
  "raises (answers_failure (set (op_statuses get_financing_path))) (get_financing_handler row_id)"
  unfolding get_verification_handler_def get_escrow_handler_def get_financing_handler_def
  by (rule get_by_id_raises; simp add: path_defs normalize_status)+

lemma list_handlers_raise:
  "raises (answers_failure S) (search_farmers_handler checks as_text ilike arrange sq)"
  "raises (answers_failure S) (list_verifications_handler checks vq)"
  "raises (answers_failure S) (list_escrows_handler checks eq)"
  "raises (answers_failure S) (list_financings_handler checks fq)"
  unfolding search_farmers_handler_def list_verifications_handler_def list_escrows_handler_def
    list_financings_handler_def
  by (rule search_raises list_page_raises)+

lemma farmer_handlers_raise:
  assumes "chain_answers reg upd"
  shows "raises (answers (set (op_statuses register_farmer_path)))
      (register_farmer_handler cr is_pk hash reg header now req)"
    and "raises (answers (set (op_statuses update_metadata_path)))
      (update_metadata_handler cr is_pk hash upd header now address m)"
proof -
  have reg: "fst (reg a h c) \<noteq> Inl ChainNotFound" and upd: "fst (upd a h c) \<noteq> Inl AlreadyRegistered" for a h c
    using assms by (simp_all add: chain_answers_def)
  show "raises (answers (set (op_statuses register_farmer_path)))
      (register_farmer_handler cr is_pk hash reg header now req)"
    unfolding register_farmer_handler_def
    by (intro raises_intros from_request_parts_raises register_raises reg) (simp_all add: path_defs)
  show "raises (answers (set (op_statuses update_metadata_path)))
      (update_metadata_handler cr is_pk hash upd header now address m)"
    unfolding update_metadata_handler_def
    by (intro raises_intros from_request_parts_raises update_raises upd) (simp_all add: path_defs)
qed

text \<open>The routers.\<close>

lemma health_status:
  assumes "fst (serve b d HealthRequest (c, db)) = Answer st body"
  shows "st \<in> insert 500 (set (op_statuses (documented_as HealthRequest)))"
  using assms
  by (simp add: health_path_def reply_def answer_def respond_def on_pg_apply health_def Let_def case_prod_beta)

lemma farmers_status:
  assumes "chain_answers (be_register b) (be_update b)" and "fst (serve_farmers b d r (c, db)) = Answer st body"
  shows "st \<in> insert 500 (set (op_statuses (documented_as (FarmersRequest r))))"
proof (cases r)
  case (SearchFarmers q)
  show ?thesis
    unfolding SearchFarmers documented_as.simps
    by (rule failure_status [OF assms(2) [unfolded SearchFarmers serve_farmers.simps] list_handlers_raise(1)])
      (simp add: path_defs)
next
  case (GetFarmer address)
  show ?thesis
    unfolding GetFarmer documented_as.simps
    by (rule answer_status [OF assms(2) [unfolded GetFarmer serve_farmers.simps] raises_on_pg [OF handlers_raise(1)]])
      (simp add: path_defs)
next
  case (RegisterFarmer header req)
  show ?thesis
    unfolding RegisterFarmer documented_as.simps
    by (rule answer_status [OF assms(2) [unfolded RegisterFarmer serve_farmers.simps] farmer_handlers_raise(1) [OF assms(1)]])
      (auto simp: path_defs register_farmer_handler_def elim!: and_then_InrE)
next
  case (UpdateMetadata header address m)
  show ?thesis
    unfolding UpdateMetadata documented_as.simps
    by (rule answer_status [OF assms(2) [unfolded UpdateMetadata serve_farmers.simps] farmer_handlers_raise(2) [OF assms(1)]])
      (simp add: path_defs)
qed

lemma auth_status:
  assumes "fst (serve_auth b d r (c, db)) = Answer st body"
  shows "st \<in> insert 500 (set (op_statuses (documented_as (AuthRequest r))))"
proof (cases r)
  case (PostChallenge address)
  show ?thesis
    unfolding PostChallenge documented_as.simps
    by (rule answer_status [OF assms [unfolded PostChallenge serve_auth.simps] raises_on_pg [OF handlers_raise(2)]])
      (simp add: path_defs)
next
  case (PostVerify req)
  show ?thesis
    unfolding PostVerify documented_as.simps
    by (rule failure_status [OF assms [unfolded PostVerify serve_auth.simps] handlers_raise(3)])
      (simp add: path_defs)
next
  case (GetSession token)
  show ?thesis
    unfolding GetSession documented_as.simps
    by (rule answer_status [OF assms [unfolded GetSession serve_auth.simps] raises_on_pg [OF handlers_raise(4)]])
      (simp add: path_defs)
qed

lemma projections_status:
  assumes "fst (serve_projections b r (c, db)) = Answer st body"
  shows "st \<in> insert 500 (set (op_statuses (documented_as (ProjectionsRequest r))))"
proof (cases r)
  case (GetVerification row_id)
  show ?thesis
    unfolding GetVerification documented_as.simps
    by (rule failure_status [OF assms [unfolded GetVerification serve_projections.simps] projection_handlers_raise(1)])
      (simp add: path_defs)
next
  case (ListVerifications q)
  show ?thesis
    unfolding ListVerifications documented_as.simps
    by (rule failure_status [OF assms [unfolded ListVerifications serve_projections.simps] list_handlers_raise(2)])
      (simp add: path_defs)
next
  case (GetEscrow row_id)
  show ?thesis
    unfolding GetEscrow documented_as.simps
    by (rule failure_status [OF assms [unfolded GetEscrow serve_projections.simps] projection_handlers_raise(2)])
      (simp add: path_defs)
next
  case (ListEscrows q)
  show ?thesis
    unfolding ListEscrows documented_as.simps
    by (rule failure_status [OF assms [unfolded ListEscrows serve_projections.simps] list_handlers_raise(3)])
      (simp add: path_defs)
next
  case (GetFinancing row_id)
  show ?thesis
    unfolding GetFinancing documented_as.simps
    by (rule failure_status [OF assms [unfolded GetFinancing serve_projections.simps] projection_handlers_raise(3)])
      (simp add: path_defs)
next
  case (ListFinancings q)
  show ?thesis
    unfolding ListFinancings documented_as.simps
    by (rule failure_status [OF assms [unfolded ListFinancings serve_projections.simps] list_handlers_raise(4)])
      (simp add: path_defs)
qed

text \<open>
  A request as it arrives at a handler: decoded, or refused by axum's \<open>Path\<close>, \<open>Query\<close> or \<open>Json\<close>
  extractor with its status and text. The extractors run in the order of the handler's arguments:
  \<open>AuthUser\<close>, where a handler has it, before the others.
\<close>

datatype incoming =
    Decoded request
  | Undecodable nat string
  | UndecodableBehindAuth "string option" nat string

definition receive :: "('c, 'k, 'g) backend \<Rightarrow> draw \<Rightarrow> incoming \<Rightarrow> 'c \<times> pg \<Rightarrow> response \<times> 'c \<times> pg" where
  "receive b d i s =
    (case i of
       Decoded r \<Rightarrow> serve b d r s
     | Undecodable status message \<Rightarrow> (Answer status (JStr message), s)
     | UndecodableBehindAuth header status message \<Rightarrow>
         reply (answer b (\<lambda>actor. (status, JStr message)))
           (on_pg (from_request_parts (be_crypto b) header (dr_now1 d)) s))"

text \<open>
  C30. The answers to decodable requests are documented. For a chain backend that reports no missing
  farmer to a registration and no existing one to an update, every request is documented exactly
  once in the served interface document, under the method and path it is routed by, and whatever
  the state and the faults, the status that a decoded request is answered with (when it is not
  aborted) is one that its documentation lists or 500. A request that an extractor refuses is
  answered with the refusal, behind the authentication also with 401 or 500; of the statuses of
  refusals no entry of the document lists 415 or 422, and the lists of escrows and financings and the
  session lookup do not list 400.
\<close>

theorem answers_documented:
  assumes "chain_answers (be_register b) (be_update b)"
  shows "documented_as r \<in> set api_doc
    \<and> length (filter (\<lambda>op. (op_method op, op_path op) = endpoint r) api_doc) = 1
    \<and> (fst (receive b d (Decoded r) (c, db)) = Answer st body \<longrightarrow>
        st \<in> insert 500 (set (op_statuses (documented_as r))))
    \<and> fst (receive b d (Undecodable refusal message) (c, db)) = Answer refusal (JStr message)
    \<and> (fst (receive b d (UndecodableBehindAuth header refusal message) (c, db)) = Answer st body \<longrightarrow>
        st \<in> {refusal, 401, 500})
    \<and> {415, 422} \<inter> \<Union> (set ` op_statuses ` set api_doc) = {}
    \<and> 400 \<notin> \<Union> (set ` op_statuses ` {list_escrows_path, list_financings_path, session_path})"
proof (intro conjI impI)
  show "documented_as r \<in> set api_doc" by (rule requests_documented)
  show "length (filter (\<lambda>op. (op_method op, op_path op) = endpoint r) api_doc) = 1"
    unfolding requests_documented(2)
    by (cases r rule: documented_as.cases) (simp_all add: api_doc_def path_defs)
  show "fst (receive b d (Undecodable refusal message) (c, db)) = Answer refusal (JStr message)"
    by (simp add: receive_def)
  show "{415, 422} \<inter> \<Union> (set ` op_statuses ` set api_doc) = {}" by (simp add: api_doc_def path_defs)
  show "400 \<notin> \<Union> (set ` op_statuses ` {list_escrows_path, list_financings_path, session_path})"
    by (simp add: path_defs)
  show "st \<in> {refusal, 401, 500}"
    if "fst (receive b d (UndecodableBehindAuth header refusal message) (c, db)) = Answer st body"
  proof -
    have "raises (answers {refusal, 401}) (on_pg (from_request_parts (be_crypto b) header (dr_now1 d)))"
      by (intro raises_on_pg from_request_parts_raises) simp
    from answer_status [OF that [unfolded receive_def incoming.case] this] show ?thesis by auto
  qed
  assume "fst (receive b d (Decoded r) (c, db)) = Answer st body"
  then have run: "fst (serve b d r (c, db)) = Answer st body" by (simp add: receive_def)
  show "st \<in> insert 500 (set (op_statuses (documented_as r)))"
  proof (cases r)
    case HealthRequest
    from health_status [OF run [unfolded HealthRequest]] HealthRequest show ?thesis by (simp only:)
  next
    case (FarmersRequest fr)
    with run farmers_status [OF assms] show ?thesis by (simp only: serve.simps)
  next
    case (AuthRequest ar)
    with run auth_status show ?thesis by (simp only: serve.simps)
  next
    case (ProjectionsRequest pr)
    with run projections_status show ?thesis by (simp only: serve.simps)
  qed
qed

lemma stub_chain_answers: "chain_answers stub_register stub_update"
  by (auto simp: chain_answers_def stub_register_def stub_update_def Let_def split: option.split)

text \<open>A session lookup, and a registration without a bearer token whose body is no JSON.\<close>

theorem answers_documented_witness:
  "(\<exists>st body. fst (receive sample_backend (sample_draw 60) (Decoded (AuthRequest (GetSession ''u''))) sample_registered) =
      Answer st body \<and> st \<in> {200, 401, 500})
    \<and> (\<exists>st body. fst (receive sample_backend (sample_draw 60) (UndecodableBehindAuth None 415 ''no JSON'')
        sample_registered) = Answer st body \<and> st \<in> {415, 401, 500})"
proof -
  let ?r = "AuthRequest (GetSession ''u'')"
  have "chain_answers (be_register sample_backend) (be_update sample_backend)"
    using stub_chain_answers by (simp add: sample_backend_def)
  note documented = answers_documented [OF this, of ?r "sample_draw 60" "fst sample_registered" "snd sample_registered"
      _ _ 415 "''no JSON''" None]
  obtain st body where run: "fst (receive sample_backend (sample_draw 60) (Decoded ?r) sample_registered) = Answer st body"
    by (simp add: receive_def reply_def answer_def case_prod_beta)
  obtain st' body' where refused: "fst (receive sample_backend (sample_draw 60)
      (UndecodableBehindAuth None 415 ''no JSON'') sample_registered) = Answer st' body'"
    by (simp add: receive_def reply_def answer_def case_prod_beta)
  from documented [of st body] run have "st \<in> {200, 401, 500}" by (auto simp: session_path_def)
  moreover from documented [of st' body'] refused have "st' \<in> {415, 401, 500}" by auto
  ultimately show ?thesis using run refused by blast
qed

end
