(* ===== verification/Unit_Tests.thy ===== *)
theory Unit_Tests
  imports Decoders Event_Source Rpc_Values Farmer_Codec Config
begin

text \<open>
  The unit tests of the \<open>#[cfg(test)]\<close> modules, translated assertion by assertion over the model's
  definitions: a panic of \<open>unwrap\<close> or an assertion that does not hold is \<open>False\<close>. That they hold
  shows the model agrees with the program where the program's authors have fixed its behaviour.
  What a test asks of another crate (a hash, a key, an XDR encoding) is a hypothesis.
\<close>

named_theorems unit_tests \<open>the tests that hold\<close>

text \<open>\<open>unwrap\<close> followed by assertions.\<close>

definition unwrapped :: "'a option \<Rightarrow> ('a \<Rightarrow> bool) \<Rightarrow> bool" where
  "unwrapped x asserts = (case x of None \<Rightarrow> False | Some a \<Rightarrow> asserts a)"

section \<open>Identifiers and configuration\<close>

definition renders_zero_padded_counter :: bool where
  "renders_zero_padded_counter \<longleftrightarrow>
    counter_id ''va:verification'' 42 = ''va:verification:000000000042''
    \<and> counter_id ''va:escrow'' 1 = ''va:escrow:000000000001''"

definition parses_presentation_form :: bool where
  "parses_presentation_form \<longleftrightarrow>
    parse_counter_id ''va:verification:000000000042'' ''va:verification'' = Some 42
    \<and> parse_counter_id ''va:escrow:000000000011'' ''va:escrow'' = Some 11"

definition rejects_wrong_prefix :: bool where
  "rejects_wrong_prefix \<longleftrightarrow> parse_counter_id ''va:escrow:000000000042'' ''va:verification'' = None"

definition parses_indexer_contracts :: bool where
  "parses_indexer_contracts \<longleftrightarrow>
    (let m = parse_contracts ''verification:CDEBUG,escrow:C2,financing:C3'' in
     map_of m ''CDEBUG'' = Some ''verification'' \<and> map_of m ''C2'' = Some ''escrow''
     \<and> map_of m ''C3'' = Some ''financing'' \<and> length m = 3)"

definition skips_empty_contract_pairs :: bool where
  "skips_empty_contract_pairs \<longleftrightarrow> length (parse_contracts ''verification:CDEBUG,,escrow:'') = 1"

lemma identifier_tests [unit_tests]:
  renders_zero_padded_counter parses_presentation_form rejects_wrong_prefix
  parses_indexer_contracts skips_empty_contract_pairs
  by code_simp+

section \<open>Cursors and the stub source\<close>

definition cursor_ordering :: bool where
  "cursor_ordering \<longleftrightarrow>
    (let a = Cursor 100 0 0; b = Cursor 100 0 1; c = Cursor 101 0 0 in
     \<not> is_after a a \<and> is_after b a \<and> is_after c b \<and> \<not> is_after a c)"

definition chain_test_ev :: "int \<Rightarrow> int \<Rightarrow> int \<Rightarrow> string \<Rightarrow> chain_event" where
  "chain_test_ev ledger op ev event =
    \<lparr> contract_id = ''C1'', contract_name = ''verification'', event_name = event, ledger_sequence = ledger,
      operation_index = op, event_index = ev, topics = JArr [JInt 1], data = JArr [] \<rparr>"

definition returns_events_after_cursor :: bool where
  "returns_events_after_cursor \<longleftrightarrow>
    (let source = stub_new;
         source = stub_push (chain_test_ev 100 0 0 ''VerificationCreated'') source;
         source = stub_push (chain_test_ev 100 0 1 ''VerificationCreated'') source;
         source = stub_push (chain_test_ev 101 0 0 ''VerificationCreated'') source
     in unwrapped (result_ok (stub_events_after source ''C1'' START)) (\<lambda>everything. length everything = 3)
      \<and> unwrapped (result_ok (stub_events_after source ''C1'' (Cursor 100 0 0)))
          (\<lambda>after_first. length after_first = 2)
      \<and> unwrapped (result_ok (stub_head_ledger source)) (\<lambda>head. head = 0)
      \<and> unwrapped (result_ok (stub_head_ledger (stub_set_head 200 source))) (\<lambda>head. head = 200))"

definition filters_by_contract :: bool where
  "filters_by_contract \<longleftrightarrow>
    (let source = stub_new;
         other = (chain_test_ev 100 0 0 ''VerificationCreated'')\<lparr>contract_id := ''C2''\<rparr>;
         source = stub_push (chain_test_ev 100 0 1 ''VerificationCreated'') source;
         source = stub_push other source
     in unwrapped (result_ok (stub_events_after source ''C1'' START))
          (\<lambda>events. length events = 1 \<and> contract_id (events ! 0) = ''C1''))"

definition stub_source_compatibility :: bool where
  "stub_source_compatibility \<longleftrightarrow>
    unwrapped (result_ok (stub_events_after stub_new ''C1'' START)) (\<lambda>events. events = [])"

lemma source_tests [unit_tests]:
  cursor_ordering returns_events_after_cursor filters_by_contract stub_source_compatibility
  by code_simp+

section \<open>Decoders\<close>

definition decoder_test_event :: "string \<Rightarrow> json \<Rightarrow> chain_event" where
  "decoder_test_event event d =
    \<lparr> contract_id = ''C1'', contract_name = ''verification'', event_name = event, ledger_sequence = 100,
      operation_index = 0, event_index = 0, topics = JArr [JInt 42], data = d \<rparr>"

definition decodes_verification_created :: bool where
  "decodes_verification_created \<longleftrightarrow>
    unwrapped (decode_verification_created (decoder_test_event ''VerificationCreated''
        (JArr [JInt 42, JStr ''018f0c2a'', JStr ''GSUBJECT'', JStr ''0f1e2d3c'', JStr ''GISSUER'',
          JInt 100000, JBool False, JInt 0])))
      (\<lambda>decoded. vc_verification_id decoded = 42 \<and> vc_subject decoded = ''GSUBJECT''
        \<and> vc_issuer decoded = ''GISSUER'' \<and> vc_issued_ledger decoded = 100000
        \<and> counter_id VERIFICATION_PREFIX (vc_verification_id decoded) = ''va:verification:000000000042'')"

definition decodes_verification_revoked :: bool where
  "decodes_verification_revoked \<longleftrightarrow>
    unwrapped (decode_verification_revoked (decoder_test_event ''VerificationRevoked''
        (JArr [JInt 42, JStr [], JBool True, JInt 100120])))
      (\<lambda>decoded. vr_verification_id decoded = 42 \<and> vr_revoked_ledger decoded = 100120)"

definition decodes_escrow_created :: bool where
  "decodes_escrow_created \<longleftrightarrow>
    unwrapped (decode_escrow_created (decoder_test_event ''EscrowCreated''
        (JArr [JInt 11, JStr ''GDEPOSITOR'', JStr ''GBENEFICIARY'', JInt 10000000000, JInt 1,
          JStr ''GRELEASER'', JInt 0, JStr ''018f0c2a'', JInt 100000, JInt 100000])))
      (\<lambda>decoded. ec_escrow_id decoded = 11 \<and> ec_depositor decoded = ''GDEPOSITOR''
        \<and> ec_condition_kind decoded = 1 \<and> ec_booking_ref_hex decoded = ''018f0c2a''
        \<and> counter_id ESCROW_PREFIX (ec_escrow_id decoded) = ''va:escrow:000000000011'')"

definition decodes_escrow_mutations :: bool where
  "decodes_escrow_mutations \<longleftrightarrow>
    unwrapped (decode_escrow_deposited (decoder_test_event ''EscrowDeposited''
        (JArr [JInt 11, JStr ''GDEPOSITOR'', JInt 5000, JInt 100010])))
      (\<lambda>decoded. ed_amount decoded = 5000)
    \<and> unwrapped (decode_escrow_released (decoder_test_event ''EscrowReleased''
        (JArr [JInt 11, JStr ''GRELEASER'', JInt 3000, JInt 100020])))
      (\<lambda>decoded. er_released_amount decoded = 3000)
    \<and> unwrapped (decode_escrow_refunded (decoder_test_event ''EscrowRefunded''
        (JArr [JInt 11, JStr ''GDEPOSITOR'', JInt 2000, JInt 100030])))
      (\<lambda>decoded. ef_updated_ledger decoded = 100030)"

definition decodes_financing_created :: bool where
  "decodes_financing_created \<longleftrightarrow>
    unwrapped (decode_financing_created (decoder_test_event ''FinancingCreated''
        (JArr [JInt 7, JStr ''GFUNDER'', JStr ''GBENEFICIARY'', JInt 50000000000, JInt 10000000000, JInt 2,
          JArr [JObj [(''deadline_ledger'', JInt 100100), (''index'', JInt 1),
            (''proof_amount'', JInt 10000000000), (''proof_hash'', JStr ''aa'')]],
          JInt 100000, JInt 0, JBool False, JNull])))
      (\<lambda>decoded. fc_financing_id decoded = 7 \<and> fc_funder decoded = ''GFUNDER''
        \<and> fc_beneficiary decoded = ''GBENEFICIARY'' \<and> fc_total_amount decoded = 50000000000
        \<and> fc_drawn_amount decoded = 10000000000 \<and> fc_milestone_count decoded = 2
        \<and> (case as_array (fc_milestones decoded) of
             Some (m # _) \<Rightarrow> get_key m ''proof_amount'' = Some (JInt 10000000000)
           | _ \<Rightarrow> False)
        \<and> counter_id FINANCING_PREFIX (fc_financing_id decoded) = ''va:financing:000000000007'')"

definition decodes_financing_mutations :: bool where
  "decodes_financing_mutations \<longleftrightarrow>
    unwrapped (decode_financing_deposited (decoder_test_event ''FinancingDeposited''
        (JArr [JInt 7, JInt 5000000000, JInt 100010])))
      (\<lambda>decoded. fd_amount decoded = 5000000000)
    \<and> unwrapped (decode_financing_released (decoder_test_event ''FinancingReleased''
        (JArr [JInt 7, JInt 3000000000, JInt 100020])))
      (\<lambda>decoded. fr_released_amount decoded = 3000000000)
    \<and> unwrapped (decode_financing_refunded (decoder_test_event ''FinancingRefunded''
        (JArr [JInt 7, JInt 2000000000, JBool True, JInt 100030])))
      (\<lambda>decoded. ff_refunded_amount decoded = 2000000000 \<and> ff_defaulted decoded
        \<and> ff_defaulted_ledger decoded = Some 100030)"

lemma decoder_tests [unit_tests]:
  decodes_verification_created decodes_verification_revoked decodes_escrow_created
  decodes_escrow_mutations decodes_financing_created decodes_financing_mutations
  by code_simp+

text \<open>\<open>uuid\<close> is \<open>Uuid::parse_str\<close> rendered back.\<close>

definition renders_counter_ids_and_references :: "(string \<Rightarrow> string option) \<Rightarrow> bool" where
  "renders_counter_ids_and_references uuid \<longleftrightarrow>
    counter_id ''va:verification'' 7 = ''va:verification:000000000007''
    \<and> parse_counter_id ''va:escrow:000000000011'' ''va:escrow'' = Some 11
    \<and> render_uuid7_ref uuid ''batch'' ''not-a-uuid'' = ''va:batch:not-a-uuid''
    \<and> (let u = ''018f0c2a-0000-7000-8000-000000000000'' in
       render_uuid7_ref uuid ''booking'' u = ''va:booking:'' @ u)"

lemma reference_test [unit_tests]:
  assumes "uuid ''not-a-uuid'' = None"
    and "uuid ''018f0c2a-0000-7000-8000-000000000000'' = Some ''018f0c2a-0000-7000-8000-000000000000''"
  shows "renders_counter_ids_and_references uuid"
proof -
  have "counter_id ''va:verification'' 7 = ''va:verification:000000000007''"
    "parse_counter_id ''va:escrow:000000000011'' ''va:escrow'' = Some 11" by code_simp+
  with assms show ?thesis
    by (simp add: renders_counter_ids_and_references_def render_uuid7_ref_def)
qed

section \<open>Contract values and events\<close>

definition decodes_scval_to_json :: "xdr \<Rightarrow> bool" where
  "decodes_scval_to_json x \<longleftrightarrow>
    scval_to_json x (ScU32 42) = Inr (JInt 42)
    \<and> scval_to_json x (ScU64 1000000) = Inr (JInt 1000000)
    \<and> scval_to_json x (ScBool True) = Inr (JBool True)
    \<and> scval_to_json x ScVoid = Inr JNull
    \<and> symbol_to_string x (ScSymbol ''VerificationCreated'') = Some ''VerificationCreated''"

definition roundtrips_base64_xdr_scval :: "xdr \<Rightarrow> bool" where
  "roundtrips_base64_xdr_scval x \<longleftrightarrow>
    unwrapped (xd_scval x ''AAAABQAAAAAAAAAq'')
      (\<lambda>decoded. decoded = ScU64 42 \<and> scval_to_json x decoded = Inr (JInt 42))"

text \<open>\<open>b64\<close> is \<open>to_xdr_base64\<close>; \<open>event_id\<close> is the id \<open>100 << 32\<close>, index 0.\<close>

definition decodes_rpc_event_to_chain_event :: "xdr \<Rightarrow> (scval \<Rightarrow> string) \<Rightarrow> string \<Rightarrow> bool" where
  "decodes_rpc_event_to_chain_event x b64 event_id \<longleftrightarrow>
    (let event = \<lparr> re_contract_id = ''CDEBUG'', re_id = event_id, re_ledger = 100,
           re_topic = [b64 (ScSymbol ''FinancingCreated''), b64 (ScU64 7)],
           re_value = b64 (ScVec (Some [ScU64 7, ScI128 0 5000000000, ScBool False])) \<rparr>
     in unwrapped (decode_rpc_event x event ''financing'')
      (\<lambda>chain. contract_id chain = ''CDEBUG'' \<and> contract_name chain = ''financing''
        \<and> event_name chain = ''FinancingCreated'' \<and> ledger_sequence chain = 100
        \<and> operation_index chain = 0 \<and> event_index chain = 0
        \<and> topics chain = JArr [JInt 7]
        \<and> data chain = JArr [JInt 7, JInt 5000000000, JBool False]))"

lemma scval_tests [unit_tests]:
  assumes "\<And>s. xd_text x s = s"
  shows "decodes_scval_to_json x"
    and "xd_scval x ''AAAABQAAAAAAAAAq'' = Some (ScU64 42) \<Longrightarrow> roundtrips_base64_xdr_scval x"
  by (simp_all add: decodes_scval_to_json_def roundtrips_base64_xdr_scval_def unwrapped_def assms)

lemma rpc_event_test [unit_tests]:
  assumes "\<And>s. xd_text x s = s" and "\<And>v. xd_scval x (b64 v) = Some v"
    and "xd_cursor x event_id = Some (push_bit 32 100, 0)"
  shows "decodes_rpc_event_to_chain_event x b64 event_id"
proof -
  have "i128_json 0 5000000000 = JInt 5000000000" by code_simp
  moreover have "ledger_of (push_bit 32 100) = 100" "operation_of (push_bit 32 100) = 0" by code_simp+
  ultimately show ?thesis
    by (simp add: decodes_rpc_event_to_chain_event_def decode_rpc_event_def unwrapped_def get_nth_def assms)
qed

section \<open>Farmers\<close>

definition VALID :: string where
  "VALID = ''GAAAAAAAAAAAAAAAAAAAAAAAAAAAAAAAAAAAAAAAAAAAAAAAAAAAAWHF''"

definition parses_raw_address :: "(string \<Rightarrow> bool) \<Rightarrow> bool" where
  "parses_raw_address is_pk \<longleftrightarrow>
    unwrapped (result_ok (parse_farmer_identifier is_pk VALID)) (\<lambda>a. a = VALID)"

definition parses_farmer_presentation_form :: "(string \<Rightarrow> bool) \<Rightarrow> bool" where
  "parses_farmer_presentation_form is_pk \<longleftrightarrow>
    (let input = farmer_id VALID in
     unwrapped (result_ok (parse_farmer_identifier is_pk input)) (\<lambda>a. a = VALID))"

definition renders_presentation_id :: bool where
  "renders_presentation_id \<longleftrightarrow> farmer_id VALID = ''va:farmer:'' @ VALID"

definition rejects_invalid_address :: "(string \<Rightarrow> bool) \<Rightarrow> bool" where
  "rejects_invalid_address is_pk \<longleftrightarrow>
    result_ok (parse_farmer_identifier is_pk ''not-a-key'') = None
    \<and> result_ok (parse_farmer_identifier is_pk ''va:farmer:not-a-key'') = None
    \<and> result_ok (parse_farmer_identifier is_pk []) = None"

lemma farmer_tests [unit_tests]:
  assumes "is_pk VALID" and "\<not> is_pk ''not-a-key''" and "\<not> is_pk []"
  shows "parses_raw_address is_pk" "parses_farmer_presentation_form is_pk" "renders_presentation_id"
    "rejects_invalid_address is_pk"
proof -
  have strip: "strip_prefix ''va:farmer:'' VALID = None" "strip_prefix ''va:farmer:'' ''not-a-key'' = None"
    "strip_prefix ''va:farmer:'' [] = None" "strip_prefix ''va:farmer:'' ''va:farmer:not-a-key'' = Some ''not-a-key''"
    by code_simp+
  show "parses_raw_address is_pk" "parses_farmer_presentation_form is_pk" "renders_presentation_id"
    "rejects_invalid_address is_pk"
    using assms strip_prefix_append [of "''va:farmer:''" VALID]
    by (simp_all add: parses_raw_address_def parses_farmer_presentation_form_def renders_presentation_id_def
        rejects_invalid_address_def unwrapped_def parse_farmer_identifier_def strip farmer_id_def
        FARMER_ID_PREFIX_def del: append_Cons append_Nil)
qed

definition hash_test_sample :: farmer_metadata where
  "hash_test_sample =
    \<lparr> name = ''Ada Farm Cooperative'', region = Some ''Niger'', district = None, bio = None,
      profile_image_hash = None \<rparr>"

definition is_ascii_hexdigit :: "char \<Rightarrow> bool" where
  "is_ascii_hexdigit c \<longleftrightarrow> c \<in> set ''0123456789abcdefABCDEF''"

definition hash_is_stable_and_hex :: "(farmer_metadata \<Rightarrow> string) \<Rightarrow> bool" where
  "hash_is_stable_and_hex metadata_hash \<longleftrightarrow>
    (let a = metadata_hash hash_test_sample; b = metadata_hash hash_test_sample in
     a = b \<and> length a = 64 \<and> list_all is_ascii_hexdigit a)"

definition optional_fields_change_the_hash :: "(farmer_metadata \<Rightarrow> string) \<Rightarrow> bool" where
  "optional_fields_change_the_hash metadata_hash \<longleftrightarrow>
    (let other = hash_test_sample\<lparr>bio := Some ''Grows millet''\<rparr> in
     metadata_hash hash_test_sample \<noteq> metadata_hash other)"

text \<open>The digest is 64 hexadecimal digits, and tells the two documents of the test apart.\<close>

lemma hash_tests [unit_tests]:
  fixes to_vec and sha256_hex
  defines "digest \<equiv> \<lambda>m. sha256_hex (to_vec (JObj (canonical_map m)))"
  assumes "length (digest hash_test_sample) = 64" and "list_all is_ascii_hexdigit (digest hash_test_sample)"
    and no_collision: "\<And>v w. {v, w} \<subseteq> {hash_test_sample, hash_test_sample\<lparr>bio := Some ''Grows millet''\<rparr>} \<Longrightarrow>
      digest v = digest w \<Longrightarrow> canonical_map v = canonical_map w"
  shows "hash_is_stable_and_hex (metadata_hash_of to_vec sha256_hex)"
    "optional_fields_change_the_hash (metadata_hash_of to_vec sha256_hex)"
proof -
  have hash: "metadata_hash_of to_vec sha256_hex = digest"
    by (rule ext) (simp add: metadata_hash_of_def canonical_bytes_def digest_def)
  show "hash_is_stable_and_hex (metadata_hash_of to_vec sha256_hex)"
    using assms(2,3) by (simp add: hash_is_stable_and_hex_def hash)
  have "canonical_map hash_test_sample \<noteq> canonical_map (hash_test_sample\<lparr>bio := Some ''Grows millet''\<rparr>)"
    by code_simp
  then show "optional_fields_change_the_hash (metadata_hash_of to_vec sha256_hex)"
    using no_collision [of hash_test_sample "hash_test_sample\<lparr>bio := Some ''Grows millet''\<rparr>"]
    by (auto simp: optional_fields_change_the_hash_def hash Let_def)
qed

end
