(* ===== verification/Startup.thy ===== *)
theory Startup
  imports Backend
begin

text \<open>
  \<open>src/main.rs\<close> and the rest of \<open>src/lib.rs\<close>: the program's start, as an action on the list of what
  it has done to the outside. What the frameworks and the operating system do is an argument: the
  pool, the migrator, the HTTP client, the socket, the server and the merging of routers.
\<close>

section \<open>The routers\<close>

text \<open>A route is a method and a path; merging routers panics (\<open>None\<close>) when they overlap.\<close>

type_synonym route = "string \<times> string"

type_synonym merging = "route list \<Rightarrow> route list \<Rightarrow> route list option"

definition health_router :: "route list" where
  "health_router = [(''GET'', ''/health'')]"

definition farmers_router :: "route list" where
  "farmers_router =
    [(''GET'', ''/api/v1/farmers''),
     (''GET'', ''/api/v1/farmers/{address}''),
     (''POST'', ''/api/v1/farmers/register''),
     (''PUT'', ''/api/v1/farmers/{address}/metadata'')]"

definition auth_router :: "route list" where
  "auth_router =
    [(''POST'', ''/api/v1/auth/challenge''),
     (''POST'', ''/api/v1/auth/verify''),
     (''GET'', ''/api/v1/auth/session'')]"

definition projections_router :: "route list" where
  "projections_router =
    [(''GET'', ''/api/v1/verifications/{id}''), (''GET'', ''/api/v1/verifications''),
     (''GET'', ''/api/v1/escrows/{id}''), (''GET'', ''/api/v1/escrows''),
     (''GET'', ''/api/v1/financings/{id}''), (''GET'', ''/api/v1/financings'')]"

definition router :: "merging \<Rightarrow> route list option" where
  "router merge =
    Option.bind (merge [] health_router) (\<lambda>r.
    Option.bind (merge r farmers_router) (\<lambda>r.
    Option.bind (merge r auth_router) (\<lambda>r.
    merge r projections_router)))"

text \<open>\<open>swagger ui url\<close> is the router of \<open>SwaggerUi::new(ui).url(url, ..)\<close>.\<close>

definition app :: "merging \<Rightarrow> (string \<Rightarrow> string \<Rightarrow> route list) \<Rightarrow> route list option" where
  "app merge swagger =
    Option.bind (merge [] (swagger ''/swagger-ui'' ''/api-docs/openapi.json'')) (\<lambda>r.
    Option.bind (router merge) (\<lambda>api. merge r api))"

section \<open>The start\<close>

record ('ip, 'pool) platform =
  pf_parse_ip :: "string \<Rightarrow> 'ip option"
  pf_localhost :: 'ip
  pf_dotenv :: "(string \<Rightarrow> string option) \<Rightarrow> string \<Rightarrow> string option"
  pf_pool :: "nat \<Rightarrow> string \<Rightarrow> string + 'pool"
  pf_migrator :: "'pool \<Rightarrow> string + unit"
  pf_client :: "string \<Rightarrow> string + unit"
  pf_keys :: "(string \<times> string) list \<Rightarrow> string list"
  pf_merge :: merging
  pf_swagger :: "string \<Rightarrow> string \<Rightarrow> route list"
  pf_bind :: "'ip \<times> nat \<Rightarrow> string + unit"
  pf_serve :: "route list \<Rightarrow> string + unit"

text \<open>What the start does, and how it ends early. \<open>serve\<close> returns only when the server stops.\<close>

datatype ('ip, 'pool) startup_step =
    PoolOpened nat string
  | SchemaMigrated 'pool
  | IndexerSpawned 'pool rpc_source "string list"
  | Bound "'ip \<times> nat"
  | Serving 'pool stub_chain app_state "route list"

datatype startup_error =
    ConfigFailed config_error
  | ConnectFailed string
  | MigrateFailed string
  | SourceFailed chain_events_error
  | RouterPanic
  | BindFailed string
  | ServeFailed string

type_synonym ('ip, 'pool, 'a) startup = "(('ip, 'pool) startup_step list, startup_error, 'a) action"

definition did :: "('ip, 'pool) startup_step \<Rightarrow> ('ip, 'pool, unit) startup" where
  "did x = (\<lambda>trace. (Inr (), trace @ [x]))"

definition connect :: "('ip, 'pool) platform \<Rightarrow> string \<Rightarrow> ('ip, 'pool, 'pool) startup" where
  "connect pf database_url =
    and_then (map_err ConnectFailed (lift_result (pf_pool pf 10 database_url))) (\<lambda>pool.
    and_then (did (PoolOpened 10 database_url)) (\<lambda>_. ok pool))"

definition migrate :: "('ip, 'pool) platform \<Rightarrow> 'pool \<Rightarrow> ('ip, 'pool, unit) startup" where
  "migrate pf pool =
    and_then (map_err MigrateFailed (lift_result (pf_migrator pf pool))) (\<lambda>_. did (SchemaMigrated pool))"

definition main :: "('ip, 'pool) platform \<Rightarrow> (string \<Rightarrow> string option) \<Rightarrow> ('ip, 'pool, unit) startup" where
  "main pf env =
    and_then (map_err ConfigFailed
      (lift_result (config_from_env (pf_parse_ip pf) (pf_localhost pf) (pf_dotenv pf env)))) (\<lambda>config.
    and_then (connect pf (cfg_database_url config)) (\<lambda>pool.
    and_then (migrate pf pool) (\<lambda>_.
    and_then (map_err SourceFailed (lift_result (start_indexer (pf_client pf) (pf_keys pf) config))) (\<lambda>indexer.
    and_then (case indexer of
        None \<Rightarrow> ok ()
      | Some (source, contract_ids) \<Rightarrow> did (IndexerSpawned pool source contract_ids)) (\<lambda>_.
    let chain = build_chain config; state = state_of_config config in
    case app (pf_merge pf) (pf_swagger pf) of
      None \<Rightarrow> fail RouterPanic
    | Some routes \<Rightarrow>
        and_then (map_err BindFailed (lift_result (pf_bind pf (config_addr config)))) (\<lambda>listener.
        and_then (did (Bound (config_addr config))) (\<lambda>_.
        and_then (did (Serving pool chain state routes)) (\<lambda>_.
        map_err ServeFailed (lift_result (pf_serve pf routes))))))))))"

section \<open>The routes are the endpoints\<close>

definition merges :: "merging \<Rightarrow> bool" where
  "merges merge \<longleftrightarrow> (\<forall>a b. set a \<inter> set b = {} \<longrightarrow> merge a b = Some (a @ b))"

definition api_routes :: "route list" where
  "api_routes = health_router @ farmers_router @ auth_router @ projections_router"

lemmas router_defs = health_router_def farmers_router_def auth_router_def projections_router_def

lemma api_routes_distinct: "distinct api_routes"
  by (simp add: api_routes_def router_defs)

lemma mergesD: "merges merge \<Longrightarrow> set a \<inter> set b = {} \<Longrightarrow> merge a b = Some (a @ b)"
  by (simp add: merges_def)

lemma router_builds:
  assumes "merges merge"
  shows "router merge = Some api_routes"
proof -
  note merge = mergesD [OF assms]
  have 1: "merge [] health_router = Some health_router" by (simp add: merge)
  have 2: "merge health_router farmers_router = Some (health_router @ farmers_router)"
    by (rule merge) (simp add: router_defs)
  have 3: "merge (health_router @ farmers_router) auth_router = Some ((health_router @ farmers_router) @ auth_router)"
    by (rule merge) (simp add: router_defs)
  have 4: "merge ((health_router @ farmers_router) @ auth_router) projections_router
      = Some (((health_router @ farmers_router) @ auth_router) @ projections_router)"
    by (rule merge) (simp add: router_defs)
  show ?thesis
    unfolding router_def 1 bind.bind_lunit 2 3 4 by (simp add: api_routes_def)
qed

text \<open>Every request is dispatched by a route of its own, and every route serves requests.\<close>

theorem routes_are_endpoints: "set api_routes = range endpoint"
proof
  have "farmers_endpoint fr \<in> set farmers_router" for fr by (cases fr; simp add: router_defs)
  moreover have "auth_endpoint ar \<in> set auth_router" for ar by (cases ar; simp add: router_defs)
  moreover have "projections_endpoint pr \<in> set projections_router" for pr by (cases pr; simp add: router_defs)
  ultimately have "endpoint r \<in> set api_routes" for r
    by (cases r) (simp_all add: api_routes_def, simp add: health_router_def)
  then show "range endpoint \<subseteq> set api_routes" by blast
  have "(''GET'', ''/health'') \<in> range endpoint" by (rule range_eqI [of _ _ HealthRequest]) simp
  moreover have "farmers_endpoint r \<in> range endpoint" for r by (rule range_eqI [of _ _ "FarmersRequest r"]) simp
  moreover have "auth_endpoint r \<in> range endpoint" for r by (rule range_eqI [of _ _ "AuthRequest r"]) simp
  moreover have "projections_endpoint r \<in> range endpoint" for r
    by (rule range_eqI [of _ _ "ProjectionsRequest r"]) simp
  ultimately have "set health_router \<subseteq> range endpoint" "set farmers_router \<subseteq> range endpoint"
    "set auth_router \<subseteq> range endpoint" "set projections_router \<subseteq> range endpoint"
    unfolding router_defs
    by (simp_all del: image_iff) (metis farmers_endpoint.simps auth_endpoint.simps projections_endpoint.simps)+
  then show "set api_routes \<subseteq> range endpoint" by (simp add: api_routes_def)
qed

section \<open>The order of the start\<close>

text \<open>All a start of this configuration does, in order.\<close>

definition startup_plan ::
  "('ip, 'pool) platform \<Rightarrow> 'ip config \<Rightarrow> 'pool \<Rightarrow> route list \<Rightarrow> ('ip, 'pool) startup_step list" where
  "startup_plan pf c pool routes =
    [PoolOpened 10 (cfg_database_url c), SchemaMigrated pool]
    @ (if cfg_rpc_url c \<noteq> [] \<and> cfg_indexer_contracts c \<noteq> []
       then [IndexerSpawned pool \<lparr> rs_contracts = cfg_indexer_contracts c, rs_page_limit = 100 \<rparr>
               (pf_keys pf (cfg_indexer_contracts c))]
       else [])
    @ [Bound (cfg_host c, cfg_port c),
       Serving pool stub_chain_new \<lparr> st_domain = cfg_domain c, st_session_ttl = cfg_session_ttl c \<rparr> routes]"

text \<open>Whatever fails, what was done is a beginning of the plan, and nothing was done out of order.\<close>

lemma main_prefix:
  assumes "config_from_env (pf_parse_ip pf) (pf_localhost pf) (pf_dotenv pf env) = Inr c"
    and "pf_pool pf 10 (cfg_database_url c) = Inr pool"
    and "app (pf_merge pf) (pf_swagger pf) = Some routes"
  shows "\<exists>n. snd (main pf env []) = take n (startup_plan pf c pool routes)"
    and "fst (main pf env []) = Inr () \<Longrightarrow> snd (main pf env []) = startup_plan pf c pool routes"
  using assms
  by (auto simp: main_def connect_def migrate_def did_def startup_plan_def start_indexer_def rpc_new_def
      build_chain_def state_of_config_def with_session_ttl_def with_domain_def app_state_new_def config_addr_def
      action_simps Let_def split: sum.splits if_splits intro: exI [of _ 0] exI [of _ 1] exI [of _ 2] exI [of _ 3]
      exI [of _ 4] exI [of _ 5])

text \<open>With a sound surrounding the whole plan is carried out and the merged router is served.\<close>

theorem startup_serves:
  assumes "config_from_env (pf_parse_ip pf) (pf_localhost pf) (pf_dotenv pf env) = Inr c"
    and "pf_pool pf 10 (cfg_database_url c) = Inr pool" and "pf_migrator pf pool = Inr ()"
    and "pf_client pf (cfg_rpc_url c) = Inr ()" and "pf_bind pf (cfg_host c, cfg_port c) = Inr ()"
    and "merges (pf_merge pf)"
    and "set (pf_swagger pf ''/swagger-ui'' ''/api-docs/openapi.json'') \<inter> set api_routes = {}"
  defines "routes \<equiv> pf_swagger pf ''/swagger-ui'' ''/api-docs/openapi.json'' @ api_routes"
  shows "snd (main pf env []) = startup_plan pf c pool routes"
    and "fst (main pf env []) = map_sum ServeFailed (\<lambda>u. u) (pf_serve pf routes)"
proof -
  have "app (pf_merge pf) (pf_swagger pf) = Some routes"
    using assms(7) by (simp add: app_def router_builds [OF assms(6)] mergesD [OF assms(6)] routes_def)
  with assms(1-5) show "snd (main pf env []) = startup_plan pf c pool routes"
    and "fst (main pf env []) = map_sum ServeFailed (\<lambda>u. u) (pf_serve pf routes)"
    by (auto simp: main_def connect_def migrate_def did_def startup_plan_def start_indexer_def rpc_new_def
        build_chain_def state_of_config_def with_session_ttl_def with_domain_def app_state_new_def
        config_addr_def action_simps Let_def split: sum.splits)
qed

text \<open>A start without a database address does nothing, one on a database that cannot be migrated opens the pool only.\<close>

theorem startup_refusals:
  "pf_dotenv pf env ''DATABASE_URL'' = None \<Longrightarrow>
    main pf env [] = (Inl (ConfigFailed MissingDatabaseUrl), [])"
  "config_from_env (pf_parse_ip pf) (pf_localhost pf) (pf_dotenv pf env) = Inr c \<Longrightarrow>
    pf_pool pf 10 (cfg_database_url c) = Inr pool \<Longrightarrow> pf_migrator pf pool = Inl e \<Longrightarrow>
    main pf env [] = (Inl (MigrateFailed e), [PoolOpened 10 (cfg_database_url c)])"
  by (simp_all add: main_def connect_def migrate_def did_def config_from_env_def action_simps Let_def)

end
