(* ===== verification/Integration_Tests.thy ===== *)
theory Integration_Tests
  imports Unit_Tests Startup
begin

text \<open>
  The integration tests of \<open>tests/\<close>, translated assertion by assertion over the operations and
  requests of the model: a database emptied by the test is \<open>empty_pg\<close>, its pool is connected, and an
  \<open>expect\<close>, an \<open>unwrap\<close> or an assertion that does not hold is \<open>False\<close>.
\<close>

section \<open>The indexer\<close>

definition test_event :: "string \<Rightarrow> string \<Rightarrow> int \<Rightarrow> json \<Rightarrow> json \<Rightarrow> chain_event" where
  "test_event contract event ledger payload tops =
    \<lparr> contract_id = ''CCONTRACT'', contract_name = contract, event_name = event, ledger_sequence = ledger,
      operation_index = 0, event_index = 0, topics = tops, data = payload \<rparr>"

text \<open>A stub source with these events, in the order they are pushed, and this head.\<close>

definition test_source :: "chain_event list \<Rightarrow> int \<Rightarrow> stub_source" where
  "test_source events head = stub_set_head head (fold stub_push events stub_new)"

text \<open>\<open>Uuid::parse_str\<close> on the references of the tests, which are uuids in the canonical form.\<close>

definition test_uuid :: "string \<Rightarrow> string option" where
  "test_uuid s = (if length s = 36 then Some s else None)"

definition test_ingest :: "stub_source \<Rightarrow> pg \<Rightarrow> (chain_events_error + nat) \<times> pg" where
  "test_ingest source =
    ingest (\<lambda>_. ''error'') test_uuid (stub_events_after source) (stub_head_ledger source) ''CCONTRACT''"

definition BATCH :: string where
  "BATCH = ''018f0c2a-0000-7000-8000-000000000000''"

definition verification_projection_builds_from_events :: bool where
  "verification_projection_builds_from_events \<longleftrightarrow>
    (let source = test_source
       [test_event ''verification'' ''VerificationCreated'' 100000
          (JArr [JInt 42, JStr BATCH, JStr ''GSUBJECT'', JStr ''0f1e2d3c'', JStr ''GISSUER'', JInt 100000,
             JBool False, JInt 0]) (JArr [JInt 42]),
        test_event ''verification'' ''VerificationRevoked'' 100120
          (JArr [JInt 42, JStr [], JBool True, JInt 100120]) (JArr [JInt 42]),
        test_event ''verification'' ''VerificationCreated'' 100135
          (JArr [JInt 43, JStr ''018f0c2b-0000-7000-8000-000000000000'', JStr ''GSUBJECT'', JStr ''aabbcc'',
             JStr ''GISSUER'', JInt 100135, JBool False, JInt 0]) (JArr [JInt 43])] 100140;
       (ingested, db) = test_ingest source empty_pg
     in unwrapped (result_ok ingested) (\<lambda>n. n = 3)
      \<and> unwrapped (result_ok (fst (get_cursor ''CCONTRACT'' db))) (\<lambda>cursor. cur_ledger cursor = 100135)
      \<and> unwrapped (tbl_find ver_id (verification_projection db) ''va:verification:000000000042'')
          (\<lambda>row. ver_subject row = ''GSUBJECT'' \<and> ver_issuer row = ''GISSUER'' \<and> ver_issued_ledger row = 100000
            \<and> ver_revoked row \<and> ver_revoked_ledger row = Some 100120
            \<and> ver_batch_id row = ''va:batch:'' @ BATCH)
      \<and> tbl_find ver_id (verification_projection db) ''va:verification:000000000043'' = None)"

definition escrow_projection_accumulates_deposits_releases_refunds :: bool where
  "escrow_projection_accumulates_deposits_releases_refunds \<longleftrightarrow>
    (let source = test_source
       [test_event ''escrow'' ''EscrowCreated'' 100000
          (JArr [JInt 11, JStr ''GDEPOSITOR'', JStr ''GBENEFICIARY'', JInt 10000000000, JInt 1,
             JStr ''GRELEASER'', JInt 0, JStr BATCH, JInt 100000, JInt 100000])
          (JArr [JInt 11, JStr ''GDEPOSITOR'']),
        test_event ''escrow'' ''EscrowDeposited'' 100010
          (JArr [JInt 11, JStr ''GDEPOSITOR'', JInt 5000000000, JInt 100010]) (JArr [JInt 11, JStr ''GDEPOSITOR'']),
        test_event ''escrow'' ''EscrowReleased'' 100020
          (JArr [JInt 11, JStr ''GRELEASER'', JInt 3000000000, JInt 100020]) (JArr [JInt 11, JStr ''GRELEASER'']),
        test_event ''escrow'' ''EscrowRefunded'' 100030
          (JArr [JInt 11, JStr ''GDEPOSITOR'', JInt 12000000000, JInt 100030])
          (JArr [JInt 11, JStr ''GDEPOSITOR''])] 100040;
       (ingested, db) = test_ingest source empty_pg
     in unwrapped (result_ok ingested) (\<lambda>_. True)
      \<and> unwrapped (tbl_find esc_id (escrow_projection db) ''va:escrow:000000000011'')
          (\<lambda>row. esc_depositor row = ''GDEPOSITOR'' \<and> esc_beneficiary row = ''GBENEFICIARY''
            \<and> esc_amount row = 15000000000 \<and> esc_released_amount row = 15000000000
            \<and> esc_status row = ''refunded'' \<and> esc_booking_ref row = Some (''va:booking:'' @ BATCH)))"

definition financing_projection_tracks_drawdown_and_default :: bool where
  "financing_projection_tracks_drawdown_and_default \<longleftrightarrow>
    (let source = test_source
       [test_event ''financing'' ''FinancingCreated'' 100000
          (JArr [JInt 7, JStr ''GFUNDER'', JStr ''GBENEFICIARY'', JInt 50000000000, JInt 10000000000, JInt 2,
             JArr [JObj [(''index'', JInt 1), (''deadline_ledger'', JInt 100100), (''proof_hash'', JStr ''aa''),
               (''proof_amount'', JInt 10000000000)]],
             JInt 100000, JInt 0, JBool False, JNull]) (JArr [JInt 7]),
        test_event ''financing'' ''FinancingDeposited'' 100010
          (JArr [JInt 7, JInt 5000000000, JInt 100010]) (JArr [JInt 7]),
        test_event ''financing'' ''FinancingReleased'' 100020
          (JArr [JInt 7, JInt 3000000000, JInt 100020]) (JArr [JInt 7]),
        test_event ''financing'' ''FinancingRefunded'' 100030
          (JArr [JInt 7, JInt 2000000000, JBool True, JInt 100030]) (JArr [JInt 7])] 100040;
       (ingested, db) = test_ingest source empty_pg
     in unwrapped (result_ok ingested) (\<lambda>_. True)
      \<and> unwrapped (tbl_find fin_id (financing_projection db) ''va:financing:000000000007'')
          (\<lambda>row. fin_funder row = ''GFUNDER'' \<and> fin_beneficiary row = ''GBENEFICIARY''
            \<and> fin_total_amount row = 50000000000 \<and> fin_drawn_amount row = 16000000000
            \<and> fin_milestone_count row = 2 \<and> fin_repaid_amount row = 0 \<and> fin_defaulted row
            \<and> fin_defaulted_ledger row = Some 100030 \<and> fin_status row = ''defaulted''))"

definition identity_projection_upserts_farmers_onchain_fields :: "string \<Rightarrow> bool" where
  "identity_projection_upserts_farmers_onchain_fields addr \<longleftrightarrow>
    (let source = test_source
       [test_event ''identity'' ''FarmerRegistered'' 100000
          (JObj [(''address'', JStr addr), (''metadata_hash'', JStr ''deadbeef''),
             (''verification_markers'', JArr []), (''created_ledger'', JInt 100000),
             (''updated_ledger'', JInt 100000)]) (JArr [JStr addr]),
        test_event ''identity'' ''VerificationMarkerSet'' 100050
          (JObj [(''kind'', JStr ''organic''), (''issuer'', JStr ''GISSUER''), (''issued_ledger'', JInt 100050)])
          (JArr [JStr addr])] 100060;
       (ingested, db) = test_ingest source empty_pg
     in unwrapped (result_ok ingested) (\<lambda>_. True)
      \<and> unwrapped (tbl_find fa_address (farmers db) addr)
          (\<lambda>row. fa_id row = ''va:farmer:'' @ addr \<and> fa_registered row \<and> fa_created_ledger row = Some 100000
            \<and> fa_updated_ledger row = Some 100000
            \<and> unwrapped (as_array (fa_verification_markers row))
                (\<lambda>markers. length markers = 1 \<and> get_key (markers ! 0) ''kind'' = Some (JStr ''organic''))))"

definition re_ingest_is_idempotent :: bool where
  "re_ingest_is_idempotent \<longleftrightarrow>
    (let source = test_source
       [test_event ''verification'' ''VerificationCreated'' 100000
          (JArr [JInt 42, JStr BATCH, JStr ''GSUBJECT'', JStr ''0f1e2d3c'', JStr ''GISSUER'', JInt 100000,
             JBool False, JInt 0]) (JArr [JInt 42])] 100020;
       (ingested, db) = test_ingest source empty_pg;
       (reingested, db') = test_ingest source db
     in unwrapped (result_ok ingested) (\<lambda>_. length (indexed_events db) = 1)
      \<and> unwrapped (result_ok reingested) (\<lambda>n. n = 0)
      \<and> length (indexed_events db') = 1 \<and> length (verification_projection db') = 1)"

definition rewind_drops_events_and_resumes_from_divergent_ledger :: bool where
  "rewind_drops_events_and_resumes_from_divergent_ledger \<longleftrightarrow>
    (let source = test_source
       [test_event ''verification'' ''VerificationCreated'' 100000
          (JArr [JInt 1, JStr BATCH, JStr ''GSUBJECT'', JStr ''aa'', JStr ''GISSUER'', JInt 100000,
             JBool False, JInt 0]) (JArr [JInt 1])] 100020;
       (ingested, db) = test_ingest source empty_pg;
       (rewound, db') = rewind ''CCONTRACT'' 100010 db
     in unwrapped (result_ok ingested) (\<lambda>_. unwrapped (result_ok rewound) (\<lambda>_. True))
      \<and> length (indexed_events db') = 1
      \<and> unwrapped (result_ok (fst (get_cursor ''CCONTRACT'' db'))) (\<lambda>cursor. cursor = START))"

lemma indexer_tests:
  verification_projection_builds_from_events
  escrow_projection_accumulates_deposits_releases_refunds
  financing_projection_tracks_drawdown_and_default
  "identity_projection_upserts_farmers_onchain_fields VALID"
  re_ingest_is_idempotent
  rewind_drops_events_and_resumes_from_divergent_ledger
  by code_simp+

section \<open>Requests\<close>

text \<open>
  The backend of the tests: \<open>AppState::new\<close> with a stub chain. Other crates are instantiated by toys
  with the properties the tests rest on: keys and addresses coincide, a signature is the key and the
  text signed, hashes and encodings are injective, \<open>ILIKE\<close> looks for a text between percent signs
  ignoring case, and rows come in the order of their creation, latest first.
\<close>

definition lower_char :: "char \<Rightarrow> char" where
  "lower_char c = (if CHR ''A'' \<le> c \<and> c \<le> CHR ''Z'' then char_of (of_char c + 32 :: nat) else c)"

fun contains_text :: "string \<Rightarrow> string \<Rightarrow> bool" where
  "contains_text [] p \<longleftrightarrow> p = []"
| "contains_text (c # t) p \<longleftrightarrow> take (length p) (c # t) = p \<or> contains_text t p"

definition test_ilike :: "string \<Rightarrow> string \<Rightarrow> bool" where
  "test_ilike t pattern = contains_text (map lower_char t) (map lower_char (butlast (tl pattern)))"

definition test_is_pk :: "string \<Rightarrow> bool" where
  "test_is_pk a \<longleftrightarrow> length a = 56 \<and> hd a = CHR ''G''"

definition test_crypto :: "(string, string) crypto" where
  "test_crypto =
    \<lparr> cr_public_key = (\<lambda>a. if test_is_pk a then Inr a else Inl ''invalid''), cr_base64 = Inr,
      cr_signature = Inr, cr_verifying_key = Inr,
      cr_verify = (\<lambda>key message sig. if sig = key @ message then Inr () else Inl ''mismatch''),
      cr_sha256_hex = (\<lambda>s. ''#'' @ s), cr_rfc3339 = (\<lambda>t. ''T''),
      cr_add_date = (\<lambda>t d. Some (t + d)) \<rparr>"

definition test_backend :: "(stub_chain, string, string) backend" where
  "test_backend =
    \<lparr> be_crypto = test_crypto, be_state = app_state_new, be_is_pk = test_is_pk, be_hash = name,
      be_register = stub_register, be_update = stub_update, be_from_std = (\<lambda>n. Inr 604800000000),
      be_checks = True, be_as_text = (\<lambda>j. []), be_ilike = test_ilike, be_arrange = rev,
      be_time = (\<lambda>t. ''T''), be_sqlx_text = (\<lambda>e. ''error''), be_uuid = test_uuid \<rparr>"

text \<open>The random values of the \<open>n\<close>th draw, at time 0 of the clock.\<close>

definition test_draw :: "nat \<Rightarrow> draw" where
  "test_draw n = \<lparr> dr_nonce = ''n'' @ zero_padded 2 n, dr_token = ''t'' @ zero_padded 2 n,
     dr_now1 = 0, dr_now2 = 0 \<rparr>"

type_synonym test_state = "stub_chain \<times> pg"

definition new_test_state :: test_state where
  "new_test_state = (stub_chain_new, empty_pg)"

definition send :: "nat \<Rightarrow> request \<Rightarrow> test_state \<Rightarrow> response \<times> test_state" where
  "send n r s = serve test_backend (test_draw n) r s"

text \<open>Assertions on the status and the body of a response.\<close>

definition answered :: "response \<Rightarrow> nat \<Rightarrow> (json \<Rightarrow> bool) \<Rightarrow> bool" where
  "answered r status asserts = (case r of Answer st body \<Rightarrow> st = status \<and> asserts body | Aborted \<Rightarrow> False)"

text \<open>\<open>json["key"]\<close>, and the key of a key.\<close>

definition at_key :: "json \<Rightarrow> string \<Rightarrow> json" where
  "at_key j k = (case get_key j k of Some v \<Rightarrow> v | None \<Rightarrow> JNull)"

definition items_of :: "json \<Rightarrow> json list" where
  "items_of j = (case as_array (at_key j ''items'') of Some xs \<Rightarrow> xs | None \<Rightarrow> [])"

definition total_of :: "json \<Rightarrow> json" where
  "total_of j = at_key (at_key j ''pagination'') ''total''"

text \<open>
  How requests are evaluated: the fields of the backend in place, so that the default lifetime of
  sessions, a large number, is not.
\<close>

definition test_respond :: "('a \<Rightarrow> nat \<times> json) \<Rightarrow> app_error + 'a \<Rightarrow> response" where
  "test_respond success r = (case respond (\<lambda>e. ''error'') success r of (status, body) \<Rightarrow> Answer status body)"

definition test_respond_or_abort :: "('a \<Rightarrow> json) \<Rightarrow> failure + 'a \<Rightarrow> response" where
  "test_respond_or_abort body r =
    (case r of
       Inl Panic \<Rightarrow> Aborted
     | Inl (Failed e) \<Rightarrow> test_respond (\<lambda>a. (200, body a)) (Inl e)
     | Inr a \<Rightarrow> test_respond (\<lambda>a. (200, body a)) (Inr a))"

lemma test_responses: "answer test_backend = test_respond" "answer_or_abort test_backend = test_respond_or_abort"
proof -
  show a: "answer test_backend = test_respond"
    by (simp add: fun_eq_iff answer_def test_respond_def test_backend_def)
  show "answer_or_abort test_backend = test_respond_or_abort"
    by (simp add: fun_eq_iff answer_or_abort_def test_respond_or_abort_def a split: sum.split failure.split)
qed

lemma test_backend_simps:
  "be_crypto test_backend = test_crypto" "st_domain (be_state test_backend) = ''app.verdant.example''"
  "be_is_pk test_backend = test_is_pk" "be_hash test_backend = name" "be_register test_backend = stub_register"
  "be_update test_backend = stub_update" "be_from_std test_backend = (\<lambda>n. Inr 604800000000)"
  "be_checks test_backend = True" "be_as_text test_backend = (\<lambda>j. [])" "be_ilike test_backend = test_ilike"
  "be_arrange test_backend = rev" "be_time test_backend = (\<lambda>t. ''T'')"
  by (simp_all add: test_backend_def app_state_new_def)

lemma send_code [code]:
  "send n HealthRequest s = reply (test_respond (\<lambda>h. (200, health_json h))) (on_pg health s)"
  "send n (ProjectionsRequest (GetVerification i)) s =
    reply (test_respond_or_abort verification_json) (on_pg (get_verification_handler i) s)"
  "send n (ProjectionsRequest (ListVerifications vq)) s =
    reply (test_respond_or_abort verification_list_json) (on_pg (list_verifications_handler True vq) s)"
  "send n (ProjectionsRequest (GetEscrow i)) s =
    reply (test_respond_or_abort escrow_json) (on_pg (get_escrow_handler i) s)"
  "send n (ProjectionsRequest (ListEscrows eq)) s =
    reply (test_respond_or_abort escrow_list_json) (on_pg (list_escrows_handler True eq) s)"
  "send n (ProjectionsRequest (GetFinancing i)) s =
    reply (test_respond_or_abort financing_json) (on_pg (get_financing_handler i) s)"
  "send n (ProjectionsRequest (ListFinancings fq)) s =
    reply (test_respond_or_abort financing_list_json) (on_pg (list_financings_handler True fq) s)"
  "send n (AuthRequest (PostChallenge address)) s =
    reply (test_respond (\<lambda>c. (200, challenge_json c)))
      (on_pg (issue_challenge test_crypto ''app.verdant.example'' address (dr_nonce (test_draw n)) 0) s)"
  "send n (AuthRequest (PostVerify req)) s =
    reply (test_respond_or_abort (session_json (\<lambda>t. ''T'')))
      (on_pg (verify test_crypto ''app.verdant.example'' (Inr 604800000000) req (dr_token (test_draw n)) 0 0) s)"
  "send n (AuthRequest (GetSession token)) s =
    reply (test_respond (\<lambda>x. (200, session_row_json (\<lambda>t. ''T'') x))) (on_pg (session_handler test_crypto token 0) s)"
  "send n (FarmersRequest (SearchFarmers q)) s =
    reply (test_respond_or_abort search_response_json)
      (on_pg (search_farmers_handler True (\<lambda>j. []) test_ilike rev q) s)"
  "send n (FarmersRequest (GetFarmer address)) s =
    reply (test_respond (\<lambda>f. (200, farmer_json f))) (on_pg (get_farmer_handler test_is_pk address) s)"
  "send n (FarmersRequest (RegisterFarmer header reg)) s =
    reply (test_respond (\<lambda>(status, f). (status, farmer_json f)))
      (register_farmer_handler test_crypto test_is_pk name stub_register header 0 reg s)"
  "send n (FarmersRequest (UpdateMetadata header address m)) s =
    reply (test_respond (\<lambda>f. (200, farmer_json f)))
      (update_metadata_handler test_crypto test_is_pk name stub_update header 0 address m s)"
  by (simp_all add: send_def test_backend_simps test_responses test_draw_def challenge_handler_def verify_handler_def)

section \<open>Health\<close>

definition health_returns_ok_with_database_up :: bool where
  "health_returns_ok_with_database_up \<longleftrightarrow>
    answered (fst (send 0 HealthRequest new_test_state)) 200
      (\<lambda>json. at_key json ''status'' = JStr ''ok'' \<and> at_key json ''database'' = JStr ''up'')"

text \<open>The routes of the application, with paths matched segment by segment; \<open>{..}\<close> matches any.\<close>

definition test_matches :: "string \<Rightarrow> string \<Rightarrow> bool" where
  "test_matches template path \<longleftrightarrow>
    (let t = split_on CHR ''/'' template; p = split_on CHR ''/'' path in
     length t = length p \<and> list_all2 (\<lambda>a b. a = b \<or> take 1 a = ''{'') t p)"

definition test_app :: "route list option" where
  "test_app = app (\<lambda>a b. if list_all (\<lambda>r. \<not> List.member a r) b then Some (a @ b) else None)
    (\<lambda>ui url. [(''GET'', ui), (''GET'', ui @ ''/{*rest}''), (''GET'', url)])"

definition test_route :: "string \<Rightarrow> string \<Rightarrow> route option" where
  "test_route verb path =
    (case test_app of
       None \<Rightarrow> None
     | Some routes \<Rightarrow> find (\<lambda>(m, template). m = verb \<and> test_matches template path) routes)"

definition unknown_route_returns_not_found :: bool where
  "unknown_route_returns_not_found \<longleftrightarrow>
    test_app \<noteq> None \<and> test_route ''GET'' ''/does-not-exist'' = None"

definition auth_user_extractor_rejects_missing_bearer :: bool where
  "auth_user_extractor_rejects_missing_bearer \<longleftrightarrow>
    test_route ''GET'' ''/health'' = Some (endpoint HealthRequest)
    \<and> answered (fst (send 0 HealthRequest new_test_state)) 200 (\<lambda>_. True)"

section \<open>Projections\<close>

definition seed_verification :: "pg \<Rightarrow> pg" where
  "seed_verification db = db\<lparr>verification_projection :=
    [\<lparr> ver_id = ''va:verification:000000000042'', ver_contract_id = ''CCONTRACT'',
       ver_batch_id = ''va:batch:018f0c2a-0000-7000-8000-000000000000'', ver_subject = ''GSUBJECT'',
       ver_proof_hash = ''0f1e2d3c'', ver_issuer = ''GISSUER'', ver_issued_ledger = 100000,
       ver_revoked = False, ver_revoked_ledger = None \<rparr>,
     \<lparr> ver_id = ''va:verification:000000000043'', ver_contract_id = ''CCONTRACT'',
       ver_batch_id = ''va:batch:018f0c2b-0000-7000-8000-000000000001'', ver_subject = ''GSUBJECT2'',
       ver_proof_hash = ''aabbcc'', ver_issuer = ''GISSUER'', ver_issued_ledger = 100135,
       ver_revoked = True, ver_revoked_ledger = Some 100120 \<rparr>]\<rparr>"

definition seed_escrow :: "pg \<Rightarrow> pg" where
  "seed_escrow db = db\<lparr>escrow_projection :=
    [\<lparr> esc_id = ''va:escrow:000000000011'', esc_contract_id = ''CCONTRACT'', esc_depositor = ''GDEPOSITOR'',
       esc_beneficiary = ''GBENEFICIARY'', esc_amount = 10000000000, esc_released_amount = 0,
       esc_booking_ref = Some (''va:booking:'' @ BATCH), esc_condition_kind = 1,
       esc_condition_releaser = Some ''GRELEASER'', esc_condition_timeout_ledger = None,
       esc_created_ledger = 100000, esc_updated_ledger = 100000, esc_status = ''open'' \<rparr>]\<rparr>"

definition seed_financing :: "pg \<Rightarrow> pg" where
  "seed_financing db = db\<lparr>financing_projection :=
    [\<lparr> fin_id = ''va:financing:000000000007'', fin_contract_id = ''CCONTRACT'', fin_funder = ''GFUNDER'',
       fin_beneficiary = ''GBENEFICIARY'', fin_total_amount = 50000000000, fin_drawn_amount = 10000000000,
       fin_milestone_count = 2, fin_milestones = JArr [JObj [(''index'', JInt 1)]],
       fin_drawn_ledger = Some 100000, fin_repaid_amount = 0, fin_defaulted = False,
       fin_defaulted_ledger = None, fin_updated_ledger = Some 100000, fin_status = ''active'' \<rparr>,
     \<lparr> fin_id = ''va:financing:000000000008'', fin_contract_id = ''CCONTRACT'', fin_funder = ''GFUNDER2'',
       fin_beneficiary = ''GBENEF2'', fin_total_amount = 30000000000, fin_drawn_amount = 5000000000,
       fin_milestone_count = 1, fin_milestones = JArr [], fin_drawn_ledger = Some 100010,
       fin_repaid_amount = 0, fin_defaulted = True, fin_defaulted_ledger = Some 100030,
       fin_updated_ledger = Some 100030, fin_status = ''defaulted'' \<rparr>]\<rparr>"

text \<open>A \<open>GET\<close> over the seeded tables.\<close>

definition read_seeded :: "(pg \<Rightarrow> pg) \<Rightarrow> projections_request \<Rightarrow> response" where
  "read_seeded seed r = fst (send 0 (ProjectionsRequest r) (stub_chain_new, seed empty_pg))"

definition verifications_get_by_id_ok :: bool where
  "verifications_get_by_id_ok \<longleftrightarrow>
    answered (read_seeded seed_verification (GetVerification ''va:verification:000000000042'')) 200
      (\<lambda>json. at_key json ''id'' = JStr ''va:verification:000000000042''
        \<and> at_key json ''subject'' = JStr ''GSUBJECT'' \<and> at_key json ''revoked'' = JBool False)"

definition verifications_get_bare_counter_ok :: bool where
  "verifications_get_bare_counter_ok \<longleftrightarrow>
    answered (read_seeded seed_verification (GetVerification ''42'')) 200 (\<lambda>_. True)"

definition verifications_get_invalid_id_returns_400 :: bool where
  "verifications_get_invalid_id_returns_400 \<longleftrightarrow>
    answered (read_seeded (\<lambda>db. db) (GetVerification ''not-an-id'')) 400 (\<lambda>_. True)"

definition verifications_get_not_found_returns_404 :: bool where
  "verifications_get_not_found_returns_404 \<longleftrightarrow>
    answered (read_seeded seed_verification (GetVerification ''va:verification:000000000099'')) 404 (\<lambda>_. True)"

text \<open>A missing \<open>page\<close> or \<open>pageSize\<close> takes its default.\<close>

definition verifications_list_filters_and_pagination :: bool where
  "verifications_list_filters_and_pagination \<longleftrightarrow>
    answered (read_seeded seed_verification (ListVerifications
        \<lparr> vq_batch_id = None, vq_subject = Some ''GSUBJECT'', vq_issuer = None, vq_revoked = None,
          vq_page = 1, vq_page_size = 1 \<rparr>)) 200
      (\<lambda>json. total_of json = JInt 1 \<and> length (items_of json) = 1)
    \<and> answered (read_seeded seed_verification (ListVerifications
        \<lparr> vq_batch_id = None, vq_subject = None, vq_issuer = None, vq_revoked = Some True,
          vq_page = default_page, vq_page_size = default_page_size \<rparr>)) 200
      (\<lambda>json. total_of json = JInt 1
        \<and> at_key (items_of json ! 0) ''id'' = JStr ''va:verification:000000000043'')"

definition escrows_get_and_list :: bool where
  "escrows_get_and_list \<longleftrightarrow>
    answered (read_seeded seed_escrow (GetEscrow ''va:escrow:000000000011'')) 200
      (\<lambda>json. at_key json ''depositor'' = JStr ''GDEPOSITOR'')
    \<and> answered (read_seeded seed_escrow (ListEscrows
        \<lparr> eq_depositor = Some ''GDEPOSITOR'', eq_beneficiary = None, eq_booking_ref = None, eq_status = None,
          eq_page = default_page, eq_page_size = default_page_size \<rparr>)) 200
      (\<lambda>json. total_of json = JInt 1)"

definition financings_get_and_list_with_status_filter :: bool where
  "financings_get_and_list_with_status_filter \<longleftrightarrow>
    answered (read_seeded seed_financing (GetFinancing ''va:financing:000000000007'')) 200
      (\<lambda>json. at_key json ''funder'' = JStr ''GFUNDER'')
    \<and> answered (read_seeded seed_financing (ListFinancings
        \<lparr> fq_funder = None, fq_beneficiary = None, fq_status = Some ''defaulted'',
          fq_page = default_page, fq_page_size = default_page_size \<rparr>)) 200
      (\<lambda>json. total_of json = JInt 1
        \<and> at_key (items_of json ! 0) ''id'' = JStr ''va:financing:000000000008'')"

definition escrows_get_invalid_returns_400 :: bool where
  "escrows_get_invalid_returns_400 \<longleftrightarrow>
    answered (read_seeded (\<lambda>db. db) (GetEscrow ''bad-id'')) 400 (\<lambda>_. True)"

definition financings_get_not_found_returns_404 :: bool where
  "financings_get_not_found_returns_404 \<longleftrightarrow>
    answered (read_seeded seed_financing (GetFinancing ''va:financing:000000000099'')) 404 (\<lambda>_. True)"

lemma projection_route_tests:
  health_returns_ok_with_database_up
  unknown_route_returns_not_found auth_user_extractor_rejects_missing_bearer
  verifications_get_by_id_ok verifications_get_bare_counter_ok
  verifications_get_invalid_id_returns_400 verifications_get_not_found_returns_404
  verifications_list_filters_and_pagination escrows_get_and_list
  financings_get_and_list_with_status_filter escrows_get_invalid_returns_400
  financings_get_not_found_returns_404
  by code_simp+

section \<open>Sign-in\<close>

definition test_address :: "nat \<Rightarrow> string" where
  "test_address n = ''G'' @ zero_padded 2 n @ ''AAAAAAAAAAAAAAAAAAAAAAAAAAAAAAAAAAAAAAAAAAAAAAAAAAAAA''"

definition test_id :: "nat \<Rightarrow> string" where
  "test_id n = ''va:farmer:'' @ test_address n"

text \<open>\<open>try_sign\<close> with the \<open>n\<close>th key, encoded.\<close>

definition test_sign :: "nat \<Rightarrow> string \<Rightarrow> string" where
  "test_sign n message = test_address n @ message"

definition text_at :: "json \<Rightarrow> string \<Rightarrow> string" where
  "text_at j k = (case as_str (at_key j k) of Some s \<Rightarrow> s | None \<Rightarrow> [])"

text \<open>The request that answers a challenge, with this signature.\<close>

definition answer_challenge :: "nat \<Rightarrow> json \<Rightarrow> string \<Rightarrow> request" where
  "answer_challenge n challenge signature = AuthRequest (PostVerify
    \<lparr> rq_address = test_address n, rq_domain = text_at challenge ''domain'',
      rq_nonce = text_at challenge ''nonce'', rq_timestamp = text_at challenge ''timestamp'',
      rq_signature = signature \<rparr>)"

definition signed_answer :: "nat \<Rightarrow> json \<Rightarrow> request" where
  "signed_answer n challenge = answer_challenge n challenge
    (test_sign n (sep40_message (text_at challenge ''domain'') (test_address n) (text_at challenge ''nonce'')
      (text_at challenge ''timestamp'')))"

text \<open>A step whose response must have this status, and the rest of the test with its body and state.\<close>

definition expecting ::
  "nat \<Rightarrow> response \<times> test_state \<Rightarrow> (json \<Rightarrow> test_state \<Rightarrow> bool) \<Rightarrow> bool" where
  "expecting status = (\<lambda>(r, s) rest. answered r status (\<lambda>body. rest body s))"

definition issue_test_challenge :: "nat \<Rightarrow> test_state \<Rightarrow> (json \<Rightarrow> test_state \<Rightarrow> bool) \<Rightarrow> bool" where
  "issue_test_challenge n s = expecting 200 (send n (AuthRequest (PostChallenge (test_address n))) s)"

text \<open>The body of a response with this status.\<close>

definition body_of :: "nat \<Rightarrow> response \<Rightarrow> json option" where
  "body_of status r = (case r of Answer st body \<Rightarrow> if st = status then Some body else None | Aborted \<Rightarrow> None)"

definition session_of :: "nat \<Rightarrow> test_state \<Rightarrow> (string \<times> test_state) option" where
  "session_of n s =
    (case send n (AuthRequest (PostChallenge (test_address n))) s of (r, s) \<Rightarrow>
     case body_of 200 r of
       None \<Rightarrow> None
     | Some challenge \<Rightarrow>
        (case send n (signed_answer n challenge) s of (r, s) \<Rightarrow>
         case body_of 200 r of
           None \<Rightarrow> None
         | Some json \<Rightarrow>
            (case as_str (at_key json ''token'') of None \<Rightarrow> None | Some token \<Rightarrow> Some (token, s))))"

definition establish_session :: "nat \<Rightarrow> test_state \<Rightarrow> (string \<Rightarrow> test_state \<Rightarrow> bool) \<Rightarrow> bool" where
  "establish_session n s rest = (case session_of n s of None \<Rightarrow> False | Some (token, s) \<Rightarrow> rest token s)"

definition challenge_returns_nonce_and_domain :: bool where
  "challenge_returns_nonce_and_domain \<longleftrightarrow>
    issue_test_challenge 1 new_test_state (\<lambda>json _.
      at_key json ''domain'' = JStr ''app.verdant.example'' \<and> at_key json ''address'' = JStr (test_address 1)
      \<and> unwrapped (as_str (at_key json ''nonce'')) (\<lambda>nonce. nonce \<noteq> [])
      \<and> unwrapped (as_str (at_key json ''timestamp'')) (\<lambda>timestamp. timestamp \<noteq> []))"

definition challenge_invalid_address_returns_400 :: bool where
  "challenge_invalid_address_returns_400 \<longleftrightarrow>
    answered (fst (send 1 (AuthRequest (PostChallenge ''not-a-valid-key'')) new_test_state)) 400 (\<lambda>_. True)"

definition verify_returns_session_token :: bool where
  "verify_returns_session_token \<longleftrightarrow>
    issue_test_challenge 2 new_test_state (\<lambda>challenge s.
    expecting 200 (send 2 (signed_answer 2 challenge) s) (\<lambda>json _.
      at_key json ''address'' = JStr (test_address 2) \<and> at_key json ''roles'' = JArr [JStr ''farmer'']
      \<and> unwrapped (as_str (at_key json ''token'')) (\<lambda>token. token \<noteq> [])
      \<and> unwrapped (as_str (at_key json ''expires_at'')) (\<lambda>t. t \<noteq> [])))"

definition verify_tampered_signature_returns_401 :: bool where
  "verify_tampered_signature_returns_401 \<longleftrightarrow>
    issue_test_challenge 3 new_test_state (\<lambda>challenge s.
    answered (fst (send 3 (answer_challenge 3 challenge (replicate 64 (CHR 0x00))) s)) 401 (\<lambda>_. True))"

definition verify_reused_nonce_returns_409 :: bool where
  "verify_reused_nonce_returns_409 \<longleftrightarrow>
    issue_test_challenge 4 new_test_state (\<lambda>challenge s.
    expecting 200 (send 4 (signed_answer 4 challenge) s) (\<lambda>_ s.
    answered (fst (send 5 (signed_answer 4 challenge) s)) 409 (\<lambda>_. True)))"

definition session_lookup_returns_401_for_unknown_token :: bool where
  "session_lookup_returns_401_for_unknown_token \<longleftrightarrow>
    answered (fst (send 0 (AuthRequest (GetSession ''doesnotexist'')) new_test_state)) 401 (\<lambda>_. True)"

definition session_lookup_with_valid_token_returns_address :: bool where
  "session_lookup_with_valid_token_returns_address \<longleftrightarrow>
    establish_session 5 new_test_state (\<lambda>token s.
    answered (fst (send 6 (AuthRequest (GetSession token)) s)) 200 (\<lambda>json.
      at_key json ''address'' = JStr (test_address 5) \<and> at_key json ''roles'' = JArr [JStr ''farmer'']))"

lemma auth_route_tests:
  challenge_returns_nonce_and_domain challenge_invalid_address_returns_400 verify_returns_session_token
  verify_tampered_signature_returns_401 verify_reused_nonce_returns_409
  session_lookup_returns_401_for_unknown_token session_lookup_with_valid_token_returns_address
  by code_simp+

section \<open>Farmers\<close>

definition named :: "string \<Rightarrow> farmer_metadata" where
  "named nm = \<lparr> name = nm, region = None, district = None, bio = None, profile_image_hash = None \<rparr>"

abbreviation ada :: string where
  "ada \<equiv> ''Ada Farm Cooperative''"

definition bearer :: "string \<Rightarrow> string option" where
  "bearer token = Some (''Bearer '' @ token)"

definition register_request :: "string option \<Rightarrow> string \<Rightarrow> farmer_metadata \<Rightarrow> request" where
  "register_request header address m =
    FarmersRequest (RegisterFarmer header \<lparr> req_address = address, req_metadata = m, req_metadata_hash = None \<rparr>)"

definition register_farmer_returns_201_with_va_id :: bool where
  "register_farmer_returns_201_with_va_id \<longleftrightarrow>
    establish_session 1 new_test_state (\<lambda>token s.
    answered (fst (send 1 (register_request (bearer token) (test_address 1)
        ((named ada)\<lparr>region := Some ''Niger''\<rparr>)) s)) 201
      (\<lambda>json. at_key json ''id'' = JStr (test_id 1) \<and> at_key json ''address'' = JStr (test_address 1)
        \<and> at_key json ''registered'' = JBool True \<and> as_i64 (at_key json ''createdLedger'') \<noteq> None
        \<and> at_key (at_key json ''metadata'') ''name'' = JStr ada
        \<and> at_key (at_key json ''metadata'') ''region'' = JStr ''Niger''))"

text \<open>The first of two requests is sent for its effect only.\<close>

definition register_duplicate_returns_409 :: bool where
  "register_duplicate_returns_409 \<longleftrightarrow>
    establish_session 2 new_test_state (\<lambda>token s.
    let req = register_request (bearer token) (test_address 2) (named ada);
        s = snd (send 2 req s)
    in answered (fst (send 2 req s)) 409
      (\<lambda>json. at_key json ''error'' = JStr ''farmer already registered''))"

definition get_farmer_returns_200 :: bool where
  "get_farmer_returns_200 \<longleftrightarrow>
    establish_session 3 new_test_state (\<lambda>token s.
    let s = snd (send 3 (register_request (bearer token) (test_address 3) (named ada)) s)
    in answered (fst (send 3 (FarmersRequest (GetFarmer (test_address 3))) s)) 200
      (\<lambda>json. at_key json ''id'' = JStr (test_id 3)))"

definition get_farmer_with_presentation_form :: bool where
  "get_farmer_with_presentation_form \<longleftrightarrow>
    establish_session 4 new_test_state (\<lambda>token s.
    let s = snd (send 4 (register_request (bearer token) (test_address 4) (named ada)) s)
    in answered (fst (send 4 (FarmersRequest (GetFarmer (test_id 4))) s)) 200
      (\<lambda>json. at_key json ''id'' = JStr (test_id 4)))"

definition get_unknown_farmer_returns_404 :: bool where
  "get_unknown_farmer_returns_404 \<longleftrightarrow>
    answered (fst (send 0 (FarmersRequest (GetFarmer (test_address 99))) new_test_state)) 404 (\<lambda>_. True)"

definition update_metadata_returns_200_with_new_hash :: bool where
  "update_metadata_returns_200_with_new_hash \<longleftrightarrow>
    establish_session 5 new_test_state (\<lambda>token s.
    let s = snd (send 5 (register_request (bearer token) (test_address 5)
          ((named ada)\<lparr>region := Some ''Niger''\<rparr>)) s)
    in answered (fst (send 5 (FarmersRequest (UpdateMetadata (bearer token) (test_address 5)
          ((named ada)\<lparr>region := Some ''Zinder'', district := Some ''Mirriah''\<rparr>))) s)) 200
      (\<lambda>json. at_key (at_key json ''metadata'') ''region'' = JStr ''Zinder''
        \<and> at_key (at_key json ''metadata'') ''district'' = JStr ''Mirriah''))"

definition update_metadata_wrong_actor_returns_401 :: bool where
  "update_metadata_wrong_actor_returns_401 \<longleftrightarrow>
    establish_session 6 new_test_state (\<lambda>token s.
    let s = snd (send 6 (register_request (bearer token) (test_address 6) (named ada)) s)
    in establish_session 60 s (\<lambda>other_token s.
      answered (fst (send 6 (FarmersRequest (UpdateMetadata (bearer other_token) (test_address 6)
        (named ''Hacker''))) s)) 401 (\<lambda>_. True)))"

definition register_missing_bearer_returns_401 :: bool where
  "register_missing_bearer_returns_401 \<longleftrightarrow>
    answered (fst (send 7 (register_request None (test_address 7) (named ada)) new_test_state)) 401 (\<lambda>_. True)"

definition register_invalid_address_returns_400 :: bool where
  "register_invalid_address_returns_400 \<longleftrightarrow>
    establish_session 8 new_test_state (\<lambda>token s.
    answered (fst (send 8 (register_request (bearer token) ''not-a-valid-stellar-key'' (named ada)) s)) 400
      (\<lambda>_. True))"

definition register_empty_name_returns_400 :: bool where
  "register_empty_name_returns_400 \<longleftrightarrow>
    establish_session 9 new_test_state (\<lambda>token s.
    answered (fst (send 9 (register_request (bearer token) (test_address 9) (named [])) s)) 400 (\<lambda>_. True))"

definition register_provided_metadata_hash_mismatch_returns_400 :: bool where
  "register_provided_metadata_hash_mismatch_returns_400 \<longleftrightarrow>
    establish_session 10 new_test_state (\<lambda>token s.
    answered (fst (send 10 (FarmersRequest (RegisterFarmer (bearer token)
        \<lparr> req_address = test_address 10, req_metadata = named ada, req_metadata_hash = Some ''deadbeef'' \<rparr>)) s)) 400
      (\<lambda>json. contains_text (text_at json ''error'') ''metadataHash''))"

lemma farmer_route_tests:
  register_farmer_returns_201_with_va_id register_duplicate_returns_409 get_farmer_returns_200
  get_farmer_with_presentation_form get_unknown_farmer_returns_404
  update_metadata_returns_200_with_new_hash update_metadata_wrong_actor_returns_401
  register_missing_bearer_returns_401 register_invalid_address_returns_400
  register_empty_name_returns_400 register_provided_metadata_hash_mismatch_returns_400
  by code_simp+

section \<open>Search\<close>

text \<open>Farmers registered one after another, each in its own session.\<close>

fun register_test_farmers :: "(nat \<times> string \<times> string) list \<Rightarrow> test_state \<Rightarrow> test_state option" where
  "register_test_farmers [] s = Some s"
| "register_test_farmers ((n, nm, rg) # rest) s =
    (case session_of n s of
       None \<Rightarrow> None
     | Some (token, s) \<Rightarrow>
        (case send n (register_request (bearer token) (test_address n) ((named nm)\<lparr>region := Some rg\<rparr>)) s of (r, s) \<Rightarrow>
         case body_of 201 r of None \<Rightarrow> None | Some _ \<Rightarrow> register_test_farmers rest s))"

text \<open>The UTF-8 bytes of the region.\<close>

definition Tillaberi :: string where
  "Tillaberi = ''Tillab'' @ [CHR 0xC3, CHR 0xA9] @ ''ri''"

text \<open>The search with these parameters once the farmers are registered.\<close>

definition searching ::
  "(nat \<times> string \<times> string) list \<Rightarrow> string option \<Rightarrow> int option \<Rightarrow> int option \<Rightarrow> (json \<Rightarrow> bool) \<Rightarrow> bool" where
  "searching registered q p k asserts \<longleftrightarrow>
    (case register_test_farmers registered new_test_state of
       None \<Rightarrow> False
     | Some s \<Rightarrow> answered (fst (send 0 (FarmersRequest (SearchFarmers (search_query_of q p k))) s)) 200 asserts)"

definition total_pages_at :: "json \<Rightarrow> json" where
  "total_pages_at j = at_key (at_key j ''pagination'') ''totalPages''"

definition search_farmers_by_name_substring :: bool where
  "search_farmers_by_name_substring \<longleftrightarrow>
    searching [(11, ''Sahel Grain Cooperative'', Tillaberi),
        (12, ''Zinder Dairy Union'', ''Zinder'')]
      (Some ''dairy'') None None (\<lambda>json.
      length (items_of json) = 1 \<and> (let item = items_of json ! 0 in
        at_key item ''name'' = JStr ''Zinder Dairy Union'' \<and> at_key item ''address'' = JStr (test_address 12)
        \<and> at_key item ''id'' = JStr (test_id 12) \<and> at_key item ''region'' = JStr ''Zinder'')
      \<and> total_of json = JInt 1 \<and> total_pages_at json = JInt 1)"

definition search_farmers_by_region_case_insensitive :: bool where
  "search_farmers_by_region_case_insensitive \<longleftrightarrow>
    searching [(13, ''Sahel Grain Cooperative'', Tillaberi),
        (14, ''Zinder Dairy Union'', ''zinder'')]
      (Some ''ZINDER'') None None (\<lambda>json.
      length (items_of json) = 1 \<and> at_key (items_of json ! 0) ''name'' = JStr ''Zinder Dairy Union'')"

definition search_farmers_no_match_returns_empty :: bool where
  "search_farmers_no_match_returns_empty \<longleftrightarrow>
    searching [(15, ''Sahel Grain Cooperative'', Tillaberi)]
      (Some ''nonexistent'') None None (\<lambda>json.
      length (items_of json) = 0 \<and> total_of json = JInt 0 \<and> total_pages_at json = JInt 1)"

definition search_farmers_empty_q_returns_all :: bool where
  "search_farmers_empty_q_returns_all \<longleftrightarrow>
    searching [(16, ''Sahel Grain Cooperative'', Tillaberi),
        (17, ''Zinder Dairy Union'', ''Zinder'')]
      None None None (\<lambda>json.
      length (items_of json) = 2 \<and> total_of json = JInt 2
      \<and> at_key (at_key json ''pagination'') ''pageSize'' = JInt 20)"

definition search_farmers_pagination_clamps_page_size :: bool where
  "search_farmers_pagination_clamps_page_size \<longleftrightarrow>
    searching [(18, ''Sahel Grain Cooperative'', Tillaberi),
        (19, ''Zinder Dairy Union'', ''Zinder'')]
      (Some []) (Some 1) (Some 500) (\<lambda>json.
      at_key (at_key json ''pagination'') ''pageSize'' = JInt 100 \<and> total_pages_at json = JInt 1
      \<and> length (items_of json) = 2)"

definition search_farmers_pages_results :: bool where
  "search_farmers_pages_results \<longleftrightarrow>
    searching [(21, ''Farmer 21'', ''Niger''),
        (22, ''Farmer 22'', ''Niger''),
        (23, ''Farmer 23'', ''Niger''),
        (24, ''Farmer 24'', ''Niger'')]
      None (Some 1) (Some 2) (\<lambda>json.
      length (items_of json) = 2 \<and> total_of json = JInt 4 \<and> total_pages_at json = JInt 2)"

lemma search_tests:
  search_farmers_by_name_substring search_farmers_by_region_case_insensitive
  search_farmers_no_match_returns_empty search_farmers_empty_q_returns_all
  by code_simp+

lemma search_page_tests: search_farmers_pagination_clamps_page_size search_farmers_pages_results
  by code_simp+

end
