(* ===== verification/Spec2Isabelle.thy ===== *)
theory Spec2Isabelle
  imports Indexer_Properties Rewind_Properties Rpc_Properties Backend_Properties
    Concurrency_Properties Loop_Safety Session_Limits Api_Contract Integration_Tests
begin

text \<open>
  The verdant-chain backend (Rust, \<open>src/\<close>): a service that mirrors the events of four Soroban
  contracts (identity, verification, escrow, financing) into PostgreSQL, serves the mirrored rows over
  HTTP, and lets farmers register and update their profiles after a signed challenge.

  \<^bold>\<open>The parts and how they interact.\<close> \<open>main\<close> reads the configuration, starts the indexer loop when an
  RPC URL and contracts are configured, and serves the routes. One tick of the loop runs \<open>ingest\<close>
  for each contract: read the contract's cursor, pull the events behind it from the event source,
  append them to the raw store, move the cursor, and replay all stored events at or below the
  finality floor through the projection builders. The routes read the projection tables and the
  farmers table; the farmer routes that write first extract the user of a session, which the
  authentication service opens for a signature over a single-use challenge. Nothing is done in a
  transaction: every statement commits on its own.

  \<^bold>\<open>Modelling.\<close> State is passed explicitly: an action maps a state to a result (\<open>Inl\<close> an error,
  \<open>Inr\<close> a value) and the next state (\<open>Prelude\<close>); the \<open>?\<close> operator is \<open>and_then\<close>, \<open>map_err\<close> is
  itself. The database is the record \<open>pg\<close> of tables as lists of rows (\<open>Database\<close>). Its field \<open>budget\<close>
  is the number of statements before the connection is lost (\<open>None\<close>: never) and \<open>ack_lost\<close> says
  whether the last one still took effect, so a theorem about an operation covers a crash at every
  statement of it. Integers are \<open>int\<close> and \<open>nat\<close> with their ranges and wrap-around written out
  (\<open>Rust_Int\<close>) and words where the code works on bits (\<open>Rpc_Values\<close>); strings are character lists.
  Readings of the clock, random values and the code of other crates are arguments.

  \<^bold>\<open>Theories.\<close>
  \<^item> \<open>Prelude\<close>, \<open>Rust_Int\<close>, \<open>Rust_Text\<close>, \<open>Json_Value\<close>: actions with their invariant calculus (\<open>keeps\<close>),
    keyed tables, integers, trimming and decimals, \<open>serde_json::Value\<close> and \<open>jsonb\<close>.
  \<^item> \<open>Ids\<close> (\<open>ids.rs\<close>, \<open>farmers/ids.rs\<close>), \<open>App_Error\<close> (\<open>error.rs\<close>), \<open>Event_Model\<close> (\<open>indexer/model.rs\<close>; cursors are an instance of
    \<open>linorder\<close>), \<open>Database\<close> (the tables of \<open>migrations/\<close>).
  \<^item> \<open>Event_Source\<close> (\<open>indexer/chain.rs\<close>): the trait \<open>ChainEvents\<close> as the locale \<open>event_source\<close>, interpreted on
    the stub source. \<open>Rpc_Values\<close>, \<open>Rpc_Source\<close> (\<open>indexer/rpc.rs\<close>): contract values to JSON, the paging
    loop, and the second interpretation, on the RPC source.
  \<^item> \<open>Event_Store\<close> (\<open>indexer/store.rs\<close>), \<open>Decoders\<close> and \<open>Projections\<close> (\<open>indexer/projections.rs\<close>), \<open>Indexer\<close>
    (\<open>indexer/service.rs\<close>).
  \<^item> \<open>Replay\<close>: what a projection promises, as the locales \<open>row_projection\<close>, \<open>resetting_projection\<close> and
    \<open>replayable_projection\<close> (a row is the fold of its changes; replaying a run of changes on top of an
    earlier prefix gives the run). \<open>Projection_Laws\<close> and \<open>Projection_Laws2\<close> prove the laws for the four
    projections and interpret the locales; the escrow's released amount is not replayable, only its
    other columns are.
  \<^item> \<open>Ingest_Laws\<close>, \<open>Chain_World\<close>, \<open>World_Projections\<close>: the abstract world of the indexer, a step relation
    \<open>world_reach\<close> over the chains, the head, re-orgs, passes, rewinds and faults, its invariant
    \<open>world_inv\<close>, and the rows as functions of the chain.
  \<^item> \<open>Farmer_Model\<close>, \<open>Farmer_Codec\<close>, \<open>Identity_Chain\<close>, \<open>Farmer_Service\<close> (\<open>farmers/\<close>): the trait \<open>IdentityChain\<close>
    is the locale \<open>identity_chain\<close>, interpreted on the stub chain. \<open>Auth_Service\<close> (\<open>auth/\<close>).
  \<^item> \<open>Pagination\<close>, \<open>Routes_Projections\<close> (\<open>routes/projections.rs\<close>), \<open>Config\<close> (\<open>config.rs\<close>, \<open>state.rs\<close>, the decisions of
    \<open>lib.rs\<close> and \<open>main.rs\<close>), \<open>Routes_App\<close> (\<open>routes/farmers.rs\<close>, \<open>routes/auth.rs\<close>, \<open>routes/health.rs\<close>).
  \<^item> \<open>Startup\<close> (\<open>main.rs\<close>, \<open>lib.rs\<close>): the routers and their merging, and the start of the program as an action
    on the list of what it has done to the outside. \<open>Session_Limits\<close>: the minting of tokens, and
    session lifetimes out of range.
  \<^item> \<open>Backend\<close>: the decoded requests as a datatype per router (\<open>routes/mod.rs\<close>), what each answers (\<open>serve\<close>), and the
    step relation \<open>backend_step\<close> of the running program over requests, passes, rewinds and faults.
  \<^item> \<open>Tasks\<close>: an asynchronous operation as a task that is finished or waits for its next atomic step;
    running a task alone, its rely-guarantee semantics (\<open>safe\<close>), runs with interference, and pools of
    interleaved tasks as the locale \<open>guarded_pool\<close>. \<open>Service_Tasks\<close> restates every operation as a task
    whose steps are its statements and calls, down to the requests, passes and rewinds of the program
    (\<open>job_task\<close>). \<open>Service_Rely\<close> and \<open>Concurrency\<close> show that every job keeps to the guarantees the others
    rely on, and interpret the locale on the service.
  \<^item> \<open>Api_Contract\<close>: the documented interface (the \<open>utoipa\<close> attributes of the handlers and the \<open>ApiDoc\<close>s), and the
    requests as they arrive (\<open>receive\<close>), decoded or refused by an extractor.
    \<open>Unit_Tests\<close>: the \<open>#[cfg(test)]\<close> modules over the definitions of the model; \<open>Integration_Tests\<close>: the
    tests of \<open>tests/\<close> as runs of its operations and requests, evaluated by the kernel.
  \<^item> \<open>Samples\<close>: the concrete chains at which the theorems are applied.

  \<^bold>\<open>What is shown.\<close>
  \<^item> \<open>Indexer_Properties\<close>, \<open>Pass_Properties\<close>, \<open>Rewind_Properties\<close>: no event is lost in any reachable world;
    after a successful pass each projected row is the abstract fold over the contract's finalized
    chain (all columns for verification, financing and identity; all but the released amount and
    the status for escrow); the store is append-only, the finality gate holds, a rewind recovers from a
    re-org, a round serves every contract; and the failures: a quiet contract's final events stay
    unapplied, a malformed event blocks its contract, releases are counted once per pass, a broken
    rewind loses events.
  \<^item> \<open>Rpc_Properties\<close>: a call over a bounded log returns at its last request and is exact, the pipeline
    stores exactly the chain, integers are read exactly or not at all (but for the 32-bit accessor,
    which wraps around), positions are those of the chain, and what a retention window does.
  \<^item> \<open>Projection_Types\<close>: the type invariant of the projection tables (ranges, canonical unique ids, status
    words), kept by every event, pass, round and rewind.
  \<^item> \<open>Query_Properties\<close>: identifiers round trip, lookups of the three endpoints are exact for every input,
    their pages as the response counts them are complete; offsets that overflow.
  \<^item> \<open>Farmer_Properties\<close>, \<open>Farmer_Invariants\<close>: registration and update, their refusals, the invariant of the
    farmers table over every writer of it, the canonical hash, and a search that shows every match
    once, newest first.
  \<^item> \<open>Auth_Properties\<close>, \<open>App_Properties\<close>: the exact conditions of a verification, each session opened by a
    consumed challenge of its own, reuse of a nonce refused in sequence but not when interleaved, the life of
    a session, and that a profile changes only for the holder of a session of its address.
  \<^item> \<open>Backend_Properties\<close>: over all reachable states of the running program, reading requests change
    nothing, the database keeps its invariant, and a profile changes only through its owner.
  \<^item> \<open>Service_Tasks\<close>, \<open>Concurrency_Properties\<close>, \<open>Pass_Interference\<close>: a task alone is the sequential operation;
    with any number of requests, passes and rewinds interleaved statement by statement the database
    keeps its invariant, a profile still changes only through its owner, and what a response
    acknowledges lasts; the indexer's loop among requests is the loop alone; a rewind during a pass
    loses events.
  \<^item> \<open>Loop_Safety\<close>: the loop with requests, lost connections and restarts of the process between any two
    of its statements (\<open>loop_step\<close>): at every moment the store holds every event of the chain at or
    before the cursor, nothing else, and keeps what it held.
  \<^item> \<open>Startup\<close>: the routes are the endpoints of the requests and merge without overlap; whatever fails, the
    start is a beginning of the full plan, so nothing is served from a database that is not migrated.
    \<open>Session_Limits\<close>: a minted token can be sent back and signs its holder in; a session lifetime out of
    range costs the challenge and opens nothing.
  \<^item> \<open>Api_Contract\<close>: every request is documented once, under the path it is routed by, and every status
    a decoded request is answered with is documented or 500; those of refused ones are not all. \<open>Unit_Tests\<close>, \<open>Integration_Tests\<close>: the assertions of the tests hold
    of the model.

  \<^bold>\<open>Bounds.\<close> \<open>trim\<close> recurses with the length of its input as fuel, which \<open>trim_start_fixed\<close> shows to be
  enough. The paging loop is a \<open>partial_function\<close> whose \<open>None\<close> is a call that does not return;
  \<open>rpc_call_returns\<close> shows that it returns over a bounded log, \<open>rpc_full_pages_diverge\<close> that it does not
  against a server that only serves full pages. All other recursions are structural.

  \<^bold>\<open>Not modelled.\<close> Tracing and CORS have no effect on what is modelled. Connecting, migrating,
  binding, merging routers and serving are calls into frameworks, whose results are arguments of
  \<open>main\<close>; the decoding of paths, queries and bodies and the serving of the interface document are theirs
  as well: \<open>serve\<close> dispatches decoded requests, and only \<open>receive\<close> has those that an extractor refuses
  (with a status that is the framework's), which reach no handler and write nothing.
  In \<open>backend_step\<close> a request or a pass runs to its end before the next one starts; the
  pools of \<open>Concurrency\<close> interleave them, with each statement atomic (the database is at read
  committed and no transaction spans two statements). The pools also allow two passes of one
  contract at once, which the program's single indexer loop does not do.
  The tables \<open>documents\<close> and \<open>schema_meta\<close>, and the columns \<open>updated_at\<close>, are not read by any code.
  The range of dates is that of \<open>cr_add_date\<close>, an argument: the sum of a date and a duration, or none
  when it leaves the range, where the addition of \<open>chrono\<close> panics; the five minutes of a challenge are
  taken to stay in it. The search orders rows by their creation time; the order of rows of the same
  time, which the query leaves open, is an argument.
\<close>

end
